(* ===== verification/Prelude.thy ===== *)
theory Prelude
  imports Main "HOL-Library.Word"
begin

section \<open>Shared vocabulary: errors, effectful calls, lists and maps\<close>

text \<open>
  A Go string is a byte sequence, so it is an Isabelle \<open>string\<close> (a list of 8-bit
  characters) and \<open>len\<close> is \<open>length\<close>. An \<open>int64\<close> is a \<open>64 word\<close> read with
  \<open>sint\<close>. Other definitions here model the language, not the repository.
\<close>

type_synonym i64 = "64 word"

named_theorems prog_simps "unfolding of effectful calls"

subsection \<open>Errors\<close>

text \<open>
  A package's sentinel errors (its \<open>errors.New\<close> variables) are a datatype of that
  package. \<open>Wrap m e\<close> is \<open>fmt.Errorf\<close> with the verb for wrapping, \<open>Opaque m\<close> any
  error no sentinel is compared with. \<open>errors_Is\<close> is \<open>errors.Is\<close>: it follows the
  wrapping.
\<close>

datatype 'e goerr = Sentinel 'e | Wrap string "'e goerr" | Opaque string

fun errors_Is :: "'e goerr \<Rightarrow> 'e \<Rightarrow> bool" where
  "errors_Is (Sentinel e) t = (e = t)"
| "errors_Is (Wrap m e) t = errors_Is e t"
| "errors_Is (Opaque m) t = False"

subsection \<open>Calls that may fail and change the world\<close>

text \<open>
  A Go function returning \<open>(T, error)\<close> is a function from the state of the world to
  an error or a value, and the world afterwards. \<open>andThen m k\<close> is the pattern
  \<open>x, err := m(); if err != nil { return err }; k(x)\<close>.
\<close>

type_synonym ('s, 'e, 'a) prog = "'s \<Rightarrow> ('e goerr + 'a) \<times> 's"

definition ret :: "'a \<Rightarrow> ('s, 'e, 'a) prog" where
  "ret x s = (Inr x, s)"

definition fail :: "'e goerr \<Rightarrow> ('s, 'e, 'a) prog" where
  "fail e s = (Inl e, s)"

definition andThen :: "('s, 'e, 'a) prog \<Rightarrow> ('a \<Rightarrow> ('s, 'e, 'b) prog) \<Rightarrow> ('s, 'e, 'b) prog" where
  "andThen m k s = (case m s of (Inl e, s') \<Rightarrow> (Inl e, s') | (Inr x, s') \<Rightarrow> k x s')"

lemma andThen_ret [simp]: "andThen (ret x) k = k x"
  by (rule ext) (simp add: andThen_def ret_def)

lemma andThen_fail [simp]: "andThen (fail e) k = fail e"
  by (rule ext) (simp add: andThen_def fail_def)

lemma andThen_assoc: "andThen (andThen m k) h = andThen m (\<lambda>x. andThen (k x) h)"
  by (rule ext) (simp add: andThen_def split: prod.split sum.split)

lemma andThen_Inr: "andThen m k s = (Inr y, s') \<longleftrightarrow>
    (\<exists>x t. m s = (Inr x, t) \<and> k x t = (Inr y, s'))"
  by (auto simp: andThen_def split: prod.splits sum.splits)

lemma andThen_Inl: "andThen m k s = (Inl e, s') \<longleftrightarrow>
    m s = (Inl e, s') \<or> (\<exists>x t. m s = (Inr x, t) \<and> k x t = (Inl e, s'))"
  by (auto simp: andThen_def split: prod.splits sum.splits)

lemma ret_eq [simp]: "ret x s = (r, s') \<longleftrightarrow> r = Inr x \<and> s' = s"
  by (auto simp: ret_def)

lemma fail_eq [simp]: "fail e s = (r, s') \<longleftrightarrow> r = Inl e \<and> s' = s"
  by (auto simp: fail_def)

lemmas prog_run = andThen_def ret_def fail_def

end
