(* ===== verification/Rounding.thy ===== *)
theory Rounding
  imports Main "HOL-Library.Log_Nat"
begin

section \<open>Rounding rationals to IEEE 754 binary64\<close>

text \<open>
  Go's \<open>float64\<close> is IEEE 754 binary64, rounded to nearest with ties to even.
  This theory defines that rounding as an executable function on exact rationals
  (\<open>round64\<close>, with the exponent not yet bounded above) and proves what the bounds
  on scores and distances rest on: it is monotone, odd, idempotent, and exact on every
  number with a 53-bit significand.
\<close>

subsection \<open>Powers of two and the binary exponent\<close>

definition two_powi :: "int \<Rightarrow> rat" where
  "two_powi e = (if 0 \<le> e then rat_of_int (2 ^ nat e) else 1 / rat_of_int (2 ^ nat (- e)))"

definition ilog2 :: "rat \<Rightarrow> int" where
  "ilog2 q = (case quotient_of q of (n, d) \<Rightarrow>
     let k = bitlen n - bitlen d in
     if (if 0 \<le> k then d * 2 ^ nat k \<le> n else d \<le> n * 2 ^ nat (- k)) then k else k - 1)"

definition round_half_even :: "rat \<Rightarrow> int" where
  "round_half_even x =
     (let f = \<lfloor>x\<rfloor>; r = x - of_int f in
      if r < 1 / 2 then f else if 1 / 2 < r then f + 1 else if even f then f else f + 1)"

definition exponent64 :: "rat \<Rightarrow> int" where
  "exponent64 q = max (ilog2 \<bar>q\<bar> - 52) (- 1074)"

definition round64 :: "rat \<Rightarrow> rat" where
  "round64 q = (if q = 0 then 0 else
     let e = exponent64 q in of_int (round_half_even (q * two_powi (- e))) * two_powi e)"

lemma two_powi_eq: "two_powi e = 2 powi e"
  by (simp add: two_powi_def power_int_def field_simps)

lemma two_powi_pos [simp]: "0 < two_powi e"
  by (simp add: two_powi_def)

lemma two_powi_nonzero [simp]: "two_powi e \<noteq> 0"
  using two_powi_pos [of e] by linarith

lemma two_powi_add: "two_powi (a + b) = two_powi a * two_powi b"
  by (simp add: two_powi_eq power_int_add)

lemma two_powi_cancel [simp]: "two_powi (- e) * two_powi e = 1" "two_powi e * two_powi (- e) = 1"
  by (simp_all flip: two_powi_add add: two_powi_def)

lemma two_powi_0 [simp]: "two_powi 0 = 1" by (simp add: two_powi_def)
lemma two_powi_1 [simp]: "two_powi 1 = 2" by (simp add: two_powi_def)

lemma two_powi_mono: "a \<le> b \<Longrightarrow> two_powi a \<le> two_powi b"
  unfolding two_powi_eq by (rule power_int_increasing) auto

lemma two_powi_less_iff: "two_powi a < two_powi b \<longleftrightarrow> a < b"
  by (metis linorder_not_le order_less_le two_powi_mono two_powi_eq power_int_strict_increasing one_less_numeral_iff semiring_norm(76))

lemma two_powi_nonneg_int: "0 \<le> e \<Longrightarrow> two_powi e = of_int (2 ^ nat e)"
  by (simp add: two_powi_def)

lemma bitlen_bounds_rat:
  assumes "0 < n" shows "two_powi (bitlen n - 1) \<le> of_int n" "of_int n < two_powi (bitlen n)"
proof -
  have b: "2 ^ nat (bitlen n - 1) \<le> n \<and> n < 2 ^ nat (bitlen n)"
    using assms by (rule bitlen_bounds)
  have p: "0 \<le> bitlen n - 1" using assms bitlen_nonneg[of n] bitlen_eq_zero_iff[of n] by linarith
  show "two_powi (bitlen n - 1) \<le> of_int n"
    using b p by (simp add: two_powi_nonneg_int del: of_int_power flip: of_int_le_iff)
  show "of_int n < two_powi (bitlen n)"
    using b p by (simp add: two_powi_nonneg_int del: of_int_power flip: of_int_less_iff)
qed

lemma ilog2_bounds:
  assumes "0 < q" shows "two_powi (ilog2 q) \<le> q" "q < two_powi (ilog2 q + 1)"
proof -
  obtain n d where q: "quotient_of q = (n, d)" by fastforce
  have d: "0 < d" using q quotient_of_denom_pos by blast
  have qe: "q = of_int n / of_int d" using q by (rule quotient_of_div)
  with assms d have n: "0 < n" by (simp add: zero_less_divide_iff)
  let ?k = "bitlen n - bitlen d"
  have up: "q < two_powi (?k + 1)"
  proof -
    have "of_int n < two_powi (bitlen n)" by (rule bitlen_bounds_rat(2)[OF n])
    also have "\<dots> = two_powi (?k + 1) * two_powi (bitlen d - 1)" by (simp flip: two_powi_add)
    also have "\<dots> \<le> two_powi (?k + 1) * of_int d"
      using bitlen_bounds_rat(1)[OF d] by (intro mult_left_mono) (auto simp: less_imp_le)
    finally show ?thesis using d by (simp add: qe divide_less_eq)
  qed
  have lo: "two_powi (?k - 1) \<le> q"
  proof -
    have "two_powi (?k - 1) * of_int d \<le> two_powi (?k - 1) * two_powi (bitlen d)"
      using bitlen_bounds_rat(2)[OF d] by (intro mult_left_mono) (auto simp: less_imp_le)
    also have "\<dots> = two_powi (bitlen n - 1)" by (simp flip: two_powi_add)
    also have "\<dots> \<le> of_int n" by (rule bitlen_bounds_rat(1)[OF n])
    finally show ?thesis using d by (simp add: qe le_divide_eq)
  qed
  have c: "(if 0 \<le> ?k then d * 2 ^ nat ?k \<le> n else d \<le> n * 2 ^ nat (- ?k)) \<longleftrightarrow> two_powi ?k \<le> q"
  proof (cases "0 \<le> ?k")
    case True
    have "d * 2 ^ nat ?k \<le> n \<longleftrightarrow> rat_of_int (d * 2 ^ nat ?k) \<le> rat_of_int n" by (simp only: of_int_le_iff)
    then show ?thesis using True d by (simp add: qe le_divide_eq two_powi_def mult.commute)
  next
    case False
    have "d \<le> n * 2 ^ nat (- ?k) \<longleftrightarrow> rat_of_int d \<le> rat_of_int (n * 2 ^ nat (- ?k))" by (simp only: of_int_le_iff)
    then show ?thesis using False d by (simp add: qe field_simps two_powi_def)
  qed
  have i: "ilog2 q = (if two_powi ?k \<le> q then ?k else ?k - 1)"
    by (simp only: ilog2_def q prod.case Let_def c)
  show "two_powi (ilog2 q) \<le> q" using lo by (simp add: i)
  show "q < two_powi (ilog2 q + 1)" using up by (simp add: i)
qed

lemma ilog2_eqI: "0 < q \<Longrightarrow> two_powi k \<le> q \<Longrightarrow> q < two_powi (k + 1) \<Longrightarrow> ilog2 q = k"
  using ilog2_bounds [of q] two_powi_less_iff [of "ilog2 q" "k + 1"] two_powi_less_iff [of k "ilog2 q + 1"]
  by linarith

lemma ilog2_mono: "0 < p \<Longrightarrow> p \<le> q \<Longrightarrow> ilog2 p \<le> ilog2 q"
  using ilog2_bounds [of q] ilog2_bounds [of p] two_powi_less_iff [of "ilog2 p" "ilog2 q + 1"]
  by linarith

lemma ilog2_less: "0 < q \<Longrightarrow> q < two_powi k \<Longrightarrow> ilog2 q < k"
  using ilog2_bounds [of q] two_powi_less_iff [of "ilog2 q" k]
  by linarith

lemma round_half_even_int [simp]: "round_half_even (of_int n) = n"
  by (simp add: round_half_even_def)

lemma round_half_even_bounds: "\<lfloor>x\<rfloor> \<le> round_half_even x" "round_half_even x \<le> \<lfloor>x\<rfloor> + 1"
  by (auto simp: round_half_even_def Let_def)

lemma round_half_even_mono:
  assumes "x \<le> y" shows "round_half_even x \<le> round_half_even y"
proof (cases "\<lfloor>x\<rfloor> = \<lfloor>y\<rfloor>")
  case True
  then show ?thesis using assms by (auto simp: round_half_even_def Let_def)
next
  case False
  with floor_mono[OF assms] have "\<lfloor>x\<rfloor> + 1 \<le> \<lfloor>y\<rfloor>" by linarith
  then show ?thesis using round_half_even_bounds[of x] round_half_even_bounds[of y] by linarith
qed

lemma round_half_even_near: "\<bar>of_int (round_half_even x) - x\<bar> \<le> 1 / 2"
  unfolding round_half_even_def Let_def
  using of_int_floor_le[of x] floor_less_iff[of x "\<lfloor>x\<rfloor> + 1"] 
  by (auto simp: abs_le_iff)

lemma round_half_even_uminus: "round_half_even (- x) = - round_half_even x"
proof (cases "x \<in> \<int>")
  case True then obtain n where "x = of_int n" by (auto elim: Ints_cases)
  then show ?thesis by (metis of_int_minus round_half_even_int)
next
  case False
  have c: "\<lfloor>- x\<rfloor> = - \<lfloor>x\<rfloor> - 1"
    using False by (simp add: floor_minus ceiling_altdef) (metis Ints_of_int)
  show ?thesis unfolding round_half_even_def Let_def c by auto
qed


lemma ilog2_two_powi [simp]: "ilog2 (two_powi k) = k"
  by (rule ilog2_eqI) (auto simp: two_powi_less_iff)

lemma exponent64_uminus [simp]: "exponent64 (- q) = exponent64 q"
  by (simp add: exponent64_def)

lemma exponent64_mono: "0 < p \<Longrightarrow> p \<le> q \<Longrightarrow> exponent64 p \<le> exponent64 q"
  unfolding exponent64_def using ilog2_mono [of p q] by auto

lemma round64_0 [simp]: "round64 0 = 0"
  by (simp add: round64_def)

lemma round64_uminus: "round64 (- q) = - round64 q"
  by (simp add: round64_def Let_def round_half_even_uminus)

lemma round64_nonneg: assumes "0 \<le> q" shows "0 \<le> round64 q"
proof -
  have "round_half_even 0 \<le> round_half_even (q * two_powi (- exponent64 q))"
    using assms by (intro round_half_even_mono) (simp add: less_imp_le)
  then have "0 \<le> round_half_even (q * two_powi (- exponent64 q))"
    using round_half_even_int [of 0] by simp
  then show ?thesis by (simp add: round64_def Let_def less_imp_le)
qed

text \<open>A value below a power of two rounds to at most that power, and dually.\<close>

lemma round64_le_two_powi:
  assumes "0 < q" "q \<le> two_powi k" "exponent64 q \<le> k"
  shows "round64 q \<le> two_powi k"
proof -
  let ?e = "exponent64 q"
  have "q * two_powi (- ?e) \<le> two_powi k * two_powi (- ?e)"
    using assms(2) by (intro mult_right_mono) (auto simp: less_imp_le)
  also have "\<dots> = of_int (2 ^ nat (k - ?e))"
    using assms(3) by (simp add: two_powi_nonneg_int [symmetric] del: of_int_power flip: two_powi_add)
  finally have "round_half_even (q * two_powi (- ?e)) \<le> 2 ^ nat (k - ?e)"
    using round_half_even_mono round_half_even_int by metis
  then have "of_int (round_half_even (q * two_powi (- ?e))) \<le> two_powi (k - ?e)"
    using assms(3) by (simp add: two_powi_nonneg_int del: of_int_power)
  then have "of_int (round_half_even (q * two_powi (- ?e))) * two_powi ?e \<le> two_powi (k - ?e) * two_powi ?e"
    by (intro mult_right_mono) (auto simp: less_imp_le)
  then show ?thesis using assms(1) by (simp add: round64_def Let_def flip: two_powi_add)
qed

lemma round64_ge_two_powi:
  assumes "two_powi k \<le> q" "exponent64 q \<le> k"
  shows "two_powi k \<le> round64 q"
proof -
  let ?e = "exponent64 q"
  have q: "0 < q" using assms(1) two_powi_pos [of k] by linarith
  have "of_int (2 ^ nat (k - ?e)) = two_powi k * two_powi (- ?e)"
    using assms(2) by (simp add: two_powi_nonneg_int [symmetric] del: of_int_power flip: two_powi_add)
  also have "\<dots> \<le> q * two_powi (- ?e)"
    using assms(1) by (intro mult_right_mono) (auto simp: less_imp_le)
  finally have "2 ^ nat (k - ?e) \<le> round_half_even (q * two_powi (- ?e))"
    using round_half_even_mono round_half_even_int by metis
  then have "two_powi (k - ?e) \<le> of_int (round_half_even (q * two_powi (- ?e)))"
    using assms(2) by (simp add: two_powi_nonneg_int del: of_int_power)
  then have "two_powi (k - ?e) * two_powi ?e \<le> of_int (round_half_even (q * two_powi (- ?e))) * two_powi ?e"
    by (intro mult_right_mono) (auto simp: less_imp_le)
  then show ?thesis using q by (simp add: round64_def Let_def flip: two_powi_add)
qed

lemma exponent64_cases: "exponent64 q = ilog2 \<bar>q\<bar> - 52 \<or> exponent64 q = - 1074"
  by (auto simp: exponent64_def)

lemma round64_mono_pos:
  assumes "0 < p" "p \<le> q" shows "round64 p \<le> round64 q"
proof (cases "exponent64 p = exponent64 q")
  case True
  have "p * two_powi (- exponent64 q) \<le> q * two_powi (- exponent64 q)"
    using assms by (intro mult_right_mono) (auto simp: less_imp_le)
  from round_half_even_mono [OF this] show ?thesis
    using assms True by (auto simp: round64_def Let_def less_imp_le intro!: mult_right_mono)
next
  case False
  with exponent64_mono [OF assms] have lt: "exponent64 p < exponent64 q" by simp
  have q: "0 < q" using assms by simp
  have eq: "exponent64 q = ilog2 q - 52" and ep: "ilog2 p - 52 \<le> exponent64 p"
    using lt assms by (auto simp: exponent64_def)
  let ?k = "exponent64 p + 53"
  have "p \<le> two_powi ?k"
    using ilog2_bounds(2) [OF assms(1)] two_powi_mono [of "ilog2 p + 1" ?k] ep by simp
  then have "round64 p \<le> two_powi ?k" by (intro round64_le_two_powi assms(1)) auto
  also have "\<dots> \<le> two_powi (ilog2 q)" using lt eq by (intro two_powi_mono) simp
  also have "\<dots> \<le> round64 q" using ilog2_bounds(1) [OF q] eq by (intro round64_ge_two_powi) auto
  finally show ?thesis .
qed

lemma round64_mono: assumes "p \<le> q" shows "round64 p \<le> round64 q"
proof -
  consider "0 < p" | "p \<le> 0" "0 \<le> q" | "q < 0" by linarith
  then show ?thesis
  proof cases
    case 1 then show ?thesis using assms by (rule round64_mono_pos)
  next
    case 2 then show ?thesis
      using round64_nonneg [of q] round64_nonneg [of "- p"] by (simp add: round64_uminus)
  next
    case 3
    then have "round64 (- q) \<le> round64 (- p)" using assms by (intro round64_mono_pos) auto
    then show ?thesis by (simp add: round64_uminus)
  qed
qed

text \<open>The values of binary64 (its exponent unbounded above) are the fixed points of rounding.\<close>

lemma round64_dyadic_pos:
  assumes "0 < m" "m \<le> 2 ^ 53" "- 1074 \<le> e"
  shows "round64 (of_int m * two_powi e) = of_int m * two_powi e"
proof (cases "m = 2 ^ 53")
  case True
  have q: "of_int m * two_powi e = two_powi (e + 53)"
    using two_powi_nonneg_int [of 53] by (simp add: True two_powi_add)
  have "exponent64 (two_powi (e + 53)) = e + 1"
    using assms(3) by (simp add: exponent64_def abs_of_pos)
  then have "two_powi (e + 53) \<le> round64 (two_powi (e + 53))" "round64 (two_powi (e + 53)) \<le> two_powi (e + 53)"
    by (auto intro!: round64_ge_two_powi round64_le_two_powi)
  then show ?thesis by (simp add: q)
next
  case False
  let ?q = "of_int m * two_powi e"
  have q: "0 < ?q" using assms by simp
  have "?q < two_powi (e + 53)"
    using False assms two_powi_nonneg_int [of 53] by (simp add: two_powi_add flip: of_int_less_iff)
  then have "ilog2 ?q < e + 53" using q by (rule ilog2_less [rotated])
  then have le: "exponent64 ?q \<le> e" using assms q by (simp only: exponent64_def abs_of_pos)
  have "?q * two_powi (- exponent64 ?q) = of_int (m * 2 ^ nat (e - exponent64 ?q))"
    using le two_powi_nonneg_int [of "e - exponent64 ?q"] two_powi_add [of e "- exponent64 ?q"] by simp
  then have "round_half_even (?q * two_powi (- exponent64 ?q)) = m * 2 ^ nat (e - exponent64 ?q)"
    by (simp only: round_half_even_int)
  then show ?thesis
    using q le two_powi_nonneg_int [of "e - exponent64 ?q"] two_powi_add [of "e - exponent64 ?q" "exponent64 ?q"]
    by (simp add: round64_def Let_def)
qed

lemma round64_dyadic:
  assumes "\<bar>m\<bar> \<le> 2 ^ 53" "- 1074 \<le> e"
  shows "round64 (of_int m * two_powi e) = of_int m * two_powi e"
proof -
  consider "m = 0" | "0 < m" | "m < 0" by linarith
  then show ?thesis
  proof cases
    case 3
    then have "round64 (of_int (- m) * two_powi e) = of_int (- m) * two_powi e"
      using assms by (intro round64_dyadic_pos) auto
    then show ?thesis using round64_uminus [of "of_int m * two_powi e"] by simp
  qed (use assms round64_dyadic_pos in auto)
qed

lemma round64_form_pos:
  assumes "0 < q"
  obtains m e where "\<bar>m\<bar> \<le> 2 ^ 53" "- 1074 \<le> e" "round64 q = of_int m * two_powi e"
proof
  let ?e = "exponent64 q" let ?m = "round_half_even (q * two_powi (- ?e))"
  show "- 1074 \<le> ?e" by (simp add: exponent64_def)
  show "round64 q = of_int ?m * two_powi ?e" using assms by (simp add: round64_def Let_def)
  have "ilog2 q + 1 \<le> ?e + 53" using assms by (simp add: exponent64_def)
  then have "q < two_powi (?e + 53)"
    using ilog2_bounds(2) [OF assms] two_powi_mono [of "ilog2 q + 1" "?e + 53"] by linarith
  then have "round64 q \<le> two_powi (?e + 53)" using assms by (intro round64_le_two_powi) auto
  then have "of_int ?m * two_powi ?e \<le> two_powi 53 * two_powi ?e"
    using assms by (simp add: round64_def Let_def two_powi_add [of ?e] mult.commute)
  then have "rat_of_int ?m \<le> of_int (2 ^ 53)" using two_powi_nonneg_int [of 53] by simp
  then have "?m \<le> 2 ^ 53" by (simp only: of_int_le_iff)
  moreover have "0 \<le> of_int ?m * two_powi ?e"
    using round64_nonneg [of q] assms by (simp add: round64_def Let_def)
  then have "0 \<le> ?m" using two_powi_pos [of ?e] by (auto simp: zero_le_mult_iff dest: leD)
  ultimately show "\<bar>?m\<bar> \<le> 2 ^ 53" by simp
qed

lemma round64_idem [simp]: "round64 (round64 q) = round64 q"
proof -
  have pos: "round64 (round64 p) = round64 p" if "0 < p" for p
    by (rule round64_form_pos [OF that]) (simp add: round64_dyadic)
  consider "q = 0" | "0 < q" | "0 < - q" by linarith
  then show ?thesis
    by cases (use pos [of q] pos [of "- q"] in \<open>auto simp: round64_uminus\<close>)
qed

lemma round64_of_int: "\<bar>n\<bar> \<le> 2 ^ 53 \<Longrightarrow> round64 (of_int n) = of_int n"
  using round64_dyadic [of n 0] by simp


text \<open>
  Rounding errs by at most one part in \<open>2 ^ 53\<close>, on normal values and on the multiples
  of the least positive value, which below the normal range are exact.
\<close>

lemma round64_relative_error:
  assumes "0 < q" "- 1074 \<le> ilog2 q - 52 \<or> (\<exists>n. q = of_int n * two_powi (- 1074))"
  shows "\<bar>round64 q - q\<bar> \<le> q * two_powi (- 53)"
proof (cases "- 1074 \<le> ilog2 q - 52")
  case True
  let ?e = "exponent64 q"
  have e: "?e = ilog2 q - 52" using True assms(1) by (simp add: exponent64_def)
  have "round64 q - q = (of_int (round_half_even (q * two_powi (- ?e))) - q * two_powi (- ?e)) * two_powi ?e"
    using assms(1) by (simp add: round64_def Let_def left_diff_distrib)
  then have "\<bar>round64 q - q\<bar> = \<bar>of_int (round_half_even (q * two_powi (- ?e))) - q * two_powi (- ?e)\<bar> * two_powi ?e"
    using two_powi_pos [of ?e] by (simp add: abs_mult abs_of_pos)
  also have "\<dots> \<le> 1 / 2 * two_powi ?e"
    by (intro mult_right_mono round_half_even_near) (simp add: less_imp_le)
  also have "\<dots> = two_powi (ilog2 q) * two_powi (- 53)"
    using two_powi_add [of "- 1" ?e] two_powi_add [of "ilog2 q" "- 53"] by (simp add: e two_powi_def [of "- 1"])
  also have "\<dots> \<le> q * two_powi (- 53)"
    using ilog2_bounds(1) [OF assms(1)] by (intro mult_right_mono) (auto simp: less_imp_le)
  finally show ?thesis .
next
  case False
  then obtain n where n: "q = of_int n * two_powi (- 1074)" using assms(2) by blast
  have "q < two_powi (- 1022 + 1)"
    using ilog2_bounds(2) [OF assms(1)] False two_powi_mono [of "ilog2 q + 1" "- 1022"]
      two_powi_mono [of "- 1022" "- 1021"] by simp
  then have "of_int n * two_powi (- 1074) < two_powi 53 * two_powi (- 1074)"
    by (simp add: n flip: two_powi_add)
  then have "rat_of_int n < of_int (2 ^ 53)" by (simp add: two_powi_nonneg_int)
  then have "n < 2 ^ 53" by (simp only: of_int_less_iff)
  moreover have "0 < n" using assms(1) n two_powi_pos [of "- 1074"] by (auto simp: zero_less_mult_iff)
  ultimately have "round64 q = q" unfolding n by (intro round64_dyadic) auto
  then show ?thesis using assms(1) by (simp add: less_imp_le)
qed

end
