(* ===== verification/Float64.thy ===== *)
theory Float64
  imports Rounding "HOL-Library.Word"
begin

section \<open>Go's float64\<close>

text \<open>
  A \<open>float64\<close> is not-a-number, an infinity or a finite value; a finite value is the
  rational it denotes, and the predicate \<open>is_fin\<close> says that this rational is one of
  the type's values. Arithmetic is exact on rationals and then rounded, overflow gives an
  infinity, and comparisons with not-a-number are false, as in Go. The instance of
  \<open>ord\<close> is that comparison; it is no partial order, since \<open>NaN \<le> NaN\<close> is false.

  The two zeros of IEEE 754 are one value here. The source never divides by a float
  it has not tested to be positive, so the sign of a zero shows only in printed text.
  Products and sums are rounded separately: Go may fuse them on some processors
  (arm64, s390x), not on the amd64 baseline the model follows.
\<close>

subsection \<open>The type\<close>

datatype f64 = NaN | PInf | NInf | Fin rat

definition overflow64 :: rat where
  "overflow64 = rat_of_int (2 ^ 1024)"

definition f64_of_rat :: "rat \<Rightarrow> f64" where
  "f64_of_rat q = (let r = round64 q in
     if overflow64 \<le> r then PInf else if r \<le> - overflow64 then NInf else Fin r)"

instantiation f64 :: "{zero, one, plus, minus, times, inverse, ord}"
begin

definition zero_f64 :: f64 where "zero_f64 = Fin 0"

definition one_f64 :: f64 where "one_f64 = Fin 1"

fun plus_f64 :: "f64 \<Rightarrow> f64 \<Rightarrow> f64" where
  "plus_f64 (Fin p) (Fin q) = f64_of_rat (p + q)"
| "plus_f64 NaN y = NaN"
| "plus_f64 x NaN = NaN"
| "plus_f64 PInf NInf = NaN"
| "plus_f64 NInf PInf = NaN"
| "plus_f64 PInf y = PInf"
| "plus_f64 NInf y = NInf"
| "plus_f64 x PInf = PInf"
| "plus_f64 x NInf = NInf"

fun minus_f64 :: "f64 \<Rightarrow> f64 \<Rightarrow> f64" where
  "minus_f64 x NaN = NaN"
| "minus_f64 x PInf = x + NInf"
| "minus_f64 x NInf = x + PInf"
| "minus_f64 x (Fin q) = x + Fin (- q)"

fun times_f64 :: "f64 \<Rightarrow> f64 \<Rightarrow> f64" where
  "times_f64 (Fin p) (Fin q) = f64_of_rat (p * q)"
| "times_f64 NaN y = NaN"
| "times_f64 x NaN = NaN"
| "times_f64 (Fin p) PInf = (if p = 0 then NaN else if 0 < p then PInf else NInf)"
| "times_f64 (Fin p) NInf = (if p = 0 then NaN else if 0 < p then NInf else PInf)"
| "times_f64 PInf (Fin q) = (if q = 0 then NaN else if 0 < q then PInf else NInf)"
| "times_f64 NInf (Fin q) = (if q = 0 then NaN else if 0 < q then NInf else PInf)"
| "times_f64 PInf PInf = PInf"
| "times_f64 PInf NInf = NInf"
| "times_f64 NInf PInf = NInf"
| "times_f64 NInf NInf = PInf"

fun divide_f64 :: "f64 \<Rightarrow> f64 \<Rightarrow> f64" where
  "divide_f64 (Fin p) (Fin q) =
     (if q \<noteq> 0 then f64_of_rat (p / q) else if p = 0 then NaN else if 0 < p then PInf else NInf)"
| "divide_f64 NaN y = NaN"
| "divide_f64 x NaN = NaN"
| "divide_f64 (Fin p) y = Fin 0"
| "divide_f64 PInf (Fin q) = (if 0 \<le> q then PInf else NInf)"
| "divide_f64 NInf (Fin q) = (if 0 \<le> q then NInf else PInf)"
| "divide_f64 x y = NaN"

definition inverse_f64 :: "f64 \<Rightarrow> f64" where
  "inverse_f64 x = Fin 1 div x"

fun less_eq_f64 :: "f64 \<Rightarrow> f64 \<Rightarrow> bool" where
  "less_eq_f64 (Fin p) (Fin q) = (p \<le> q)"
| "less_eq_f64 NaN y = False"
| "less_eq_f64 x NaN = False"
| "less_eq_f64 NInf y = True"
| "less_eq_f64 x PInf = True"
| "less_eq_f64 PInf y = False"
| "less_eq_f64 x NInf = False"

definition less_f64 :: "f64 \<Rightarrow> f64 \<Rightarrow> bool" where
  "less_f64 x y \<longleftrightarrow> x \<le> y \<and> \<not> y \<le> x"

instance ..

end


definition feq :: "f64 \<Rightarrow> f64 \<Rightarrow> bool" where
  "feq x y \<longleftrightarrow> x \<le> y \<and> y \<le> x"

definition is_fin :: "f64 \<Rightarrow> bool" where
  "is_fin x \<longleftrightarrow> (case x of Fin q \<Rightarrow> f64_of_rat q = Fin q | _ \<Rightarrow> False)"

definition f64_ok :: "f64 \<Rightarrow> bool" where
  "f64_ok x \<longleftrightarrow> (case x of Fin q \<Rightarrow> f64_of_rat q = Fin q | _ \<Rightarrow> True)"

definition math_Max :: "f64 \<Rightarrow> f64 \<Rightarrow> f64" where
  "math_Max x y =
     (if x = PInf \<or> y = PInf then PInf
      else if x = NaN \<or> y = NaN then NaN
      else if y < x then x else y)"

definition round_half_away :: "rat \<Rightarrow> int" where
  "round_half_away q = (if 0 \<le> q then \<lfloor>q + 1 / 2\<rfloor> else - \<lfloor>- q + 1 / 2\<rfloor>)"

fun math_Round :: "f64 \<Rightarrow> f64" where
  "math_Round (Fin q) = Fin (of_int (round_half_away q))"
| "math_Round x = x"

definition f64_of_i64 :: "64 word \<Rightarrow> f64" where
  "f64_of_i64 n = f64_of_rat (of_int (sint n))"

subsection \<open>Order\<close>

lemma f64_le_refl [simp]: "x \<le> x \<longleftrightarrow> x \<noteq> NaN" for x :: f64
  by (cases x) auto

lemma f64_le_trans [trans]: "x \<le> y \<Longrightarrow> y \<le> z \<Longrightarrow> x \<le> z" for x :: f64
  by (cases x; cases y; cases z) auto

lemma f64_le_antisym: "x \<le> y \<Longrightarrow> y \<le> x \<Longrightarrow> x = y" for x :: f64
  by (cases x; cases y) auto

lemma f64_le_PInf [simp]: "x \<le> PInf \<longleftrightarrow> x \<noteq> NaN"
  and NInf_le [simp]: "NInf \<le> x \<longleftrightarrow> x \<noteq> NaN"
  by (cases x; simp)+

lemma PInf_le [simp]: "PInf \<le> x \<longleftrightarrow> x = PInf" and f64_le_NInf [simp]: "x \<le> NInf \<longleftrightarrow> x = NInf"
  by (cases x; simp)+

lemma f64_linear: "x \<noteq> NaN \<Longrightarrow> y \<noteq> NaN \<Longrightarrow> x \<le> y \<or> y \<le> x" for x :: f64
  by (cases x; cases y) auto

lemma f64_le_not_NaN: "x \<le> y \<Longrightarrow> x \<noteq> NaN \<and> y \<noteq> NaN" for x :: f64
  by (cases x; cases y) auto

lemma f64_not_less: "\<not> x < y \<longleftrightarrow> y \<le> x \<or> x = NaN \<or> y = NaN" for x :: f64
  by (cases x; cases y) (auto simp: less_f64_def)

lemma f64_less_iff: "x < y \<longleftrightarrow> x \<le> y \<and> x \<noteq> y" for x :: f64
  by (cases x; cases y) (auto simp: less_f64_def)

lemma f64_le_less_trans: "x \<le> y \<Longrightarrow> y < z \<Longrightarrow> x < z" for x :: f64
  by (auto simp: less_f64_def dest: f64_le_trans)

lemma f64_less_imp_le: "x < y \<Longrightarrow> x \<le> y" for x :: f64
  by (simp add: less_f64_def)

lemma Fin_less [simp]: "Fin p < Fin q \<longleftrightarrow> p < q"
  by (auto simp: less_f64_def)

lemma NaN_not_less [simp]: "\<not> x < NaN" "\<not> NaN < x"
  by (simp_all add: less_f64_def) (cases x; simp)

lemma feq_iff: "feq x y \<longleftrightarrow> x = y \<and> x \<noteq> NaN"
  by (auto simp: feq_def dest: f64_le_antisym)

subsection \<open>Rounding is monotone and exact on the values of the type\<close>

lemma overflow64_pos: "0 < overflow64"
  by (simp add: overflow64_def)

lemma f64_of_rat_not_NaN [simp]: "f64_of_rat q \<noteq> NaN"
  by (auto simp: f64_of_rat_def Let_def)

lemma f64_of_rat_mono: "p \<le> q \<Longrightarrow> f64_of_rat p \<le> f64_of_rat q"
  using round64_mono [of p q] overflow64_pos by (auto simp: f64_of_rat_def Let_def)

lemma is_finE: "is_fin x \<Longrightarrow> (\<And>q. x = Fin q \<Longrightarrow> f64_of_rat q = Fin q \<Longrightarrow> P) \<Longrightarrow> P"
  by (auto simp: is_fin_def split: f64.splits)

lemma f64_of_rat_Fin: "f64_of_rat q = Fin r \<Longrightarrow> f64_of_rat r = Fin r"
  by (auto simp: f64_of_rat_def Let_def split: if_splits)

lemma f64_of_rat_int: "\<bar>n\<bar> \<le> 2 ^ 53 \<Longrightarrow> f64_of_rat (of_int n) = Fin (of_int n)"
proof -
  assume n: "\<bar>n\<bar> \<le> 2 ^ 53"
  have "\<bar>n\<bar> < (2 :: int) ^ 1024" using n by (rule order_le_less_trans) simp
  then have "n < 2 ^ 1024" "- (2 ^ 1024) < n" by linarith+
  then have "rat_of_int n < overflow64" "- overflow64 < rat_of_int n"
    unfolding overflow64_def of_int_minus [symmetric] of_int_less_iff .
  then show ?thesis using round64_of_int [OF n] by (simp add: f64_of_rat_def Let_def)
qed

lemma f64_of_rat_0 [simp]: "f64_of_rat 0 = 0" and f64_of_rat_1 [simp]: "f64_of_rat 1 = 1"
  using f64_of_rat_int [of 0] f64_of_rat_int [of 1] by (simp_all add: zero_f64_def one_f64_def)

lemma is_fin_0 [simp]: "is_fin 0" and is_fin_1 [simp]: "is_fin 1"
  using f64_of_rat_int [of 0] f64_of_rat_int [of 1] by (simp_all add: is_fin_def zero_f64_def one_f64_def)

lemma f64_of_rat_cases: "is_fin (f64_of_rat q) \<or> f64_of_rat q = PInf \<or> f64_of_rat q = NInf"
  by (cases "f64_of_rat q") (auto simp: is_fin_def dest: f64_of_rat_Fin)

lemma zero_le_Fin [simp]: "0 \<le> Fin q \<longleftrightarrow> 0 \<le> q" and Fin_le_zero [simp]: "Fin q \<le> 0 \<longleftrightarrow> q \<le> 0"
  and Fin_le_one [simp]: "Fin q \<le> 1 \<longleftrightarrow> q \<le> 1" and one_le_Fin [simp]: "1 \<le> Fin q \<longleftrightarrow> 1 \<le> q"
  by (simp_all add: zero_f64_def one_f64_def)

lemma zero_le_one_f64 [simp]: "(0 :: f64) \<le> 1" "(0 :: f64) < 1"
  by (simp_all add: one_f64_def less_f64_def zero_f64_def)

lemma zero_less_Fin [simp]: "0 < Fin q \<longleftrightarrow> 0 < q"
  by (simp add: zero_f64_def)

lemma f64_of_rat_nonneg [simp]: "0 \<le> q \<Longrightarrow> 0 \<le> f64_of_rat q"
  using f64_of_rat_mono [of 0 q] by simp

lemma zero_not_NaN [simp]: "(0 :: f64) \<noteq> NaN" "NaN \<noteq> (0 :: f64)" "(1 :: f64) \<noteq> NaN" "NaN \<noteq> (1 :: f64)"
  "(0 :: f64) \<noteq> NInf" "NInf \<noteq> (0 :: f64)" "(0 :: f64) \<noteq> PInf" "PInf \<noteq> (0 :: f64)"
  "(1 :: f64) \<noteq> NInf" "NInf \<noteq> (1 :: f64)" "(1 :: f64) \<noteq> PInf" "PInf \<noteq> (1 :: f64)"
  and zero_le_Inf [simp]: "(0 :: f64) \<le> PInf" "\<not> (0 :: f64) \<le> NaN"
  by (simp_all add: zero_f64_def one_f64_def)

lemma f64_of_rat_ok [simp]: "f64_ok (f64_of_rat q)"
  by (cases "f64_of_rat q") (auto simp: f64_ok_def dest: f64_of_rat_Fin)

lemma f64_ok_simps [simp]: "f64_ok NaN" "f64_ok PInf" "f64_ok NInf" "f64_ok 0" "f64_ok 1"
  using f64_of_rat_ok [of 0] f64_of_rat_ok [of 1] by (simp_all add: f64_ok_def)

lemma f64_ok_arith [simp]: "f64_ok (x + y)" "f64_ok (x * y)" "f64_ok (x - y)" "f64_ok (x / y)"
proof -
  show p: "f64_ok (x + y)" for x y :: f64 by (cases x; cases y) simp_all
  show "f64_ok (x * y)" "f64_ok (x / y)"
    using f64_ok_simps(4) by (cases x; cases y; simp add: zero_f64_def)+
  show "f64_ok (x - y)" by (cases y) (simp_all add: p)
qed

lemma is_fin_iff: "is_fin x \<longleftrightarrow> f64_ok x \<and> (\<exists>q. x = Fin q)"
  by (auto simp: is_fin_def f64_ok_def split: f64.splits)

lemma is_fin_ok: "is_fin x \<Longrightarrow> f64_ok x" and is_fin_not: "is_fin x \<Longrightarrow> x \<noteq> NaN \<and> x \<noteq> PInf \<and> x \<noteq> NInf"
  by (auto simp: is_fin_iff)

lemma f64_le_add: "f64_ok x \<Longrightarrow> x \<noteq> NaN \<Longrightarrow> 0 \<le> y \<Longrightarrow> x \<noteq> NInf \<Longrightarrow> x \<le> x + y" for x y :: f64
  by (cases x; cases y) (auto simp: f64_ok_def dest!: sym [of "f64_of_rat _"] intro!: f64_of_rat_mono)

subsection \<open>Arithmetic on the non-negative values\<close>

lemma f64_add_nonneg: "0 \<le> x \<Longrightarrow> 0 \<le> y \<Longrightarrow> 0 \<le> x + y" for x :: f64
  by (cases x; cases y) auto

lemma f64_add_mono: "0 \<le> x \<Longrightarrow> x \<le> y \<Longrightarrow> 0 \<le> u \<Longrightarrow> u \<le> v \<Longrightarrow> x + u \<le> y + v" for x :: f64
  by (cases x; cases y; cases u; cases v) (auto intro: f64_of_rat_mono)

lemma f64_add_0: "is_fin x \<Longrightarrow> 0 + x = x" "is_fin x \<Longrightarrow> x + 0 = x" for x :: f64
  by (auto elim!: is_finE simp: zero_f64_def)

lemma f64_mult_mono:
  "0 \<le> x \<Longrightarrow> x \<le> y \<Longrightarrow> y \<noteq> PInf \<Longrightarrow> 0 \<le> u \<Longrightarrow> u \<le> v \<Longrightarrow> v \<noteq> PInf \<Longrightarrow> x * u \<le> y * v" for x :: f64
  by (cases x; cases y; cases u; cases v) (auto intro!: f64_of_rat_mono mult_mono)

lemma f64_mult_nonneg: "0 \<le> x \<Longrightarrow> x \<noteq> PInf \<Longrightarrow> 0 \<le> u \<Longrightarrow> u \<noteq> PInf \<Longrightarrow> 0 \<le> x * u" for x :: f64
  by (cases x; cases u) auto

lemma f64_mult_1: "is_fin x \<Longrightarrow> x * 1 = x" "is_fin x \<Longrightarrow> 1 * x = x" for x :: f64
  by (auto elim!: is_finE simp: one_f64_def)

lemma f64_div_nonneg: "0 \<le> x \<Longrightarrow> x \<noteq> PInf \<Longrightarrow> 0 < y \<Longrightarrow> 0 \<le> x / y" for x :: f64
  by (cases x; cases y) (auto simp: less_f64_def)

lemma f64_div_mono: "0 \<le> x \<Longrightarrow> x \<le> y \<Longrightarrow> 0 < z \<Longrightarrow> z \<noteq> PInf \<Longrightarrow> x / z \<le> y / z" for x :: f64
  by (cases x; cases y; cases z) (auto simp: less_f64_def divide_right_mono intro!: f64_of_rat_mono)

lemma f64_div_self: "0 < z \<Longrightarrow> z \<noteq> PInf \<Longrightarrow> z / z = 1" for z :: f64
  by (cases z) (auto simp: less_f64_def)

lemma is_fin_bounded: "0 \<le> x \<Longrightarrow> x \<le> y \<Longrightarrow> is_fin y \<Longrightarrow> \<exists>q. x = Fin q" for x :: f64
  by (cases x) (auto elim!: is_finE)

lemma math_Max_ub: "x \<noteq> NaN \<Longrightarrow> y \<noteq> NaN \<Longrightarrow> x \<le> math_Max x y \<and> y \<le> math_Max x y"
  by (cases x; cases y) (auto simp: math_Max_def less_f64_def)

lemma math_Max_cases: "x \<noteq> NaN \<Longrightarrow> y \<noteq> NaN \<Longrightarrow> math_Max x y = x \<or> math_Max x y = y"
  by (auto simp: math_Max_def)

lemma math_Max_mono: "x \<le> y \<Longrightarrow> u \<le> v \<Longrightarrow> math_Max x u \<le> math_Max y v"
  by (cases x; cases y; cases u; cases v) (auto simp: math_Max_def less_f64_def)

lemma round_half_away_mono:
  assumes "p \<le> q" shows "round_half_away p \<le> round_half_away q"
proof -
  have "\<lfloor>p + 1 / 2\<rfloor> \<le> \<lfloor>q + 1 / 2\<rfloor>" "\<lfloor>- q + 1 / 2\<rfloor> \<le> \<lfloor>- p + 1 / 2\<rfloor>"
    using assms by (simp_all add: floor_mono)
  moreover have "- \<lfloor>- p + 1 / 2\<rfloor> \<le> \<lfloor>q + 1 / 2\<rfloor>" if "p < 0" "0 \<le> q"
  proof -
    from that have "0 \<le> \<lfloor>- p + 1 / 2\<rfloor>" "0 \<le> \<lfloor>q + 1 / 2\<rfloor>" by simp_all
    then show ?thesis by linarith
  qed
  ultimately show ?thesis using assms by (simp add: round_half_away_def not_le)
qed

lemma math_Round_mono: "x \<le> y \<Longrightarrow> math_Round x \<le> math_Round y"
  by (cases x; cases y) (auto simp: round_half_away_mono)

lemma math_Round_nonneg: "0 \<le> x \<Longrightarrow> 0 \<le> math_Round x"
  by (cases x) (auto simp: round_half_away_def)

lemma round_half_away_int [simp]: "round_half_away (of_int n) = n"
  by (auto simp: round_half_away_def floor_eq_iff)

lemma round_half_away_near: "\<bar>of_int (round_half_away q) - q\<bar> \<le> 1 / 2"
proof -
  have "of_int \<lfloor>x\<rfloor> \<le> x \<and> x < of_int \<lfloor>x\<rfloor> + 1" for x :: rat
    using floor_correct [of x] by simp
  from this [of "q + 1 / 2"] this [of "- q + 1 / 2"] show ?thesis
    unfolding round_half_away_def abs_le_iff by (auto simp del: of_int_floor_le)
qed


lemma f64_mult_right_mono:
  "0 \<le> x \<Longrightarrow> x \<le> y \<Longrightarrow> 0 < u \<Longrightarrow> u \<noteq> PInf \<Longrightarrow> x * u \<le> y * u" for x :: f64
  by (cases x; cases y; cases u) (auto simp: less_f64_def intro!: f64_of_rat_mono mult_right_mono)

lemma math_Round_ok: "f64_ok x \<Longrightarrow> f64_ok (math_Round x)"
proof (cases x)
  case (Fin q)
  assume "f64_ok x"
  then have q: "round64 q = q" by (auto simp: Fin f64_ok_def f64_of_rat_def Let_def split: if_splits)
  show ?thesis
  proof (cases "\<bar>round_half_away q\<bar> \<le> 2 ^ 53")
    case True
    then show ?thesis using f64_of_rat_int by (simp add: Fin f64_ok_def)
  next
    case False
    have "rat_of_int (2 ^ 53) < \<bar>of_int (round_half_away q)\<bar>"
      unfolding of_int_abs [symmetric] of_int_less_iff using False by simp
    then have big: "two_powi 52 \<le> \<bar>q\<bar>"
      using round_half_away_near [of q] by (simp add: two_powi_def abs_if split: if_splits)
    have "52 \<le> ilog2 \<bar>q\<bar>"
      using big ilog2_mono [of "two_powi 52" "\<bar>q\<bar>"] by simp
    then have e: "0 \<le> exponent64 q" by (simp add: exponent64_def)
    have "q \<noteq> 0" using big two_powi_pos [of 52] by (auto dest: leD)
    then have "q = of_int (round_half_even (q * two_powi (- exponent64 q)) * 2 ^ nat (exponent64 q))"
      using q two_powi_nonneg_int [OF e] by (simp add: round64_def Let_def)
    then have "of_int (round_half_away q) = q" by (metis round_half_away_int)
    then show ?thesis using \<open>f64_ok x\<close> by (simp add: Fin)
  qed
qed simp_all

end
