(* ===== verification/SafeRoutesModel.thy ===== *)
theory SafeRoutesModel
  imports Prelude Float64
begin

section \<open>Data of the saferoutes package\<close>

text \<open>
  The structs of \<open>internal/saferoutes/model.go\<close> and \<open>dto.go\<close> and the sentinel errors of
  \<open>errors.go\<close>, field by field. A field carries a prefix for its struct, because record
  fields share one name space. Pointer fields are options; slices are lists.
\<close>

datatype saferoutes_error =
  ErrInvalidCoordinates | ErrPointOutsideGraph | ErrNoRoute | ErrNoActiveModel

record LatLng =
  Lat :: f64
  Lng :: f64

record GeoJSONLineString =
  ls_Type :: string
  ls_Coordinates :: "f64 list list"

record ModelVersion =
  mv_ID :: i64
  mv_Name :: string
  mv_Type :: string
  mv_TrainUntil :: string
  mv_LowMax :: f64
  mv_ModerateMax :: f64

record RouteProfile =
  rp_Name :: string
  rp_SafetyMultiplier :: f64
  rp_MaxDetourRatio :: f64

record SnapResult =
  sn_OriginNodeID :: i64
  sn_OriginDistance :: f64
  sn_DestNodeID :: i64
  sn_DestDistance :: f64

record RouteRequest =
  rq_FromNodeID :: i64
  rq_ToNodeID :: i64
  rq_ModelVersionID :: i64
  rq_TimeBucket :: string
  rq_WeekdayType :: string
  rq_SafetyMultiplier :: f64

record CandidateRouteRequest =
  cr_FromNodeID :: i64
  cr_ToNodeID :: i64
  cr_ModelVersionID :: i64
  cr_TimeBucket :: string
  cr_WeekdayType :: string
  cr_K :: int

record PathEdge =
  pe_EdgeID :: i64
  pe_LengthMeters :: f64
  pe_DurationSeconds :: f64
  pe_RiskScore :: f64
  pe_CrimeCount :: i64
  pe_RobberyCount :: i64
  pe_TheftCount :: i64
  pe_ThreatsCount :: i64
  pe_ArmedCount :: i64
  pe_MotorcycleCount :: i64
  pe_SameBucketCrimeCount :: i64
  pe_PointLat :: f64
  pe_PointLng :: f64

record EdgeBucketRisk =
  eb_EdgeID :: i64
  eb_TimeBucket :: string
  eb_RiskScore :: f64

record RoutePath =
  path_Edges :: "PathEdge list"
  path_Geometry :: GeoJSONLineString

record CrimeMetrics =
  cm_CrimeCount :: i64
  cm_RobberyCount :: i64
  cm_TheftCount :: i64
  cm_ThreatsCount :: i64
  cm_ArmedCount :: i64
  cm_MotorcycleCount :: i64
  cm_SameBucketCrimeCount :: i64

record RiskiestSegment =
  rs_RiskScore :: f64
  rs_RiskLevel :: string
  rs_LengthMeters :: f64
  rs_Point :: LatLng
  rs_CrimeCount :: i64
  rs_RobberyCount :: i64
  rs_ArmedCount :: i64
  rs_TheftCount :: i64
  rs_ThreatsCount :: i64
  rs_MotorcycleCount :: i64

record RouteSegment =
  sg_RiskScore :: f64
  sg_RobberyCount :: i64
  sg_LengthMeters :: f64
  sg_Point :: LatLng

record BucketRisk =
  br_RiskScore :: f64
  br_RiskLevel :: string

record TimeOfDayRisk =
  Morning :: BucketRisk
  Afternoon :: BucketRisk
  Evening :: BucketRisk
  Night :: BucketRisk
  PeakBucket :: string

record SafeRoute =
  Kind :: string
  DistanceMeters :: f64
  DurationMinutes :: f64
  RiskScore :: f64
  RiskLevel :: string
  ExtraDistanceVsFastestMeters :: f64
  ExtraDurationVsFastestMinutes :: f64
  RiskReductionVsFastestPercent :: f64
  HighRiskEdgeMeters :: f64
  HighRiskEdgePercent :: f64
  MaxEdgeRisk :: f64
  AvgEdgeRisk :: f64
  Metrics :: CrimeMetrics
  Riskiest :: "RiskiestSegment option"
  Segments :: "RouteSegment list"
  DominantFactor :: string
  ArmedSharePercent :: f64
  RouteTimeOfDayRisk :: "TimeOfDayRisk option"
  Geometry :: GeoJSONLineString

end
