(* ===== verification/GoStrings.thy ===== *)
theory GoStrings
  imports Prelude Float64
begin

section \<open>Decimal text\<close>

text \<open>
  The parts of \<open>fmt\<close> and \<open>strconv\<close> the repository formats numbers with: \<open>%d\<close> on an
  \<open>int64\<close>, \<open>%.5f\<close> on a \<open>float64\<close>, zero-padded fields. What the rest of the
  development needs is that distinct numbers have distinct texts and that no text contains
  the separator of a composite key.
\<close>

subsection \<open>Digits\<close>

definition digit_char :: "nat \<Rightarrow> char" where
  "digit_char d = char_of (48 + d)"

definition char_digit :: "char \<Rightarrow> nat" where
  "char_digit c = of_char c - 48"

definition is_digit :: "char \<Rightarrow> bool" where
  "is_digit c \<longleftrightarrow> 48 \<le> (of_char c :: nat) \<and> (of_char c :: nat) \<le> 57"

fun dec :: "nat \<Rightarrow> string" where
  "dec n = (if n < 10 then [digit_char n] else dec (n div 10) @ [digit_char (n mod 10)])"

declare dec.simps [simp del]

definition undec :: "string \<Rightarrow> nat" where
  "undec s = foldl (\<lambda>n c. 10 * n + char_digit c) 0 s"

fun dec_pad :: "nat \<Rightarrow> nat \<Rightarrow> string" where
  "dec_pad 0 n = []"
| "dec_pad (Suc w) n = dec_pad w (n div 10) @ [digit_char (n mod 10)]"

lemma digit_char_inverse [simp]: "d < 10 \<Longrightarrow> char_digit (digit_char d) = d"
  by (simp add: digit_char_def char_digit_def)

lemma is_digit_char [simp]: "d < 10 \<Longrightarrow> is_digit (digit_char d)"
  by (simp add: is_digit_def digit_char_def)

lemma undec_snoc [simp]: "undec (s @ [c]) = 10 * undec s + char_digit c"
  by (simp add: undec_def)

lemma undec_Nil [simp]: "undec [] = 0"
  by (simp add: undec_def)

lemma undec_dec [simp]: "undec (dec n) = n"
proof (induction n rule: dec.induct)
  case (1 n)
  show ?case
  proof (cases "n < 10")
    case True
    then show ?thesis by (subst dec.simps) (simp add: undec_def)
  next
    case False
    then show ?thesis using 1 by (subst dec.simps) simp
  qed
qed

lemma dec_inject [simp]: "dec m = dec n \<longleftrightarrow> m = n"
  by (metis undec_dec)

lemma dec_digits: "c \<in> set (dec n) \<Longrightarrow> is_digit c"
proof (induction n rule: dec.induct)
  case (1 n)
  then show ?case by (subst (asm) (2) dec.simps) (auto split: if_splits)
qed

lemma dec_not_Nil [simp]: "dec n \<noteq> []"
  by (subst dec.simps) simp

lemma length_dec_pad [simp]: "length (dec_pad w n) = w"
  by (induction w arbitrary: n) simp_all

lemma dec_pad_digits: "c \<in> set (dec_pad w n) \<Longrightarrow> is_digit c"
  by (induction w arbitrary: n) auto

lemma undec_dec_pad: "undec (dec_pad w n) = n mod 10 ^ w"
proof (induction w arbitrary: n)
  case (Suc w)
  have "n mod (10 * 10 ^ w) = 10 * (n div 10 mod 10 ^ w) + n mod 10" by (simp add: mod_mult2_eq)
  then show ?case using Suc by simp
qed simp

subsection \<open>Integers and fixed-point numbers\<close>

definition fmt_d :: "i64 \<Rightarrow> string" where
  "fmt_d x = (if x <s 0 then ''-'' @ dec (nat (- sint x)) else dec (nat (sint x)))"

definition fmt_5f :: "f64 \<Rightarrow> string" where
  "fmt_5f x = (case x of
     NaN \<Rightarrow> ''NaN'' | PInf \<Rightarrow> ''+Inf'' | NInf \<Rightarrow> ''-Inf''
   | Fin q \<Rightarrow> (let n = nat (round_half_even (\<bar>q\<bar> * 100000))
              in (if q < 0 then ''-'' else []) @ dec (n div 100000) @ ''.'' @ dec_pad 5 (n mod 100000)))"

lemma not_digit [simp]: "\<not> is_digit CHR '':''" "\<not> is_digit CHR ''.''" "\<not> is_digit CHR ''-''"
  by (simp_all add: is_digit_def)

lemma word_sless_0: "x <s (0 :: i64) \<longleftrightarrow> sint x < 0"
  by (simp add: word_sless_alt)

lemma hd_dec: "is_digit (hd (dec n))"
  using dec_digits [of "hd (dec n)" n] by simp

lemma minus_dec: "CHR ''-'' # s \<noteq> dec n" "dec n \<noteq> CHR ''-'' # s"
  using hd_dec [of n] not_digit(3) by (metis list.sel(1))+

lemma fmt_d_inject: "fmt_d x = fmt_d y \<longleftrightarrow> x = y"
proof
  assume *: "fmt_d x = fmt_d y"
  have "sint x = sint y"
    using * minus_dec by (auto simp: fmt_d_def word_sless_0 nat_eq_iff split: if_splits)
  then show "x = y" by (simp add: signed_word_eqI)
qed simp

lemma fmt_d_no_colon: "CHR '':'' \<notin> set (fmt_d x)"
  by (auto simp: fmt_d_def dest!: dec_digits)

lemma fmt_5f_no_colon: "CHR '':'' \<notin> set (fmt_5f x)"
  by (auto simp: fmt_5f_def Let_def split: f64.splits if_splits dest!: dec_digits dec_pad_digits)

subsection \<open>Composite keys\<close>

lemma split_at_first:
  assumes "c \<notin> set a" "c \<notin> set b" "a @ c # s = b @ c # t"
  shows "a = b \<and> s = t"
  using assms
proof (induction a arbitrary: b)
  case Nil
  then show ?case by (cases b) auto
next
  case (Cons x a)
  then show ?case by (cases b) auto
qed

text \<open>Two fixed-point texts agree only when the numbers agree after rounding to five decimals.\<close>

lemma fixed_text_inject:
  assumes "dec (m div 100000) @ CHR ''.'' # dec_pad 5 (m mod 100000) = dec (n div 100000) @ CHR ''.'' # dec_pad 5 (n mod 100000)"
  shows "m = n"
proof -
  have no: "CHR ''.'' \<notin> set (dec k)" for k using dec_digits not_digit(2) by blast
  have d: "dec (m div 100000) = dec (n div 100000) \<and> dec_pad 5 (m mod 100000) = dec_pad 5 (n mod 100000)"
    by (rule split_at_first [OF no no assms])
  then have "undec (dec_pad 5 (m mod 100000)) = undec (dec_pad 5 (n mod 100000))" by (rule arg_cong [OF conjunct2])
  then have "m mod 100000 mod 10 ^ 5 = n mod 100000 mod 10 ^ 5" unfolding undec_dec_pad .
  then have r: "m mod 100000 = n mod 100000" by simp
  have q: "m div 100000 = n div 100000" using d unfolding dec_inject by blast
  have "m = m div 100000 * 100000 + m mod 100000" by (rule div_mult_mod_eq [symmetric])
  also have "\<dots> = n" unfolding q r by (rule div_mult_mod_eq)
  finally show ?thesis .
qed

lemma fmt_5f_rounded:
  assumes "fmt_5f (Fin p) = fmt_5f (Fin q)"
  shows "(p < 0 \<longleftrightarrow> q < 0) \<and> nat (round_half_even (\<bar>p\<bar> * 100000)) = nat (round_half_even (\<bar>q\<bar> * 100000))"
proof -
  define m where "m = nat (round_half_even (\<bar>p\<bar> * 100000))"
  define n where "n = nat (round_half_even (\<bar>q\<bar> * 100000))"
  define t where "t = (\<lambda>n. dec (n div 100000) @ CHR ''.'' # dec_pad 5 (n mod 100000))"
  have eq: "(if p < 0 then ''-'' else []) @ t m = (if q < 0 then ''-'' else []) @ t n"
    using assms unfolding fmt_5f_def Let_def m_def n_def t_def f64.case by simp
  have neq: "CHR ''-'' # s \<noteq> t k" for s k
    using hd_dec [of "k div 100000"] not_digit(3) dec_not_Nil unfolding t_def by (metis hd_append2 list.sel(1))
  have sgn: "p < 0 \<longleftrightarrow> q < 0" using eq neq neq [symmetric] by (auto split: if_splits)
  then have "t m = t n" using eq by (auto split: if_splits)
  then have "m = n" unfolding t_def by (rule fixed_text_inject)
  then show ?thesis using sgn unfolding m_def n_def by blast
qed

end
