(* ===== verification/GoTime.thy ===== *)
theory GoTime
  imports GoStrings
begin

section \<open>Instants, clocks and calendars\<close>

text \<open>
  A \<open>time.Time\<close> is an instant (seconds since 1970 and nanoseconds) with the offset of its
  location at that instant; a \<open>time.Location\<close> is the offset as a function of the instant.
  Only what the repository reads of it: \<open>IsZero\<close>, \<open>Hour\<close>, \<open>Weekday\<close>, \<open>In\<close>, \<open>Add\<close>,
  \<open>After\<close> and \<open>Format(time.RFC3339)\<close>. The calendar is the proleptic Gregorian one.
\<close>

record go_time =
  unixSec :: int
  nsec :: int
  utcOffset :: int

type_synonym location = "int \<Rightarrow> int"

definition zero_time :: go_time where
  "zero_time = \<lparr>unixSec = - 62135596800, nsec = 0, utcOffset = 0\<rparr>"

definition IsZero :: "go_time \<Rightarrow> bool" where
  "IsZero t \<longleftrightarrow> unixSec t = - 62135596800 \<and> nsec t = 0"

definition time_In :: "location \<Rightarrow> go_time \<Rightarrow> go_time" where
  "time_In loc t = t\<lparr>utcOffset := loc (unixSec t)\<rparr>"

definition After :: "go_time \<Rightarrow> go_time \<Rightarrow> bool" where
  "After t u \<longleftrightarrow> unixSec u < unixSec t \<or> unixSec t = unixSec u \<and> nsec u < nsec t"

definition time_Add :: "go_time \<Rightarrow> int \<Rightarrow> go_time" where
  "time_Add t ns = t\<lparr>unixSec := unixSec t + (nsec t + ns) div 1000000000, nsec := (nsec t + ns) mod 1000000000\<rparr>"

definition wall :: "go_time \<Rightarrow> int" where
  "wall t = unixSec t + utcOffset t"

definition civil_day :: "go_time \<Rightarrow> int" where
  "civil_day t = wall t div 86400"

definition Hour :: "go_time \<Rightarrow> int" where
  "Hour t = wall t mod 86400 div 3600"

definition Minute :: "go_time \<Rightarrow> int" where
  "Minute t = wall t mod 3600 div 60"

definition Second :: "go_time \<Rightarrow> int" where
  "Second t = wall t mod 60"

text \<open>\<open>time.Sunday\<close> is 0 and \<open>time.Saturday\<close> is 6; 1970-01-01 was a Thursday.\<close>

definition Weekday :: "go_time \<Rightarrow> int" where
  "Weekday t = (civil_day t + 4) mod 7"

subsection \<open>Days and dates\<close>

text \<open>Days since 1970-01-01 to year, month and day, and back. The year runs from March in
  between, so that the leap day is its last day.\<close>

definition date_of_day :: "int \<Rightarrow> int \<times> int \<times> int" where
  "date_of_day n =
     (let z = n + 719468; era = z div 146097; doe = z mod 146097;
          c = min 3 (doe div 36524); doc = doe - 36524 * c;
          q = doc div 1461; doq = doc mod 1461;
          y = min 3 (doq div 365); doy = doq - 365 * y;
          mp = (5 * doy + 2) div 153;
          d = doy - (153 * mp + 2) div 5 + 1;
          m = (if mp < 10 then mp + 3 else mp - 9)
      in (100 * c + 4 * q + y + era * 400 + (if m \<le> 2 then 1 else 0), m, d))"

definition day_of_date :: "int \<times> int \<times> int \<Rightarrow> int" where
  "day_of_date = (\<lambda>(year, m, d).
     let y = (if m \<le> 2 then year - 1 else year); era = y div 400; yoe = y mod 400;
         mp = (if 2 < m then m - 3 else m + 9);
         doy = (153 * mp + 2) div 5 + d - 1;
         doe = 365 * yoe + yoe div 4 - yoe div 100 + doy
     in era * 146097 + doe - 719468)"

lemma min_div_bounds:
  fixes a b :: int
  assumes "0 \<le> a" "0 < b" "a \<le> 4 * b"
  defines "m \<equiv> min 3 (a div b)"
  shows "0 \<le> m" "m \<le> 3" "b * m \<le> a" "a \<le> b * m + b"
proof -
  define k r where "k = a div b" and "r = a mod b"
  have a: "a = b * k + r" and r: "0 \<le> r" "r < b" unfolding k_def r_def using assms(2) by simp_all
  have k: "0 \<le> k" unfolding k_def using assms(1,2) by (simp add: pos_imp_zdiv_nonneg_iff)
  have m: "m = min 3 k" unfolding m_def k_def ..
  show "0 \<le> m" "m \<le> 3" unfolding m using k by simp_all
  have "b * m \<le> a \<and> a \<le> b * m + b"
  proof (cases "k < 3")
    case True
    then have "m = k" unfolding m by simp
    then show ?thesis using a r by simp
  next
    case False
    then have m3: "m = 3" unfolding m by simp
    have "b * 3 \<le> b * k" using False assms(2) by (intro mult_left_mono) simp_all
    then show ?thesis unfolding m3 using a r assms(3) by linarith
  qed
  then show "b * m \<le> a" "a \<le> b * m + b" by blast+
qed

theorem day_of_date_of_day: "day_of_date (date_of_day n) = n"
proof -
  define era doe where "era = (n + 719468) div 146097" and "doe = (n + 719468) mod 146097"
  define c where "c = min 3 (doe div 36524)"
  define doc where "doc = doe - 36524 * c"
  define q doq where "q = doc div 1461" and "doq = doc mod 1461"
  define y where "y = min 3 (doq div 365)"
  define doy where "doy = doq - 365 * y"
  define mp where "mp = (5 * doy + 2) div 153"
  define yoe where "yoe = 100 * c + 4 * q + y"
  have n: "n = era * 146097 + doe - 719468" unfolding era_def doe_def by simp
  have doe: "0 \<le> doe" "doe \<le> 4 * 36524" unfolding doe_def using pos_mod_bound [of 146097 "n + 719468"] by simp_all
  have C: "0 \<le> c" "c \<le> 3" "0 \<le> doc" "doc \<le> 36524"
    using min_div_bounds [OF doe(1) _ doe(2)] unfolding c_def doc_def by simp_all
  have q: "doc = 1461 * q + doq" "0 \<le> doq" "doq \<le> 4 * 365" "0 \<le> q" "q < 25"
    unfolding q_def doq_def using C(3,4) pos_mod_bound [of 1461 doc] by (simp_all add: pos_imp_zdiv_nonneg_iff)
  have Y: "0 \<le> y" "y \<le> 3" "0 \<le> doy" "doy \<le> 365"
    using min_div_bounds [OF q(2) _ q(3)] unfolding y_def doy_def by simp_all
  have mp: "0 \<le> mp" "mp < 12" unfolding mp_def using Y(3,4) by linarith+
  have yoe: "0 \<le> yoe" "yoe < 400" unfolding yoe_def using C(1,2) q(4,5) Y(1,2) by linarith+
  have "yoe div 4 = 25 * c + q" "yoe div 100 = c" unfolding yoe_def using q(4,5) Y(1,2) by linarith+
  then have doe_eq: "365 * yoe + yoe div 4 - yoe div 100 + doy = doe"
    unfolding yoe_def using q(1) doc_def doy_def by simp
  have y400: "(yoe + era * 400) div 400 = era" "(yoe + era * 400) mod 400 = yoe" using yoe by simp_all
  have "date_of_day n = (yoe + era * 400 + (if 10 \<le> mp then 1 else 0), (if mp < 10 then mp + 3 else mp - 9),
      doy - (153 * mp + 2) div 5 + 1)"
    using mp unfolding date_of_day_def Let_def era_def [symmetric] doe_def [symmetric] c_def [symmetric] doc_def [symmetric]
      q_def [symmetric] doq_def [symmetric] y_def [symmetric] doy_def [symmetric] mp_def [symmetric] yoe_def
    by simp
  moreover have "day_of_date (yoe + era * 400 + (if 10 \<le> mp then 1 else 0), (if mp < 10 then mp + 3 else mp - 9),
      doy - (153 * mp + 2) div 5 + 1) = era * 146097 + doe - 719468"
    unfolding day_of_date_def Let_def prod.case
    using mp y400 doe_eq by (cases "mp < 10") simp_all
  ultimately show ?thesis using n by simp
qed

subsection \<open>RFC 3339\<close>

definition pad_year :: "int \<Rightarrow> string" where
  "pad_year y = (if y < 0 then ''-'' else []) @
     (let s = dec (nat \<bar>y\<bar>) in replicate (4 - length s) CHR ''0'' @ s)"

definition format_offset :: "int \<Rightarrow> string" where
  "format_offset off =
     (if off = 0 then ''Z''
      else let zone = nat (\<bar>off\<bar> div 60)
           in (if off < 0 \<and> 60 \<le> \<bar>off\<bar> then ''-'' else ''+'') @ dec_pad 2 (zone div 60) @ '':'' @ dec_pad 2 (zone mod 60))"

definition Format_RFC3339 :: "go_time \<Rightarrow> string" where
  "Format_RFC3339 t =
     (case date_of_day (civil_day t) of (y, m, d) \<Rightarrow>
        pad_year y @ ''-'' @ dec_pad 2 (nat m) @ ''-'' @ dec_pad 2 (nat d) @ ''T'' @
        dec_pad 2 (nat (Hour t)) @ '':'' @ dec_pad 2 (nat (Minute t)) @ '':'' @ dec_pad 2 (nat (Second t)) @
        format_offset (utcOffset t))"

lemma Hour_range: "0 \<le> Hour t" "Hour t < 24"
  using pos_mod_bound [of 86400 "wall t"] pos_mod_sign [of 86400 "wall t"] unfolding Hour_def by linarith+

end
