(* ===== verification/TimeContext.thy ===== *)
theory TimeContext
  imports GoTime
begin

section \<open>The risk context of an instant\<close>

text \<open>
  \<open>hourToTimeBucket\<close>, \<open>dateToWeekdayType\<close> and \<open>buenosAires\<close> of
  \<open>internal/saferoutes/service.go\<close>, the whitelist \<open>validateContext\<close> of
  \<open>internal/saferoutes/repository.go\<close>, and the two twins the pipeline scores with,
  \<open>etl/risk_network_kde/utils.py\<close> and the SQL fragments it holds. A score is found
  only if the reader and the writer name the context alike.
\<close>

definition hourToTimeBucket :: "int \<Rightarrow> string" where
  "hourToTimeBucket hour =
     (if 6 \<le> hour \<and> hour \<le> 11 then ''morning''
      else if 12 \<le> hour \<and> hour \<le> 17 then ''afternoon''
      else if 18 \<le> hour \<and> hour \<le> 21 then ''evening''
      else ''night'')"

definition dateToWeekdayType :: "go_time \<Rightarrow> string" where
  "dateToWeekdayType t = (if Weekday t = 6 \<or> Weekday t = 0 then ''weekend'' else ''weekday'')"

text \<open>\<open>time.LoadLocation\<close> reads the zone database: a parameter. Without it the zone is three
  hours behind UTC.\<close>

definition buenosAires :: "(string \<Rightarrow> string + location) \<Rightarrow> location" where
  "buenosAires loadLocation =
     (case loadLocation ''America/Argentina/Buenos_Aires'' of
        Inl err \<Rightarrow> (\<lambda>_. -3 * 60 * 60)
      | Inr loc \<Rightarrow> loc)"

subsection \<open>The twins of the pipeline\<close>

definition hour_to_time_bucket :: "int \<Rightarrow> string" where
  "hour_to_time_bucket hour =
     (if 6 \<le> hour \<and> hour \<le> 11 then ''morning''
      else if 12 \<le> hour \<and> hour \<le> 17 then ''afternoon''
      else if 18 \<le> hour \<and> hour \<le> 21 then ''evening''
      else ''night'')"

text \<open>Python's \<open>date\<close> counts days from 1 January of year 1 as day 1; \<open>weekday()\<close> is 0 on
  Monday. SQL's \<open>ISODOW\<close> is 1 on Monday.\<close>

definition toordinal :: "int \<Rightarrow> int" where
  "toordinal day = day + 719163"

definition py_weekday :: "int \<Rightarrow> int" where
  "py_weekday day = (toordinal day + 6) mod 7"

definition date_to_weekday_type :: "int \<Rightarrow> string" where
  "date_to_weekday_type day = (if 5 \<le> py_weekday day then ''weekend'' else ''weekday'')"

definition sql_weekday_type :: "int \<Rightarrow> string" where
  "sql_weekday_type day = (if 6 \<le> py_weekday day + 1 then ''weekend'' else ''weekday'')"

text \<open>The SQL \<open>CASE\<close> over \<open>crimes.hour\<close>, which the schema keeps in 0 to 23: the first branch whose \<open>BETWEEN\<close> holds.\<close>

definition sql_time_bucket :: "int \<Rightarrow> string" where
  "sql_time_bucket hour =
     (case find (\<lambda>(low, high, bucket). low \<le> hour \<and> hour \<le> high)
        [(6, 11, ''morning''), (12, 17, ''afternoon''), (18, 21, ''evening'')] of
        Some (_, _, bucket) \<Rightarrow> bucket
      | None \<Rightarrow> ''night'')"

subsection \<open>The whitelist\<close>

definition validTimeBuckets :: "string \<Rightarrow> bool" where
  "validTimeBuckets b \<longleftrightarrow> b \<in> {''morning'', ''afternoon'', ''evening'', ''night'', ''all_day''}"

definition validWeekdayTypes :: "string \<Rightarrow> bool" where
  "validWeekdayTypes w \<longleftrightarrow> w \<in> {''weekday'', ''weekend'', ''all''}"

definition validateContext :: "string \<Rightarrow> string \<Rightarrow> 'e goerr option" where
  "validateContext timeBucket weekdayType =
     (if \<not> validTimeBuckets timeBucket \<or> \<not> validWeekdayTypes weekdayType
      then Some (Opaque ''saferoutes: invalid risk context'') else None)"

lemma context_cases:
  "hourToTimeBucket h \<in> {''morning'', ''afternoon'', ''evening'', ''night''}"
  "dateToWeekdayType t \<in> {''weekday'', ''weekend''}"
  by (simp_all add: hourToTimeBucket_def dateToWeekdayType_def)

lemma resolved_context_valid [simp]:
  "validateContext (hourToTimeBucket h) (dateToWeekdayType t) = None"
  using context_cases(1) [of h] context_cases(2) [of t]
  unfolding validateContext_def validTimeBuckets_def validWeekdayTypes_def by auto

lemma context_no_colon:
  "CHR '':'' \<notin> set (hourToTimeBucket h)" "CHR '':'' \<notin> set (dateToWeekdayType t)"
  by (simp_all add: hourToTimeBucket_def dateToWeekdayType_def)

lemma bucket_sql: "hourToTimeBucket h = sql_time_bucket h"
  by (simp add: hourToTimeBucket_def sql_time_bucket_def)

lemma bucket_table:
  assumes "0 \<le> h" "h < 24"
  shows "hourToTimeBucket h =
    (replicate 6 ''night'' @ replicate 6 ''morning'' @ replicate 6 ''afternoon'' @ replicate 4 ''evening'' @ replicate 2 ''night'') ! nat h"
proof -
  have "\<forall>n < 24. hourToTimeBucket (int n) =
      (replicate 6 ''night'' @ replicate 6 ''morning'' @ replicate 6 ''afternoon'' @ replicate 4 ''evening'' @ replicate 2 ''night'') ! n"
    by code_simp
  from this [rule_format, of "nat h"] show ?thesis using assms by simp
qed

text \<open>C17. The service and the pipeline agree on the context of every instant: the time bucket of the hour, in Python and in SQL, and the
  weekday type of the calendar day, in Python and in SQL. The bucket is night before 6, morning to 11, afternoon to 17, evening to 21 and
  night again after; the weekday type is weekend on Saturday and Sunday. The context the service resolves always passes the repository's
  whitelist.\<close>

theorem context_twins:
  "hourToTimeBucket (Hour t) = hour_to_time_bucket (Hour t) \<and>
   hourToTimeBucket (Hour t) = sql_time_bucket (Hour t) \<and>
   hourToTimeBucket (Hour t) =
     (replicate 6 ''night'' @ replicate 6 ''morning'' @ replicate 6 ''afternoon'' @ replicate 4 ''evening'' @ replicate 2 ''night'')
       ! nat (Hour t) \<and>
   dateToWeekdayType t = date_to_weekday_type (civil_day t) \<and>
   dateToWeekdayType t = sql_weekday_type (civil_day t) \<and>
   (dateToWeekdayType t = ''weekend'' \<longleftrightarrow> Weekday t \<in> {0, 6}) \<and>
   (validateContext (hourToTimeBucket (Hour t)) (dateToWeekdayType t) :: 'e goerr option) = None"
proof -
  have "(civil_day t + 4) mod 7 \<in> {0, 6} \<longleftrightarrow> 5 \<le> (719169 + civil_day t) mod 7"
  proof -
    have "(719169 + x) mod 7 = (x + 3) mod 7" for x :: int
      using mod_mult_self1 [of "x + 3" 102738 7] by (simp add: add.commute)
    moreover have "(x + 4) mod 7 \<in> {0, 6} \<longleftrightarrow> 5 \<le> (x + 3) mod 7" for x :: int
      by (simp, presburger)
    ultimately show ?thesis by simp
  qed
  then have "Weekday t = 6 \<or> Weekday t = 0 \<longleftrightarrow> 5 \<le> py_weekday (civil_day t)"
    by (auto simp: Weekday_def py_weekday_def toordinal_def)
  then have "dateToWeekdayType t = date_to_weekday_type (civil_day t)"
    "dateToWeekdayType t = sql_weekday_type (civil_day t)"
    by (simp_all add: dateToWeekdayType_def date_to_weekday_type_def sql_weekday_type_def)
  moreover have "hourToTimeBucket (Hour t) = hour_to_time_bucket (Hour t)"
    by (simp only: hourToTimeBucket_def hour_to_time_bucket_def)
  moreover have "dateToWeekdayType t = ''weekend'' \<longleftrightarrow> Weekday t \<in> {0, 6}" by (simp add: dateToWeekdayType_def disj_commute)
  ultimately show ?thesis
    using bucket_sql bucket_table [OF Hour_range [of t]] resolved_context_valid by metis
qed

end
