(* ===== verification/SafeRoutesApi.thy ===== *)
theory SafeRoutesApi
  imports SafeRoutesModel TimeContext
begin

section \<open>The seams of the saferoutes service\<close>

text \<open>
  Request and response of \<open>internal/saferoutes/dto.go\<close>, and the two Go interfaces the
  service is built on: \<open>Repository\<close> (\<open>repository.go\<close>) and \<open>RouteCache\<close> (\<open>cache.go\<close>).
  An interface value is a record of its methods over the state \<open>'s\<close> of the world. A
  cache lookup returns an error, or an option in place of the pointer and the flag.
\<close>

record SafeRoutesQuery =
  OriginLat :: f64
  OriginLng :: f64
  DestLat :: f64
  DestLng :: f64
  At :: go_time

record ModelVersionInfo =
  mi_ID :: i64
  mi_Name :: string
  mi_Type :: string
  mi_TrainUntil :: string

record SafeRoutesResponse =
  rr_Origin :: LatLng
  rr_Destination :: LatLng
  rr_Datetime :: string
  rr_TimeBucket :: string
  rr_WeekdayType :: string
  rr_ModelVersion :: ModelVersionInfo
  rr_Routes :: "SafeRoute list"
  rr_FromCache :: bool

record 's Repository =
  repo_ActiveModel :: "('s, saferoutes_error, ModelVersion) prog"
  repo_RouteProfiles :: "('s, saferoutes_error, string \<rightharpoonup> RouteProfile) prog"
  repo_SnapEndpoints :: "SafeRoutesQuery \<Rightarrow> ('s, saferoutes_error, SnapResult) prog"
  repo_FindRoute :: "RouteRequest \<Rightarrow> ('s, saferoutes_error, RoutePath) prog"
  repo_FindCandidateRoutes :: "CandidateRouteRequest \<Rightarrow> ('s, saferoutes_error, RoutePath list) prog"
  repo_RouteRiskByBucket :: "i64 list \<Rightarrow> i64 \<Rightarrow> string \<Rightarrow> ('s, saferoutes_error, EdgeBucketRisk list) prog"

record 's RouteCache =
  cache_Get :: "string \<Rightarrow> ('s, saferoutes_error, SafeRoutesResponse option) prog"
  cache_Set :: "string \<Rightarrow> SafeRoutesResponse \<Rightarrow> int \<Rightarrow> ('s, saferoutes_error, unit) prog"

subsection \<open>Two worlds side by side\<close>

text \<open>The database and the cache server are different systems. \<open>on_fst\<close> and \<open>on_snd\<close> run a
  call on one component of a pair of worlds.\<close>

definition on_fst :: "('a, 'e, 'x) prog \<Rightarrow> ('a \<times> 'b, 'e, 'x) prog" where
  "on_fst p w = (case p (fst w) of (x, a) \<Rightarrow> (x, a, snd w))"

definition on_snd :: "('b, 'e, 'x) prog \<Rightarrow> ('a \<times> 'b, 'e, 'x) prog" where
  "on_snd p w = (case p (snd w) of (x, b) \<Rightarrow> (x, fst w, b))"

definition repo_fst :: "'a Repository \<Rightarrow> ('a \<times> 'b) Repository" where
  "repo_fst r = \<lparr>repo_ActiveModel = on_fst (repo_ActiveModel r), repo_RouteProfiles = on_fst (repo_RouteProfiles r),
     repo_SnapEndpoints = (\<lambda>q. on_fst (repo_SnapEndpoints r q)), repo_FindRoute = (\<lambda>q. on_fst (repo_FindRoute r q)),
     repo_FindCandidateRoutes = (\<lambda>q. on_fst (repo_FindCandidateRoutes r q)),
     repo_RouteRiskByBucket = (\<lambda>es m w. on_fst (repo_RouteRiskByBucket r es m w))\<rparr>"

definition cache_snd :: "'b RouteCache \<Rightarrow> ('a \<times> 'b) RouteCache" where
  "cache_snd c = \<lparr>cache_Get = (\<lambda>k. on_snd (cache_Get c k)), cache_Set = (\<lambda>k r ttl. on_snd (cache_Set c k r ttl))\<rparr>"

lemma on_fst_andThen [simp]: "on_fst (andThen p k) = andThen (on_fst p) (\<lambda>x. on_fst (k x))"
  by (rule ext) (simp add: on_fst_def andThen_def split: prod.split sum.split)

lemma on_fst_ret [simp]: "on_fst (ret x) = ret x" and on_fst_fail [simp]: "on_fst (fail e) = fail e"
  by (simp_all add: on_fst_def ret_def fail_def fun_eq_iff)

lemma lifted_ops [simp]:
  "repo_ActiveModel (repo_fst r) = on_fst (repo_ActiveModel r)"
  "repo_RouteProfiles (repo_fst r) = on_fst (repo_RouteProfiles r)"
  "repo_SnapEndpoints (repo_fst r) q = on_fst (repo_SnapEndpoints r q)"
  "repo_FindRoute (repo_fst r) rq = on_fst (repo_FindRoute r rq)"
  "repo_FindCandidateRoutes (repo_fst r) cr = on_fst (repo_FindCandidateRoutes r cr)"
  "repo_RouteRiskByBucket (repo_fst r) es m w = on_fst (repo_RouteRiskByBucket r es m w)"
  "cache_Get (cache_snd c) k = on_snd (cache_Get c k)"
  "cache_Set (cache_snd c) k v ttl = on_snd (cache_Set c k v ttl)"
  by (simp_all add: repo_fst_def cache_snd_def)

subsection \<open>What the service may assume of a cache\<close>

text \<open>
  \<open>visible s k\<close> is what the cache holds under \<open>k\<close>. A cache may forget entries and fail
  at any time; it may not invent them: a lookup returns what is visible, never adds
  anything, and a store makes at most its own entry visible, as \<open>readback\<close> says it is read back, if it can be stored at all.
  Any predicate on stored entries is then kept by the use of the
  cache: \<open>get_keeps\<close>, \<open>set_keeps\<close>.
\<close>

definition entries_ok :: "('s \<Rightarrow> string \<rightharpoonup> SafeRoutesResponse) \<Rightarrow> (string \<Rightarrow> SafeRoutesResponse \<Rightarrow> bool) \<Rightarrow> 's \<Rightarrow> bool" where
  "entries_ok visible P s \<longleftrightarrow> (\<forall>k r. visible s k = Some r \<longrightarrow> P k r)"

locale route_cache =
  fixes cache :: "'s RouteCache" and visible :: "'s \<Rightarrow> string \<rightharpoonup> SafeRoutesResponse"
    and readback :: "SafeRoutesResponse \<Rightarrow> SafeRoutesResponse option"
  assumes get_sound: "cache_Get cache k s = (Inr (Some r), s') \<Longrightarrow> visible s k = Some r"
    and get_no_new: "cache_Get cache k s = (x, s') \<Longrightarrow> visible s' k' = Some r' \<Longrightarrow> visible s k' = Some r'"
    and set_only: "cache_Set cache k r ttl s = (y, s') \<Longrightarrow> visible s' k' = Some r' \<Longrightarrow>
        k' = k \<and> readback r = Some r' \<or> visible s k' = Some r'"
begin

lemma get_keeps: "entries_ok visible P s \<Longrightarrow> entries_ok visible P (snd (cache_Get cache k s))"
  unfolding entries_ok_def using get_no_new by (metis prod.collapse)

lemma get_entry:
  "entries_ok visible P s \<Longrightarrow> fst (cache_Get cache k s) = Inr (Some r) \<Longrightarrow> P k r"
  unfolding entries_ok_def using get_sound by (metis prod.collapse)

lemma set_keeps:
  "entries_ok visible P s \<Longrightarrow> (\<And>r'. readback r = Some r' \<Longrightarrow> P k r') \<Longrightarrow>
    entries_ok visible P (snd (cache_Set cache k r ttl s))"
  unfolding entries_ok_def using set_only by (metis prod.collapse)

end

end
