(* ===== verification/RoundNear.thy ===== *)
theory RoundNear
  imports Rounding
begin

section \<open>Texts that identify a binary64 value\<close>

text \<open>A rational closer to a binary64 value than one part in \<open>2 ^ 54\<close> rounds to it.\<close>

lemma round64_at:
  assumes "x \<noteq> 0" "q = of_int n * two_powi (exponent64 x)" "\<bar>x - q\<bar> < two_powi (exponent64 x - 1)"
  shows "round64 x = q"
proof -
  let ?e = "exponent64 x"
  have "two_powi (?e - 1) * two_powi (- ?e) = 1 / 2"
    by (simp add: two_powi_def [of "- 1"] flip: two_powi_add)
  then have "\<bar>x - q\<bar> * two_powi (- ?e) < 1 / 2"
    using mult_strict_right_mono [OF assms(3) two_powi_pos [of "- ?e"]] by linarith
  moreover have "\<bar>x - q\<bar> * two_powi (- ?e) = \<bar>x * two_powi (- ?e) - of_int n\<bar>"
  proof -
    have "x * two_powi (- ?e) - of_int n = (x - q) * two_powi (- ?e)"
      by (simp add: assms(2) left_diff_distrib mult.assoc)
    then show ?thesis using two_powi_pos [of "- ?e"] by (simp add: abs_mult abs_of_pos)
  qed
  ultimately have near: "\<bar>x * two_powi (- ?e) - of_int n\<bar> < 1 / 2" by simp
  let ?r = "round_half_even (x * two_powi (- ?e))"
  have "\<bar>of_int ?r - x * two_powi (- ?e)\<bar> \<le> 1 / 2" by (rule round_half_even_near)
  then have "\<bar>rat_of_int (?r - n)\<bar> < 1" using near unfolding of_int_diff by linarith
  then have "?r = n" by linarith
  then show ?thesis using assms(1,2) by (simp add: round64_def Let_def)
qed

lemma round64_near:
  assumes "0 < q" "round64 q = q" "\<bar>x - q\<bar> < q * two_powi (- 54)"
  shows "round64 x = q"
proof -
  define k e f where "k = ilog2 q" and "e = exponent64 q" and "f = exponent64 x"
  define m where "m = round_half_even (q * two_powi (- e))"
  have q: "q = of_int m * two_powi e" using assms(1,2) by (simp add: round64_def Let_def m_def e_def)
  have k: "two_powi k \<le> q" "q < two_powi (k + 1)" unfolding k_def using ilog2_bounds assms(1) by auto
  have small: "two_powi (- 54) < 1 / 2" by (simp add: two_powi_def)
  have "q * two_powi (- 54) < q * (1 / 2)" using assms(1) small by (intro mult_strict_left_mono) auto
  then have x: "q / 2 < x" using assms(3) by linarith
  then have x0: "0 < x" using assms(1) by linarith
  have d: "\<bar>x - q\<bar> < two_powi (k - 53)"
  proof -
    have "q * two_powi (- 54) \<le> two_powi (k + 1) * two_powi (- 54)"
      using k(2) by (intro mult_right_mono) (auto simp: less_imp_le)
    also have "\<dots> = two_powi (k - 53)" by (simp flip: two_powi_add)
    finally show ?thesis using assms(3) by linarith
  qed
  have e: "e = max (k - 52) (- 1074)" using assms(1) by (simp add: e_def exponent64_def k_def)
  have f: "f = max (ilog2 x - 52) (- 1074)" using x0 by (simp add: f_def exponent64_def)
  note xb = ilog2_bounds [OF x0]
  have half: "two_powi (j - 1) = two_powi j / 2" for j
    using two_powi_add [of j "- 1"] by (simp add: two_powi_def [of "- 1"])
  have "two_powi (k - 53) < two_powi (k + 1)" "two_powi (k + 1) + two_powi (k + 1) = two_powi (k + 2)"
    using half [of "k + 2"] by (simp_all add: two_powi_less_iff add.commute [of k])
  then have top: "ilog2 x < k + 2" using k(2) d x0 by (intro ilog2_less) linarith+
  have "f \<le> e"
  proof (rule ccontr)
    assume "\<not> f \<le> e"
    then have i: "k + 1 \<le> ilog2 x" and e': "e = k - 52" using e f top by (auto simp: max_def split: if_splits)
    have "two_powi (k + 1) \<le> x" using xb(1) two_powi_mono [OF i] by linarith
    moreover have kk: "two_powi (k + 1) = of_int (2 ^ 53) * two_powi e"
      using two_powi_add [of 53 e] two_powi_nonneg_int [of 53] by (simp add: e' algebra_simps)
    then have "of_int m * two_powi e < of_int (2 ^ 53) * two_powi e" using k(2) q by simp
    then have "m < 2 ^ 53" by (simp only: mult_less_cancel_right_pos [OF two_powi_pos] of_int_less_iff)
    then have "of_int (m + 1) * two_powi e \<le> of_int (2 ^ 53) * two_powi e"
      by (intro mult_right_mono) (simp_all only: of_int_le_iff, auto simp: less_imp_le)
    then have "q + two_powi e \<le> two_powi (k + 1)" using q kk by (simp add: algebra_simps)
    ultimately have "two_powi e \<le> x - q" by linarith
    moreover have "two_powi (k - 53) < two_powi e" using e' by (simp add: two_powi_less_iff)
    ultimately show False using d by linarith
  qed
  then consider "f = e" | "f < e" by linarith
  then show ?thesis
  proof cases
    case 1
    have "two_powi (k - 53) \<le> two_powi (f - 1)" using 1 e by (intro two_powi_mono) simp
    then show ?thesis using round64_at [of x q m] x0 q d 1 by (simp add: f_def)
  next
    case 2
    then have i: "ilog2 x < k" and e': "e = k - 52" using e f by (auto simp: max_def split: if_splits)
    have xk: "x < two_powi k" using xb(2) two_powi_mono [of "ilog2 x + 1" k] i by linarith
    have kk: "two_powi k = of_int (2 ^ 52) * two_powi e"
      using two_powi_add [of 52 e] two_powi_nonneg_int [of 52] by (simp add: e' algebra_simps)
    have "q - two_powi k < two_powi (k - 53)" using d xk by linarith
    moreover have "two_powi (k - 53) < two_powi e" using e' by (simp add: two_powi_less_iff)
    ultimately have "of_int m * two_powi e < of_int (2 ^ 52) * two_powi e + two_powi e" using q kk by linarith
    also have "\<dots> = of_int (2 ^ 52 + 1) * two_powi e" by (simp add: algebra_simps)
    finally have "of_int m * two_powi e < of_int (2 ^ 52 + 1) * two_powi e" .
    then have "m < 2 ^ 52 + 1" by (simp only: mult_less_cancel_right_pos [OF two_powi_pos] of_int_less_iff)
    moreover have "of_int (2 ^ 52) * two_powi e \<le> of_int m * two_powi e" using k(1) q kk by simp
    then have "2 ^ 52 \<le> m" by (simp only: mult_le_cancel_right_pos [OF two_powi_pos] of_int_le_iff)
    ultimately have "m = 2 ^ 52" by linarith
    then have qk: "q = two_powi k" using q kk by simp
    have "two_powi (k - 1) \<le> x" using x qk half [of k] by simp
    then have "ilog2 x = k - 1" using xk x0 by (intro ilog2_eqI) simp_all
    then have f': "f = k - 53" using 2 e' f by simp
    have "q = of_int (2 * m) * two_powi f"
      using q half [of "k - 52"] by (simp add: f' e')
    moreover have "q * two_powi (- 54) = two_powi (f - 1)"
      by (simp add: qk f' flip: two_powi_add)
    ultimately show ?thesis using round64_at [of x q "2 * m"] x0 assms(3) by (simp add: f_def)
  qed
qed

lemma round64_fix_ge: assumes "0 < q" "round64 q = q" shows "two_powi (- 1074) \<le> q"
proof -
  obtain m e where "- 1074 \<le> e" and q: "q = of_int m * two_powi e"
    using round64_form_pos [OF assms(1)] assms(2) by metis
  then have "0 < m" using assms(1) two_powi_pos [of e] by (auto simp: zero_less_mult_iff dest: less_asym)
  then have "1 \<le> rat_of_int m" by simp
  then have "1 * two_powi e \<le> of_int m * two_powi e" by (intro mult_right_mono) (auto simp: less_imp_le)
  then show ?thesis using q two_powi_mono [OF \<open>- 1074 \<le> e\<close>] by linarith
qed

end
