(* ===== verification/GoNumbers.thy ===== *)
theory GoNumbers
  imports GoStrings
begin

section \<open>Reading numbers\<close>

text \<open>
  \<open>strconv.Atoi\<close> and \<open>strconv.ParseFloat\<close> with 64 bits. The callers look only at whether there was
  an error, so a syntax error and a range error are both \<open>None\<close>. Go computes the nearest
  \<open>float64\<close> of the decimal or hexadecimal text, ties to even; exponents saturate as the
  scanner's counter does.
\<close>

subsection \<open>Integers\<close>

definition unsign :: "string \<Rightarrow> bool \<times> string" where
  "unsign s = (case s of [] \<Rightarrow> (False, []) | c # t \<Rightarrow>
     if c = CHR ''-'' then (True, t) else if c = CHR ''+'' then (False, t) else (False, s))"

definition Atoi :: "string \<Rightarrow> i64 option" where
  "Atoi s = (case unsign s of (neg, ds) \<Rightarrow>
     if ds = [] \<or> \<not> list_all is_digit ds then None
     else let n = (if neg then - int (undec ds) else int (undec ds)) in
       if - (2 ^ 63) \<le> n \<and> n < 2 ^ 63 then Some (word_of_int n) else None)"

subsection \<open>Floating point\<close>

definition lower_char :: "char \<Rightarrow> char" where
  "lower_char c = (let n = of_char c :: nat in if 65 \<le> n \<and> n \<le> 90 then char_of (n + 32) else c)"

definition digit_value :: "bool \<Rightarrow> char \<Rightarrow> nat option" where
  "digit_value hex c = (let n = of_char (lower_char c) :: nat in
     if is_digit c then Some (n - 48)
     else if hex \<and> 97 \<le> n \<and> n \<le> 102 then Some (n - 87) else None)"

text \<open>The digits of the mantissa as a number, how many of them follow the point, whether there are
  any, and the rest of the text.\<close>

fun scan_mantissa :: "bool \<Rightarrow> bool \<Rightarrow> int \<Rightarrow> nat \<Rightarrow> bool \<Rightarrow> string \<Rightarrow> int \<times> nat \<times> bool \<times> string" where
  "scan_mantissa hex dot m k saw [] = (m, k, saw, [])"
| "scan_mantissa hex dot m k saw (c # s) =
     (if c = CHR ''_'' then scan_mantissa hex dot m k saw s
      else if c = CHR ''.'' then (if dot then (m, k, saw, c # s) else scan_mantissa hex True m k saw s)
      else case digit_value hex c of
          None \<Rightarrow> (m, k, saw, c # s)
        | Some d \<Rightarrow> scan_mantissa hex dot ((if hex then 16 else 10) * m + int d) (if dot then Suc k else k) True s)"

fun scan_exponent :: "int \<Rightarrow> string \<Rightarrow> int option" where
  "scan_exponent e [] = Some e"
| "scan_exponent e (c # s) =
     (if c = CHR ''_'' then scan_exponent e s
      else if is_digit c then scan_exponent (if e < 10000 then 10 * e + int (char_digit c) else e) s
      else None)"

definition read_exponent :: "bool \<Rightarrow> string \<Rightarrow> int option" where
  "read_exponent hex rest =
     (case rest of
        [] \<Rightarrow> if hex then None else Some 0
      | c # t \<Rightarrow>
          if lower_char c \<noteq> (if hex then CHR ''p'' else CHR ''e'') then None
          else case unsign t of (neg, ds) \<Rightarrow>
            if ds = [] \<or> \<not> is_digit (hd ds) then None
            else map_option (\<lambda>e. if neg then - e else e) (scan_exponent 0 ds))"

datatype saw = Start | SawDigit | SawUnderscore | SawOther

fun underscores_between :: "bool \<Rightarrow> saw \<Rightarrow> string \<Rightarrow> bool" where
  "underscores_between hex st [] \<longleftrightarrow> st \<noteq> SawUnderscore"
| "underscores_between hex st (c # s) \<longleftrightarrow>
     (if digit_value hex c \<noteq> None then underscores_between hex SawDigit s
      else if c = CHR ''_'' then st = SawDigit \<and> underscores_between hex SawUnderscore s
      else st \<noteq> SawUnderscore \<and> underscores_between hex SawOther s)"

definition underscoreOK :: "string \<Rightarrow> bool" where
  "underscoreOK s = (case snd (unsign s) of
     z # b # t \<Rightarrow> if z = CHR ''0'' \<and> lower_char b \<in> {CHR ''b'', CHR ''o'', CHR ''x''}
       then underscores_between (lower_char b = CHR ''x'') SawDigit t
       else underscores_between False Start (z # b # t)
   | t \<Rightarrow> underscores_between False Start t)"

definition pow_int :: "nat \<Rightarrow> int \<Rightarrow> rat" where
  "pow_int b e = (if 0 \<le> e then of_nat b ^ nat e else 1 / of_nat b ^ nat (- e))"

text \<open>The rational a number denotes; \<open>None\<close> when the text is none.\<close>

definition readFloat :: "string \<Rightarrow> rat option" where
  "readFloat s =
     (case unsign s of (neg, t) \<Rightarrow>
        let hex = (length t > 2 \<and> hd t = CHR ''0'' \<and> lower_char (t ! 1) = CHR ''x'') in
        case scan_mantissa hex False 0 0 False (if hex then drop 2 t else t) of (m, k, saw, rest) \<Rightarrow>
          if \<not> saw \<or> (CHR ''_'' \<in> set s \<and> \<not> underscoreOK s) then None
          else map_option (\<lambda>e. (if neg then - 1 else 1) * of_int m *
              (if hex then pow_int 2 (e - 4 * int k) else pow_int 10 (e - int k)))
            (read_exponent hex rest))"

definition ParseFloat :: "string \<Rightarrow> f64 option" where
  "ParseFloat s =
     (let w = map lower_char s in
      if w \<in> {''inf'', ''+inf'', ''infinity'', ''+infinity''} then Some PInf
      else if w \<in> {''-inf'', ''-infinity''} then Some NInf
      else if w = ''nan'' then Some NaN
      else case readFloat s of
          None \<Rightarrow> None
        | Some q \<Rightarrow> (case f64_of_rat q of Fin r \<Rightarrow> Some (Fin r) | _ \<Rightarrow> None))"

subsection \<open>Facts\<close>

lemma undec_Cons: "undec (c # s) = char_digit c * 10 ^ length s + undec s"
proof (induction s rule: rev_induct)
  case (snoc d s)
  have "undec ((c # s) @ [d]) = 10 * undec (c # s) + char_digit d" by (rule undec_snoc)
  then show ?case using snoc by simp
qed (simp add: undec_def)

lemma digits_shape: "list_all is_digit (dec n)" "list_all is_digit (dec_pad w n)"
  by (auto simp: list_all_iff dest: dec_digits dec_pad_digits)

lemma unsign_digit: "is_digit (hd s) \<Longrightarrow> unsign s = (False, s)"
  by (cases s) (auto simp: unsign_def is_digit_def)

lemma unsign_minus: "unsign (CHR ''-'' # s) = (True, s)"
  by (simp add: unsign_def)

lemma i64_range: "- (2 ^ 63) \<le> sint x" "sint x < 2 ^ 63" for x :: i64
  using sint_range_size [of x] by (simp_all add: word_size)

lemma Atoi_fmt_d: "Atoi (fmt_d x) = Some x"
proof (cases "sint x < 0")
  case True
  then have "fmt_d x = CHR ''-'' # dec (nat (- sint x))" by (simp add: fmt_d_def word_sless_0)
  then have "unsign (fmt_d x) = (True, dec (nat (- sint x)))" by (simp only: unsign_minus)
  then show ?thesis using True i64_range [of x] digits_shape(1) unfolding Atoi_def by simp
next
  case False
  then have "fmt_d x = dec (nat (sint x))" by (simp add: fmt_d_def word_sless_0)
  then have "unsign (fmt_d x) = (False, dec (nat (sint x)))" using unsign_digit [OF hd_dec] by simp
  then show ?thesis using False i64_range [of x] digits_shape(1) unfolding Atoi_def by simp
qed

lemma ParseFloat_ok: "ParseFloat s = Some x \<Longrightarrow> f64_ok x"
  using f64_of_rat_ok by (auto simp: ParseFloat_def Let_def split: option.splits if_splits f64.splits)

lemma digit_value_digit: "is_digit c \<Longrightarrow> digit_value hex c = Some (char_digit c)"
proof -
  assume d: "is_digit c"
  then have "lower_char c = c" by (simp add: is_digit_def lower_char_def Let_def)
  then show ?thesis using d by (simp add: digit_value_def char_digit_def)
qed

lemma digit_not_mark: "is_digit c \<Longrightarrow> c \<noteq> CHR ''_'' \<and> c \<noteq> CHR ''.''"
  by (auto simp: is_digit_def)

lemma scan_mantissa_digits:
  "list_all is_digit ds \<Longrightarrow>
    scan_mantissa False dot m k saw (ds @ s) =
      scan_mantissa False dot (m * 10 ^ length ds + int (undec ds)) (if dot then k + length ds else k) (saw \<or> ds \<noteq> []) s"
proof (induction ds arbitrary: m k saw)
  case (Cons c ds)
  then show ?case by (simp add: digit_value_digit digit_not_mark undec_Cons algebra_simps)
qed simp

text \<open>A number written with a decimal point is read back as the nearest \<open>float64\<close>.\<close>

lemma ParseFloat_fixed:
  assumes "0 < w"
  shows "ParseFloat ((if neg then ''-'' else []) @ dec n @ ''.'' @ dec_pad w f) =
    (case f64_of_rat ((if neg then - 1 else 1) * of_nat (n * 10 ^ w + f mod 10 ^ w) / 10 ^ w) of Fin r \<Rightarrow> Some (Fin r) | _ \<Rightarrow> None)"
proof -
  define t where "t = dec n @ ''.'' @ dec_pad w f"
  define s where "s = (if neg then ''-'' else []) @ t"
  obtain c t' where t: "t = c # t'" and c: "is_digit c"
    using hd_dec [of n] dec_not_Nil [of n] by (metis append_Cons list.exhaust_sel t_def)
  have u: "unsign s = (neg, t)" using c by (auto simp: s_def t unsign_def is_digit_def)
  have x: "x \<in> set t \<Longrightarrow> is_digit x \<or> x = CHR ''.''" for x
    using digits_shape [of n] digits_shape(2) [of w f] by (auto simp: t_def list_all_iff)
  have hex: "\<not> (length t > 2 \<and> hd t = CHR ''0'' \<and> lower_char (t ! 1) = CHR ''x'')"
  proof
    assume a: "length t > 2 \<and> hd t = CHR ''0'' \<and> lower_char (t ! 1) = CHR ''x''"
    then have "is_digit (t ! 1) \<or> t ! 1 = CHR ''.''" using x [OF nth_mem, of 1] by auto
    then show False using a by (auto simp: is_digit_def lower_char_def Let_def split: if_splits)
  qed
  have scan: "scan_mantissa False False 0 0 False t = (int n * 10 ^ w + int (f mod 10 ^ w), w, True, [])"
    using scan_mantissa_digits [OF digits_shape(1), of False 0 0 False n "''.'' @ dec_pad w f"]
      scan_mantissa_digits [OF digits_shape(2), of True "int n" 0 True w f "[]"] assms
    by (simp add: t_def undec_dec_pad)
  have us: "CHR ''_'' \<notin> set s" using x [of "CHR ''_''"] by (auto simp: s_def is_digit_def)
  have rf: "readFloat s = Some ((if neg then - 1 else 1) * of_nat (n * 10 ^ w + f mod 10 ^ w) / 10 ^ w)"
    unfolding readFloat_def u prod.case Let_def if_not_P [OF hex] scan using hex us assms
    by (auto simp: read_exponent_def pow_int_def scan)
  have low: "lower_char c = c" "lower_char CHR ''-'' = CHR ''-''" using c by (simp_all add: is_digit_def lower_char_def Let_def)
  have "map lower_char s \<notin> {''inf'', ''+inf'', ''infinity'', ''+infinity''} \<union> {''-inf'', ''-infinity''} \<union> {''nan''}"
    using c by (cases neg) (auto simp: s_def t low is_digit_def)
  then show ?thesis unfolding ParseFloat_def Let_def s_def [symmetric] t_def [symmetric] using rf by (auto split: f64.splits)
qed

end
