(* ===== verification/GoText.thy ===== *)
theory GoText
  imports Prelude
begin

section \<open>Text and bytes\<close>

text \<open>
  What the repository uses of \<open>strings\<close>, \<open>encoding/hex\<close> and \<open>encoding/base64\<close>. A string is
  its UTF-8 bytes. \<open>TrimSpace\<close> strips the encodings of the white space runes, at the end as
  at the start: each of them begins with a byte that starts a rune and continues with
  continuation bytes, so a matching suffix is the last rune. \<open>ToLower\<close> is the byte-wise one on
  ASCII strings; on others it maps runes with the Unicode tables, which are the parameter
  \<open>unicodeLower\<close>.
\<close>

subsection \<open>White space and case\<close>

definition byte :: "nat \<Rightarrow> char" where "byte n = char_of n"

definition space_encodings :: "string list" where
  "space_encodings = [[byte 9], [byte 10], [byte 11], [byte 12], [byte 13], [byte 32],
     [byte 0xC2, byte 0x85], [byte 0xC2, byte 0xA0], [byte 0xE1, byte 0x9A, byte 0x80]]
     @ map (\<lambda>b. [byte 0xE2, byte 0x80, byte b]) [0x80, 0x81, 0x82, 0x83, 0x84, 0x85, 0x86, 0x87, 0x88, 0x89, 0x8A, 0xA8, 0xA9, 0xAF]
     @ [[byte 0xE2, byte 0x81, byte 0x9F], [byte 0xE3, byte 0x80, byte 0x80]]"

definition strip1 :: "string list \<Rightarrow> string \<Rightarrow> string option" where
  "strip1 ps s = map_option (\<lambda>p. drop (length p) s) (find (\<lambda>p. take (length p) s = p) ps)"

lemma strip1_shorter:
  assumes "[] \<notin> set ps" "strip1 ps s = Some t"
  shows "length t < length s"
proof -
  obtain p where p: "find (\<lambda>p. take (length p) s = p) ps = Some p" and t: "t = drop (length p) s"
    using assms(2) by (auto simp: strip1_def)
  have "p \<in> set ps" "take (length p) s = p" using p by (auto simp: find_Some_iff)
  then have "p \<noteq> []" "length p \<le> length s" using assms(1) by (auto, metis length_take min.absorb_iff2)
  then show ?thesis using t by (cases p) auto
qed

lemma space_nonempty: "[] \<notin> set space_encodings" "[] \<notin> set (map rev space_encodings)"
  by (auto simp: space_encodings_def)

function strip_all :: "string list \<Rightarrow> string \<Rightarrow> string" where
  "strip_all ps s = (if [] \<in> set ps then s else case strip1 ps s of None \<Rightarrow> s | Some t \<Rightarrow> strip_all ps t)"
  by pat_completeness auto
termination by (relation "measure (\<lambda>(ps, s). length s)") (auto dest: strip1_shorter)

declare strip_all.simps [simp del]

definition TrimSpace :: "string \<Rightarrow> string" where
  "TrimSpace s = rev (strip_all (map rev space_encodings) (rev (strip_all space_encodings s)))"

definition ascii :: "string \<Rightarrow> bool" where
  "ascii s \<longleftrightarrow> list_all (\<lambda>c. (of_char c :: nat) < 128) s"

definition lower_byte :: "char \<Rightarrow> char" where
  "lower_byte c = (let n = of_char c :: nat in if 65 \<le> n \<and> n \<le> 90 then char_of (n + 32) else c)"

definition ToLower :: "(string \<Rightarrow> string) \<Rightarrow> string \<Rightarrow> string" where
  "ToLower unicodeLower s = (if ascii s then map lower_byte s else unicodeLower s)"

subsection \<open>Hexadecimal and base64url\<close>

definition hex_digit :: "nat \<Rightarrow> char" where
  "hex_digit n = (if n < 10 then char_of (48 + n) else char_of (87 + n))"

definition hex_EncodeToString :: "8 word list \<Rightarrow> string" where
  "hex_EncodeToString bs = concat (map (\<lambda>b. [hex_digit (unat b div 16), hex_digit (unat b mod 16)]) bs)"

definition base64url_digit :: "nat \<Rightarrow> char" where
  "base64url_digit n =
     (if n < 26 then char_of (65 + n) else if n < 52 then char_of (71 + n)
      else if n < 62 then char_of (n - 4) else if n = 62 then char_of (45 :: nat) else char_of (95 :: nat))"

fun RawURLEncoding :: "8 word list \<Rightarrow> string" where
  "RawURLEncoding [] = []"
| "RawURLEncoding [a] =
     [base64url_digit (unat a div 4), base64url_digit (unat a mod 4 * 16)]"
| "RawURLEncoding [a, b] =
     [base64url_digit (unat a div 4), base64url_digit (unat a mod 4 * 16 + unat b div 16),
      base64url_digit (unat b mod 16 * 4)]"
| "RawURLEncoding (a # b # c # bs) =
     base64url_digit (unat a div 4) # base64url_digit (unat a mod 4 * 16 + unat b div 16) #
     base64url_digit (unat b mod 16 * 4 + unat c div 64) # base64url_digit (unat c mod 64) # RawURLEncoding bs"

subsection \<open>Facts\<close>

lemma byte_bound: "unat (b :: 8 word) < 256"
  using unsigned_less [of b] by simp

lemma hex_digit_inj: "m < 16 \<Longrightarrow> n < 16 \<Longrightarrow> hex_digit m = hex_digit n \<longleftrightarrow> m = n"
  by (auto simp: hex_digit_def split: if_splits)

lemma hex_inj: "hex_EncodeToString a = hex_EncodeToString b \<longleftrightarrow> a = b"
proof (induction a arbitrary: b)
  case Nil
  then show ?case by (cases b) (auto simp: hex_EncodeToString_def)
next
  case (Cons x a)
  show ?case
  proof (cases b)
    case (Cons y b')
    have "unat x div 16 = unat y div 16 \<and> unat x mod 16 = unat y mod 16 \<longleftrightarrow> x = y"
      by (metis div_mult_mod_eq word_unat_eq_iff)
    then show ?thesis
      using Cons Cons.IH [of b'] byte_bound [of x] byte_bound [of y] hex_digit_inj
      by (auto simp: hex_EncodeToString_def)
  qed (simp add: hex_EncodeToString_def)
qed

lemma length_RawURLEncoding_32: "length bs = 32 \<Longrightarrow> length (RawURLEncoding bs) = 43"
proof -
  have "length (RawURLEncoding bs) = (4 * length bs + 2) div 3" for bs
    by (induction bs rule: RawURLEncoding.induct) auto
  then show "length bs = 32 \<Longrightarrow> length (RawURLEncoding bs) = 43" by simp
qed

lemma RawURLEncoding_Nil [simp]: "RawURLEncoding bs = [] \<longleftrightarrow> bs = []"
  by (cases bs rule: RawURLEncoding.cases) auto

lemma base64url_digit_inj: "m < 64 \<Longrightarrow> n < 64 \<Longrightarrow> base64url_digit m = base64url_digit n \<longleftrightarrow> m = n"
  by (auto simp: base64url_digit_def split: if_splits)

text \<open>Nothing to trim where the ends are printing ASCII characters.\<close>

definition graphic :: "char \<Rightarrow> bool" where
  "graphic c \<longleftrightarrow> 33 \<le> (of_char c :: nat) \<and> of_char c < (128 :: nat)"

lemma spaces_not_graphic: "list_all (\<lambda>p. p \<noteq> [] \<and> \<not> graphic (hd p) \<and> \<not> graphic (last p)) space_encodings"
  by (simp add: space_encodings_def byte_def graphic_def)

lemma strip_all_id:
  assumes "\<forall>p\<in>set ps. p \<noteq> [] \<and> hd p \<noteq> c"
  shows "strip_all ps (c # s) = c # s"
proof -
  have "take (length p) (c # s) \<noteq> p" if "p \<in> set ps" for p
    using assms that by (cases p) auto
  then have "find (\<lambda>p. take (length p) (c # s) = p) ps = None" by (simp add: find_None_iff)
  then show ?thesis by (simp add: strip_all.simps [of ps] strip1_def)
qed

lemma TrimSpace_id:
  assumes "s \<noteq> []" "graphic (hd s)" "graphic (last s)"
  shows "TrimSpace s = s"
proof -
  have 1: "\<forall>p\<in>set space_encodings. p \<noteq> [] \<and> hd p \<noteq> hd s" "\<forall>p\<in>set (map rev space_encodings). p \<noteq> [] \<and> hd p \<noteq> hd (rev s)"
    using spaces_not_graphic assms by (auto simp: list_all_iff hd_rev)
  have "strip_all space_encodings s = s" using strip_all_id [OF 1(1), of "tl s"] assms(1) by simp
  moreover have "strip_all (map rev space_encodings) (rev s) = rev s"
    using strip_all_id [OF 1(2), of "tl (rev s)"] assms(1) by simp
  ultimately show ?thesis by (simp add: TrimSpace_def)
qed

end
