(* ===== verification/Json.thy ===== *)
theory Json
  imports GoNumbers GoText
begin

section \<open>JSON text\<close>

text \<open>
  What the repository uses of \<open>encoding/json\<close> to read: the scanner as a state machine over tokens
  with the stack of open arrays and objects, and the rules by which a value is stored into a Go
  variable. A number keeps its text, as the library does. Nesting is limited to 10000, as there.
\<close>

datatype json = JNull | JBool bool | JNum string | JStr string | JArr "json list" | JObj "(string \<times> json) list"

subsection \<open>Strings\<close>

text \<open>\<open>utf8.DecodeRune\<close>: the length of the encoding a byte sequence begins with; 0 if it is not valid.
  \<open>rune_tail\<close> is the library's table: by the first byte, how many bytes follow and the range of the first of them.\<close>

definition in_range :: "nat \<Rightarrow> nat \<Rightarrow> char \<Rightarrow> bool" where
  "in_range lo hi c \<longleftrightarrow> lo \<le> of_char c \<and> of_char c \<le> hi"

definition rune_tail :: "char \<Rightarrow> (nat \<times> nat \<times> nat) option" where
  "rune_tail a = map_option snd (find (\<lambda>((lo, hi), x). in_range lo hi a)
     [((0x00, 0x7F), (0, 0x00, 0xFF)), ((0xC2, 0xDF), (1, 0x80, 0xBF)), ((0xE0, 0xE0), (2, 0xA0, 0xBF)),
      ((0xED, 0xED), (2, 0x80, 0x9F)), ((0xE1, 0xEF), (2, 0x80, 0xBF)), ((0xF0, 0xF0), (3, 0x90, 0xBF)),
      ((0xF1, 0xF3), (3, 0x80, 0xBF)), ((0xF4, 0xF4), (3, 0x80, 0x8F))])"

definition utf8_length :: "string \<Rightarrow> nat" where
  "utf8_length s = (case s of
     [] \<Rightarrow> 0
   | a # t \<Rightarrow>
       (case rune_tail a of
          None \<Rightarrow> 0
        | Some (k, lo, hi) \<Rightarrow>
            if k \<le> length t \<and> (k = 0 \<or> in_range lo hi (hd t)) \<and> list_all (in_range 0x80 0xBF) (take k t) then Suc k else 0))"

definition utf8_encode :: "nat \<Rightarrow> string" where
  "utf8_encode r =
     (if r < 0x80 then [byte r]
      else if r < 0x800 then [byte (0xC0 + r div 64), byte (0x80 + r mod 64)]
      else if r < 0x10000 then [byte (0xE0 + r div 4096), byte (0x80 + r div 64 mod 64), byte (0x80 + r mod 64)]
      else [byte (0xF0 + r div 262144), byte (0x80 + r div 4096 mod 64), byte (0x80 + r div 64 mod 64), byte (0x80 + r mod 64)])"

definition replacement :: string where "replacement = [byte 0xEF, byte 0xBF, byte 0xBD]"

text \<open>\<open>\u\<close> escapes: a pair of surrogates is one rune, a lone surrogate becomes U+FFFD.\<close>

definition hex4 :: "string \<Rightarrow> nat option" where
  "hex4 s = (if length s < 4 then None
     else map_option (foldl (\<lambda>n d. 16 * n + d) 0) (those (map (digit_value True) (take 4 s))))"

definition unicode_escape :: "string \<Rightarrow> (string \<times> nat) option" where
  "unicode_escape s = (case hex4 s of
     None \<Rightarrow> None
   | Some r \<Rightarrow>
       if 0xD800 \<le> r \<and> r < 0xE000 then
         (case (if r < 0xDC00 \<and> take 2 (drop 4 s) = [CHR 0x5C, CHR ''u''] then hex4 (drop 6 s) else None) of
            Some r2 \<Rightarrow> if 0xDC00 \<le> r2 \<and> r2 < 0xE000 then Some (utf8_encode (0x10000 + (r - 0xD800) * 1024 + (r2 - 0xDC00)), 10)
                       else Some (replacement, 4)
          | None \<Rightarrow> Some (replacement, 4))
       else Some (utf8_encode r, 4))"

definition simple_escape :: "char \<Rightarrow> char option" where
  "simple_escape c = map_of [(CHR 0x22, CHR 0x22), (CHR 0x5C, CHR 0x5C), (CHR ''/'', CHR ''/''), (CHR ''b'', byte 8),
     (CHR ''f'', byte 12), (CHR ''n'', byte 10), (CHR ''r'', byte 13), (CHR ''t'', byte 9)] c"

text \<open>The text of a string literal after its opening quote: its value and what follows it.\<close>

function unquote :: "string \<Rightarrow> (string \<times> string) option" where
  "unquote s = (case s of
     [] \<Rightarrow> None
   | c # t \<Rightarrow>
       if c = CHR 0x22 then Some ([], t)
       else if c = CHR 0x5C then
         (case t of
            [] \<Rightarrow> None
          | e # u \<Rightarrow>
              if e = CHR ''u'' then
                (case unicode_escape u of
                   None \<Rightarrow> None
                 | Some (v, k) \<Rightarrow> map_option (apfst (append v)) (unquote (drop k u)))
              else (case simple_escape e of None \<Rightarrow> None | Some v \<Rightarrow> map_option (apfst (Cons v)) (unquote u)))
       else if in_range 0 0x1F c then None
       else let k = utf8_length s in
         map_option (apfst (append (if k = 0 then replacement else take k s))) (unquote (drop (max 1 k) s)))"
  by pat_completeness auto
termination by (relation "measure length") auto

declare unquote.simps [simp del]

subsection \<open>Tokens\<close>

datatype token = LBrace | RBrace | LBracket | RBracket | Comma | Colon | Scalar json

definition json_space :: "char \<Rightarrow> bool" where
  "json_space c \<longleftrightarrow> c \<in> {CHR '' '', byte 9, byte 10, byte 13}"

text \<open>The longest number a text begins with.\<close>

definition split_digits :: "string \<Rightarrow> string \<times> string" where
  "split_digits s = (takeWhile is_digit s, dropWhile is_digit s)"

definition int_part :: "string \<Rightarrow> (string \<times> string) option" where
  "int_part s = (case s of
     c # t \<Rightarrow> if c = CHR ''0'' then Some ([c], t) else if is_digit c then Some (split_digits s) else None
   | [] \<Rightarrow> None)"

definition frac_part :: "string \<Rightarrow> (string \<times> string) option" where
  "frac_part s = (case s of
     c # t \<Rightarrow> if c = CHR ''.'' then (case split_digits t of (ds, r) \<Rightarrow> if ds = [] then None else Some (c # ds, r)) else Some ([], s)
   | [] \<Rightarrow> Some ([], []))"

definition exp_part :: "string \<Rightarrow> (string \<times> string) option" where
  "exp_part s = (case s of
     c # t \<Rightarrow>
       if c = CHR ''e'' \<or> c = CHR ''E'' then
         let (sg, t) = (case t of d # u \<Rightarrow> if d = CHR ''+'' \<or> d = CHR ''-'' then ([d], u) else ([], t) | [] \<Rightarrow> ([], t));
             (ds, r) = split_digits t
         in if ds = [] then None else Some (c # sg @ ds, r)
       else Some ([], s)
   | [] \<Rightarrow> Some ([], []))"

definition scan_number :: "string \<Rightarrow> (string \<times> string) option" where
  "scan_number s =
     (let (sg, t) = (case s of c # u \<Rightarrow> if c = CHR ''-'' then ([c], u) else ([], s) | [] \<Rightarrow> ([], s)) in
      case int_part t of None \<Rightarrow> None | Some (a, t) \<Rightarrow>
      case frac_part t of None \<Rightarrow> None | Some (b, t) \<Rightarrow>
      case exp_part t of None \<Rightarrow> None | Some (c, t) \<Rightarrow> Some (sg @ a @ b @ c, t))"

definition literals :: "(string \<times> json) list" where
  "literals = [(''true'', JBool True), (''false'', JBool False), (''null'', JNull)]"

definition punctuation :: "char \<Rightarrow> token option" where
  "punctuation c = map_of [(CHR 0x7B, LBrace), (CHR 0x7D, RBrace), (CHR 0x5B, LBracket), (CHR 0x5D, RBracket),
     (CHR '','', Comma), (CHR '':'', Colon)] c"

definition next_token :: "string \<Rightarrow> (token \<times> string) option" where
  "next_token s =
     (case dropWhile json_space s of
        [] \<Rightarrow> None
      | c # t \<Rightarrow>
          (case punctuation c of
             Some p \<Rightarrow> Some (p, t)
           | None \<Rightarrow>
               if c = CHR 0x22 then map_option (\<lambda>(v, r). (Scalar (JStr v), r)) (unquote t)
               else case find (\<lambda>(w, v). take (length w) (c # t) = w) literals of
                   Some (w, v) \<Rightarrow> Some (Scalar v, drop (length w) (c # t))
                 | None \<Rightarrow> map_option (\<lambda>(n, r). (Scalar (JNum n), r)) (scan_number (c # t))))"

lemma unquote_shorter: "unquote s = Some (v, r) \<Longrightarrow> length r < length s"
proof (induction s arbitrary: v rule: measure_induct_rule [of length])
  case (less s)
  have *: "length r < length s" if "unquote u = Some (v', r)" "length u < length s" for u v'
    using less.IH [OF that(2,1)] that(2) by simp
  obtain c t where s: "s = c # t" using less.prems by (cases s) (auto simp: unquote.simps)
  show ?case
  proof (cases "c = CHR 0x22 \<or> c = CHR 0x5C \<or> in_range 0 0x1F c")
    case True
    then show ?thesis using less.prems
      by (subst (asm) unquote.simps) (auto simp: s split: list.splits if_splits option.splits dest!: * [unfolded s])
  next
    case False
    then obtain v' where "unquote (drop (max 1 (utf8_length s)) s) = Some (v', r)"
      using less.prems by (subst (asm) unquote.simps) (auto simp: s Let_def)
    then show ?thesis by (rule *) (simp add: s)
  qed
qed

lemma split_digits_shorter: "split_digits s = (a, r) \<Longrightarrow> length a + length r = length s"
  unfolding split_digits_def by (metis Pair_inject length_append takeWhile_dropWhile_id)

lemma int_part_shorter: "int_part s = Some (a, r) \<Longrightarrow> length r < length s"
  by (auto simp: int_part_def split_digits_def length_dropWhile_le less_Suc_eq_le split: list.splits if_splits)

lemma frac_part_shorter: "frac_part s = Some (a, r) \<Longrightarrow> length r \<le> length s"
  by (auto simp: frac_part_def split_digits_def split: list.splits if_splits intro: le_trans [OF length_dropWhile_le])

lemma exp_part_shorter: "exp_part s = Some (a, r) \<Longrightarrow> length r \<le> length s"
  by (auto simp: exp_part_def split_digits_def Let_def split: list.splits if_splits prod.splits
      intro: le_trans [OF length_dropWhile_le])

lemma scan_number_shorter: "scan_number s = Some (n, r) \<Longrightarrow> length r < length s"
proof -
  assume *: "scan_number s = Some (n, r)"
  obtain sg t where t: "(case s of c # u \<Rightarrow> if c = CHR ''-'' then ([c], u) else ([], s) | [] \<Rightarrow> ([], s)) = (sg, t)" "length t \<le> length s"
    by (cases s; cases "hd s = CHR ''-''") auto
  then show ?thesis using *
    by (auto simp: scan_number_def Let_def split: option.splits dest!: int_part_shorter frac_part_shorter exp_part_shorter)
qed

lemma next_token_shorter: "next_token s = Some (t, r) \<Longrightarrow> length r < length s"
proof -
  assume *: "next_token s = Some (t, r)"
  then obtain c u where c: "dropWhile json_space s = c # u" by (auto simp: next_token_def split: list.splits)
  have len: "length (c # u) \<le> length s" using length_dropWhile_le [of json_space s] c by simp
  have "length r < length (c # u)"
  proof (cases "punctuation c")
    case None
    have drop: "length (drop (length w) (c # u)) < length (c # u)" if "find P literals = Some (w, v)" for P w v
      using that by (auto simp: literals_def split: if_splits)
    show ?thesis using * None c
      by (auto simp: next_token_def split: if_splits option.splits prod.splits dest: unquote_shorter scan_number_shorter drop)
  next
    case (Some p)
    then show ?thesis using * c by (auto simp: next_token_def)
  qed
  then show ?thesis using len by simp
qed

subsection \<open>Values\<close>

datatype frame = ArrFrame "json list" | ObjFrame "(string \<times> json) list" string
datatype mode = WantValue | WantValueOrClose | WantKey | WantKeyOrClose | WantColon | AfterValue
datatype outcome = Continue mode "frame list" | Finish json | Reject

definition maxNestingDepth :: nat where "maxNestingDepth = 10000"

definition push :: "frame \<Rightarrow> mode \<Rightarrow> frame list \<Rightarrow> outcome" where
  "push f m st = (if length st < maxNestingDepth then Continue m (f # st) else Reject)"

fun deliver :: "json \<Rightarrow> frame list \<Rightarrow> outcome" where
  "deliver v [] = Finish v"
| "deliver v (ArrFrame vs # st) = Continue AfterValue (ArrFrame (v # vs) # st)"
| "deliver v (ObjFrame kvs k # st) = Continue AfterValue (ObjFrame ((k, v) # kvs) [] # st)"

definition begin_value :: "frame list \<Rightarrow> token \<Rightarrow> outcome" where
  "begin_value st t = (case t of
     Scalar v \<Rightarrow> deliver v st
   | LBrace \<Rightarrow> push (ObjFrame [] []) WantKeyOrClose st
   | LBracket \<Rightarrow> push (ArrFrame []) WantValueOrClose st
   | _ \<Rightarrow> Reject)"

definition begin_key :: "frame list \<Rightarrow> token \<Rightarrow> outcome" where
  "begin_key st t = (case (t, st) of
     (Scalar (JStr k), ObjFrame kvs _ # st) \<Rightarrow> Continue WantColon (ObjFrame kvs k # st)
   | _ \<Rightarrow> Reject)"

definition end_frame :: "token \<Rightarrow> frame list \<Rightarrow> outcome" where
  "end_frame t st = (case (t, st) of
     (RBracket, ArrFrame vs # st) \<Rightarrow> deliver (JArr (rev vs)) st
   | (RBrace, ObjFrame kvs k # st) \<Rightarrow> deliver (JObj (rev kvs)) st
   | _ \<Rightarrow> Reject)"

fun json_step :: "mode \<Rightarrow> frame list \<Rightarrow> token \<Rightarrow> outcome" where
  "json_step WantValue st t = begin_value st t"
| "json_step WantValueOrClose st t = (if t = RBracket then end_frame t st else begin_value st t)"
| "json_step WantKey st t = begin_key st t"
| "json_step WantKeyOrClose st t = (if t = RBrace then end_frame t st else begin_key st t)"
| "json_step WantColon st t = (if t = Colon then Continue WantValue st else Reject)"
| "json_step AfterValue st t =
     (if t = Comma then (case st of ArrFrame _ # _ \<Rightarrow> Continue WantValue st | ObjFrame _ _ # _ \<Rightarrow> Continue WantKey st | [] \<Rightarrow> Reject)
      else end_frame t st)"

text \<open>The first value of a text and what follows it, as \<open>json.Decoder\<close> reads it.\<close>

function json_run :: "mode \<Rightarrow> frame list \<Rightarrow> string \<Rightarrow> (json \<times> string) option" where
  "json_run m st s =
     (case next_token s of
        None \<Rightarrow> None
      | Some (t, r) \<Rightarrow>
          (case json_step m st t of Reject \<Rightarrow> None | Finish v \<Rightarrow> Some (v, r) | Continue m st \<Rightarrow> json_run m st r))"
  by pat_completeness auto
termination by (relation "measure (\<lambda>(m, st, s). length s)") (auto dest: next_token_shorter)

declare json_run.simps [simp del]

definition json_first :: "string \<Rightarrow> json option" where
  "json_first s = map_option fst (json_run WantValue [] s)"

text \<open>The whole text as one value, as \<open>json.Unmarshal\<close> reads it.\<close>

definition json_parse :: "string \<Rightarrow> json option" where
  "json_parse s = (case json_run WantValue [] s of
     Some (v, r) \<Rightarrow> if list_all json_space r then Some v else None
   | None \<Rightarrow> None)"

subsection \<open>Storing values\<close>

text \<open>
  Field names match up to Go's case folding: besides ASCII, the long s and the Kelvin sign
  fold to ASCII letters. \<open>null\<close> leaves a variable as it is; a later field
  overwrites an earlier one, element by element for a slice; fields with other names are skipped.
\<close>

fun fold_name :: "string \<Rightarrow> string" where
  "fold_name [] = []"
| "fold_name (c # s) =
     (case s of
        d # t \<Rightarrow>
          if c = byte 0xC5 \<and> d = byte 0xBF then CHR ''s'' # fold_name t
          else if c = byte 0xE2 \<and> take 2 s = [byte 0x84, byte 0xAA] then CHR ''k'' # fold_name (drop 2 s)
          else lower_char c # fold_name s
      | [] \<Rightarrow> [lower_char c])"

definition store_fields :: "(string \<times> (json \<Rightarrow> 'a \<Rightarrow> 'a option)) list \<Rightarrow> json \<Rightarrow> 'a \<Rightarrow> 'a option" where
  "store_fields fields v x = (case v of
     JNull \<Rightarrow> Some x
   | JObj kvs \<Rightarrow>
       fold (\<lambda>(k, v) acc. Option.bind acc (\<lambda>x. case find (\<lambda>(n, f). n = fold_name k) fields of None \<Rightarrow> Some x | Some (n, f) \<Rightarrow> f v x))
         kvs (Some x)
   | _ \<Rightarrow> None)"

definition store_float :: "json \<Rightarrow> f64 \<Rightarrow> f64 option" where
  "store_float v x = (case v of JNull \<Rightarrow> Some x | JNum t \<Rightarrow> ParseFloat t | _ \<Rightarrow> None)"

definition store_int64 :: "json \<Rightarrow> i64 \<Rightarrow> i64 option" where
  "store_int64 v x = (case v of JNull \<Rightarrow> Some x | JNum t \<Rightarrow> Atoi t | _ \<Rightarrow> None)"

definition store_string :: "json \<Rightarrow> string \<Rightarrow> string option" where
  "store_string v x = (case v of JNull \<Rightarrow> Some x | JStr t \<Rightarrow> Some t | _ \<Rightarrow> None)"

definition store_list :: "(json \<Rightarrow> 'a \<Rightarrow> 'a option) \<Rightarrow> 'a \<Rightarrow> json \<Rightarrow> 'a list \<Rightarrow> 'a list option" where
  "store_list elem zero v xs = (case v of
     JNull \<Rightarrow> Some []
   | JArr vs \<Rightarrow> those (map (\<lambda>(i, v). elem v (if i < length xs then xs ! i else zero)) (enumerate 0 vs))
   | _ \<Rightarrow> None)"

definition Unmarshal :: "(json \<Rightarrow> 'a \<Rightarrow> 'a option) \<Rightarrow> 'a \<Rightarrow> string \<Rightarrow> 'a option" where
  "Unmarshal store zero s = Option.bind (json_parse s) (\<lambda>v. store v zero)"

definition DecodeFirst :: "(json \<Rightarrow> 'a \<Rightarrow> 'a option) \<Rightarrow> 'a \<Rightarrow> string \<Rightarrow> 'a option" where
  "DecodeFirst store zero s = Option.bind (json_first s) (\<lambda>v. store v zero)"

end
