(* ===== verification/FloatText.thy ===== *)
theory FloatText
  imports RoundNear Json
begin

section \<open>Writing floating-point numbers\<close>

text \<open>
  The text \<open>encoding/json\<close> writes for a \<open>float64\<close>: the shortest decimal that is read back as the
  same value, the nearest one of that length, with an exponent only below 1e-6 and from 1e21 on. The search
  for the length stops at 17 digits, which always identify a value.
\<close>

definition dec_exponent :: "rat \<Rightarrow> int" where
  "dec_exponent q =
     (if 1 \<le> q then int (length (dec (nat \<lfloor>q\<rfloor>)))
      else case find (\<lambda>k. 1 \<le> q * 10 ^ (k + 1)) [0..<400] of Some k \<Rightarrow> - int k | None \<Rightarrow> 0)"

definition reads_as :: "rat \<Rightarrow> int \<Rightarrow> int \<Rightarrow> bool" where
  "reads_as q c e \<longleftrightarrow> f64_of_rat (of_int c * pow_int 10 e) = Fin q"

definition digits_upto :: "rat \<Rightarrow> int \<Rightarrow> nat \<Rightarrow> int option" where
  "digits_upto q p n =
     (let e = p - int n; x = q * pow_int 10 (- e); lo = \<lfloor>x\<rfloor>; hi = lo + 1
      in if reads_as q lo e \<and> reads_as q hi e then Some (round_half_even x)
         else if reads_as q lo e then Some lo else if reads_as q hi e then Some hi else None)"

function strip_zeros :: "int \<Rightarrow> int \<Rightarrow> int \<times> int" where
  "strip_zeros c e = (if 0 < c \<and> c mod 10 = 0 then strip_zeros (c div 10) (e + 1) else (c, e))"
  by pat_completeness auto
termination by (relation "measure (\<lambda>(c, e). nat c)") auto

declare strip_zeros.simps [simp del]

text \<open>Digits and decimal exponent of a positive value.\<close>

definition shortest :: "rat \<Rightarrow> int \<times> int" where
  "shortest q =
     (let p = dec_exponent q in
      case find (\<lambda>n. digits_upto q p n \<noteq> None) [1..<18] of
        Some n \<Rightarrow> strip_zeros (the (digits_upto q p n)) (p - int n)
      | None \<Rightarrow> (0, 0))"

definition zeros :: "int \<Rightarrow> string" where "zeros n = replicate (nat n) CHR ''0''"

definition format_digits :: "bool \<Rightarrow> string \<Rightarrow> int \<Rightarrow> string" where
  "format_digits exponent ds e =
     (let dp = int (length ds) + e in
      if exponent then
        [hd ds] @ (if tl ds = [] then [] else ''.'' @ tl ds) @ ''e'' @ (if dp - 1 < 0 then ''-'' else ''+'') @ dec (nat \<bar>dp - 1\<bar>)
      else if 0 \<le> e then ds @ zeros e
      else if 0 < dp then take (nat dp) ds @ ''.'' @ drop (nat dp) ds
      else ''0.'' @ zeros (- dp) @ ds)"

definition format_positive :: "rat \<Rightarrow> string" where
  "format_positive q = (case shortest q of (c, e) \<Rightarrow>
     format_digits (Fin q < f64_of_rat (1 / 10 ^ 6) \<or> Fin (10 ^ 21) \<le> Fin q) (dec (nat c)) e)"

text \<open>\<open>None\<close> where the encoder fails: not-a-number and the infinities.\<close>

definition json_float :: "f64 \<Rightarrow> string option" where
  "json_float x = (case x of
     Fin q \<Rightarrow> Some (if q = 0 then ''0'' else (if q < 0 then ''-'' else []) @ format_positive \<bar>q\<bar>)
   | _ \<Rightarrow> None)"

subsection \<open>Seventeen digits are enough\<close>

lemma pow_int_add: "0 < b \<Longrightarrow> pow_int b (i + j) = pow_int b i * pow_int b j"
proof -
  assume "0 < b"
  have eq: "pow_int b i = of_nat b powi i" for i by (simp add: pow_int_def power_int_def field_simps)
  show ?thesis unfolding eq using \<open>0 < b\<close> by (simp add: power_int_add)
qed

lemma pow_int_pos: "0 < pow_int 10 e"
  by (simp add: pow_int_def)

lemma pow_int_cancel: "pow_int 10 (- e) * pow_int 10 e = 1" "pow_int 10 e * pow_int 10 (- e) = 1"
  by (simp_all flip: pow_int_add add: pow_int_def)

lemma length_dec_bound: "0 < n \<Longrightarrow> 10 ^ (length (dec n) - 1) \<le> n"
proof (induction n rule: dec.induct)
  case (1 n)
  show ?case
  proof (cases "n < 10")
    case True
    then show ?thesis using 1 by (subst dec.simps) simp
  next
    case False
    then have "10 ^ (length (dec (n div 10)) - 1) \<le> n div 10" using 1 by simp
    moreover have "length (dec (n div 10)) - 1 + 1 = length (dec (n div 10))" using dec_not_Nil [of "n div 10"] by (simp add: Suc_leI)
    then have "10 * 10 ^ (length (dec (n div 10)) - 1) = (10 :: nat) ^ length (dec (n div 10))"
      by (metis Suc_eq_plus1 power_Suc)
    ultimately have "10 ^ length (dec (n div 10)) \<le> n" by linarith
    then show ?thesis using False by (subst dec.simps) simp
  qed
qed

lemma ten_two: "1 / 10 ^ 399 \<le> two_powi (- 1074)"
  by (simp add: two_powi_def)

lemma dec_exponent_low:
  assumes "0 < q" "round64 q = q"
  shows "pow_int 10 (dec_exponent q - 1) \<le> q"
proof (cases "1 \<le> q")
  case True
  define n where "n = nat \<lfloor>q\<rfloor>"
  have n: "0 < n" "of_nat n \<le> q" using True by (simp_all add: n_def)
  have "(10 :: rat) ^ (length (dec n) - 1) \<le> of_nat n"
    using length_dec_bound [OF n(1)] by (metis of_nat_le_iff of_nat_numeral of_nat_power)
  then have "(10 :: rat) ^ (length (dec n) - 1) \<le> q" using n(2) by linarith
  moreover have "1 \<le> length (dec n)" using dec_not_Nil [of n] by (simp add: Suc_leI)
  ultimately show ?thesis using True
    by (simp add: dec_exponent_def n_def [symmetric] pow_int_def nat_diff_distrib')
next
  case False
  have "1 \<le> q * 10 ^ 399"
    using round64_fix_ge [OF assms] ten_two by (simp add: field_simps)
  then have "find (\<lambda>k. 1 \<le> q * 10 ^ (k + 1)) [0..<400] \<noteq> None"
    unfolding find_None_iff not_not by (intro exI [of _ 398]) simp
  then obtain k where k: "find (\<lambda>k. 1 \<le> q * 10 ^ (k + 1)) [0..<400] = Some k" by blast
  then have "1 \<le> q * 10 ^ (k + 1)" by (auto simp: find_Some_iff)
  then show ?thesis using False k by (simp add: dec_exponent_def pow_int_def nat_add_distrib field_simps)
qed

lemma f64_of_rat_round64: "f64_of_rat p = (if round64 p = q \<and> \<bar>q\<bar> < overflow64 then Fin q else f64_of_rat p)"
  by (auto simp: f64_of_rat_def Let_def abs_if split: if_splits)

lemma seventeen_digits:
  assumes "0 < q" "is_fin (Fin q)"
  shows "digits_upto q (dec_exponent q) 17 \<noteq> None"
proof -
  have rd: "round64 q = q" "\<bar>q\<bar> < overflow64"
    using assms by (auto simp: is_fin_def f64_of_rat_def Let_def split: if_splits)
  define e where "e = dec_exponent q - 17"
  define x where "x = q * pow_int 10 (- e)"
  define c where "c = round_half_even x"
  have "pow_int 10 e * 10 ^ 16 \<le> q"
    using dec_exponent_low [OF assms(1) rd(1)] pow_int_add [of 10 e 16] by (simp add: e_def pow_int_def [of 10 16])
  then have unit: "pow_int 10 e \<le> q / 10 ^ 16" by (simp add: field_simps)
  have "of_int c * pow_int 10 e - q = (of_int c - x) * pow_int 10 e"
    using pow_int_cancel(1) [of e] by (simp add: x_def left_diff_distrib mult.assoc)
  then have "\<bar>of_int c * pow_int 10 e - q\<bar> = \<bar>of_int c - x\<bar> * pow_int 10 e"
    using pow_int_pos [of e] by (simp add: abs_mult)
  also have "\<dots> \<le> 1 / 2 * pow_int 10 e"
    unfolding c_def using round_half_even_near [of x] pow_int_pos [of e] by (intro mult_right_mono) auto
  also have "\<dots> \<le> 1 / 2 * (q / 10 ^ 16)" using unit by simp
  also have "\<dots> < q * two_powi (- 54)" using assms(1) by (simp add: two_powi_def)
  finally have "round64 (of_int c * pow_int 10 e) = q" using round64_near [OF assms(1) rd(1)] by blast
  then have "reads_as q c e" unfolding reads_as_def using rd(2) by (subst f64_of_rat_round64 [of _ q]) simp
  moreover have "c = \<lfloor>x\<rfloor> \<or> c = \<lfloor>x\<rfloor> + 1" unfolding c_def using round_half_even_bounds [of x] by linarith
  ultimately show ?thesis by (auto simp: digits_upto_def Let_def e_def [symmetric] x_def [symmetric])
qed

subsection \<open>Reading a written number\<close>

lemma strip_zeros_value: "strip_zeros c e = (c', e') \<Longrightarrow> of_int c' * pow_int 10 e' = of_int c * pow_int 10 e"
proof (induction c e rule: strip_zeros.induct)
  case (1 c e)
  show ?case
  proof (cases "0 < c \<and> c mod 10 = 0")
    case True
    then have "of_int c' * pow_int 10 e' = of_int (c div 10) * pow_int 10 (e + 1)"
      using 1 by (simp add: strip_zeros.simps [of c e])
    also have "\<dots> = of_int (c div 10 * 10) * pow_int 10 e" using pow_int_add [of 10 e 1] by (simp add: pow_int_def [of 10 1])
    also have "c div 10 * 10 = c" using True div_mult_mod_eq [of c 10] by linarith
    finally show ?thesis .
  next
    case False
    then show ?thesis using "1.prems" by (auto simp: strip_zeros.simps [of c e])
  qed
qed

lemma strip_zeros_pos: "strip_zeros c e = (c', e') \<Longrightarrow> 0 < c \<Longrightarrow> 0 < c'"
proof (induction c e rule: strip_zeros.induct)
  case (1 c e)
  show ?case
  proof (cases "0 < c \<and> c mod 10 = 0")
    case True
    then have "0 < c div 10" by presburger
    then show ?thesis using 1 True by (simp add: strip_zeros.simps [of c e])
  next
    case False
    then show ?thesis using "1.prems" by (auto simp: strip_zeros.simps [of c e])
  qed
qed

lemma digits_upto_reads: "digits_upto q p n = Some c \<Longrightarrow> reads_as q c (p - int n)"
proof -
  assume *: "digits_upto q p n = Some c"
  define e where "e = p - int n"
  define x where "x = q * pow_int 10 (- e)"
  have "round_half_even x = \<lfloor>x\<rfloor> \<or> round_half_even x = \<lfloor>x\<rfloor> + 1" using round_half_even_bounds [of x] by linarith
  then show ?thesis using * unfolding digits_upto_def Let_def e_def [symmetric] x_def [symmetric] by (auto split: if_splits)
qed

lemma shortest_reads:
  assumes "0 < q" "is_fin (Fin q)" "shortest q = (c, e)"
  shows "f64_of_rat (of_int c * pow_int 10 e) = Fin q" "0 < c"
proof -
  let ?p = "dec_exponent q"
  have "find (\<lambda>n. digits_upto q ?p n \<noteq> None) [1..<18] \<noteq> None"
    unfolding find_None_iff not_not by (intro exI [of _ 17]) (simp add: seventeen_digits assms(1,2))
  then obtain n where n: "find (\<lambda>n. digits_upto q ?p n \<noteq> None) [1..<18] = Some n" by blast
  then obtain c0 where c0: "digits_upto q ?p n = Some c0" by (auto simp: find_Some_iff)
  have s: "strip_zeros c0 (?p - int n) = (c, e)" using assms(3) n c0 by (simp add: shortest_def)
  have r: "reads_as q c0 (?p - int n)" by (rule digits_upto_reads [OF c0])
  then show "f64_of_rat (of_int c * pow_int 10 e) = Fin q" using strip_zeros_value [OF s] by (simp add: reads_as_def)
  have "0 < c0"
  proof (rule ccontr)
    assume "\<not> 0 < c0"
    then have "of_int c0 * pow_int 10 (?p - int n) \<le> 0" using pow_int_pos [of "?p - int n"] by (simp add: mult_nonpos_nonneg)
    then have "f64_of_rat (of_int c0 * pow_int 10 (?p - int n)) \<le> f64_of_rat 0" by (rule f64_of_rat_mono)
    then show False using r assms(1) by (simp add: reads_as_def)
  qed
  then show "0 < c" by (rule strip_zeros_pos [OF s])
qed

text \<open>The shape of the texts: digits, a fraction, an exponent. Both the JSON scanner and \<open>ParseFloat\<close>
  take them whole.\<close>

definition number_text :: "bool \<Rightarrow> string \<Rightarrow> string \<Rightarrow> int option \<Rightarrow> string" where
  "number_text neg a b x = (if neg then ''-'' else []) @ a @ (if b = [] then [] else ''.'' @ b) @
     (case x of None \<Rightarrow> [] | Some x \<Rightarrow> ''e'' @ (if x < 0 then ''-'' else ''+'') @ dec (nat \<bar>x\<bar>))"

definition number_parts :: "string \<Rightarrow> string \<Rightarrow> bool" where
  "number_parts a b \<longleftrightarrow> a \<noteq> [] \<and> list_all is_digit a \<and> list_all is_digit b \<and> (hd a = CHR ''0'' \<longrightarrow> tl a = [])"

lemma split_digits_run:
  "list_all is_digit ds \<Longrightarrow> (s = [] \<or> \<not> is_digit (hd s)) \<Longrightarrow> split_digits (ds @ s) = (ds, s)"
  by (cases s) (auto simp: split_digits_def list_all_iff)

lemma exp_part_text:
  assumes "r = [] \<or> \<not> is_digit (hd r) \<and> hd r \<noteq> CHR ''e'' \<and> hd r \<noteq> CHR ''E''"
  shows "exp_part ((case x of None \<Rightarrow> [] | Some x \<Rightarrow> ''e'' @ (if x < 0 then ''-'' else ''+'') @ dec (nat \<bar>x\<bar>)) @ r) =
    Some (case x of None \<Rightarrow> [] | Some x \<Rightarrow> ''e'' @ (if x < 0 then ''-'' else ''+'') @ dec (nat \<bar>x\<bar>), r)"
proof (cases x)
  case None
  then show ?thesis using assms by (cases r) (auto simp: exp_part_def)
next
  case (Some y)
  have "split_digits (dec n @ r) = (dec n, r)" for n using assms digits_shape by (intro split_digits_run) auto
  then show ?thesis using Some by (simp add: exp_part_def)
qed

lemma scan_number_text:
  assumes "number_parts a b" "r = [] \<or> \<not> is_digit (hd r) \<and> hd r \<noteq> CHR ''e'' \<and> hd r \<noteq> CHR ''E'' \<and> hd r \<noteq> CHR ''.''"
  shows "scan_number (number_text neg a b x @ r) = Some (number_text neg a b x, r)"
proof -
  define E where "E = (case x of None \<Rightarrow> [] | Some x \<Rightarrow> ''e'' @ (if x < 0 then ''-'' else ''+'') @ dec (nat \<bar>x\<bar>))"
  have E: "E = [] \<or> hd E = CHR ''e''" by (auto simp: E_def split: option.split)
  have exp: "exp_part (E @ r) = Some (E, r)" unfolding E_def by (rule exp_part_text) (use assms(2) in auto)
  define F where "F = (if b = [] then [] else ''.'' @ b)"
  have frac: "frac_part (F @ E @ r) = Some (F, E @ r)"
  proof (cases "b = []")
    case True
    have "E @ r = [] \<or> hd (E @ r) \<noteq> CHR ''.''" using E assms(2) by (auto simp: hd_append)
    then show ?thesis using True by (cases "E @ r") (auto simp: F_def frac_part_def)
  next
    case False
    have "split_digits (b @ E @ r) = (b, E @ r)"
      using assms E by (intro split_digits_run) (auto simp: number_parts_def is_digit_def hd_append)
    then show ?thesis using False by (simp add: F_def frac_part_def)
  qed
  have stop: "F @ E @ r = [] \<or> \<not> is_digit (hd (F @ E @ r))"
    using E assms(2) by (auto simp: F_def is_digit_def hd_append)
  obtain c t where a: "a = c # t" "is_digit c" using assms(1) by (cases a) (auto simp: number_parts_def)
  have int: "int_part (a @ F @ E @ r) = Some (a, F @ E @ r)"
  proof (cases "c = CHR ''0''")
    case True
    then show ?thesis using a assms(1) by (simp add: number_parts_def int_part_def)
  next
    case False
    have "split_digits (a @ F @ E @ r) = (a, F @ E @ r)" using stop assms(1) by (intro split_digits_run) (auto simp: number_parts_def)
    then show ?thesis using False a by (simp add: int_part_def)
  qed
  have "c \<noteq> CHR ''-''" using a(2) by (auto simp: is_digit_def)
  then show ?thesis
    using int frac exp a unfolding number_text_def E_def [symmetric] F_def [symmetric]
    by (cases neg) (simp_all add: scan_number_def)
qed


lemma scan_exponent_digits:
  "list_all is_digit ds \<Longrightarrow> e * 10 ^ length ds + int (undec ds) < 10000 \<Longrightarrow> 0 \<le> e \<Longrightarrow>
    scan_exponent e ds = Some (e * 10 ^ length ds + int (undec ds))"
proof (induction ds arbitrary: e)
  case (Cons c ds)
  have "e * 1 \<le> e * (10 * 10 ^ length ds)" using Cons.prems(3) by (intro mult_left_mono) (use one_le_power [of "10 :: int" "Suc (length ds)"] in simp_all)
  then have "e < 10000" using Cons.prems(2) by simp
  then show ?case using Cons by (simp add: digit_not_mark undec_Cons algebra_simps)
qed simp

lemma read_exponent_text:
  assumes "\<bar>y\<bar> < 10000"
  shows "read_exponent False (''e'' @ (if y < 0 then ''-'' else ''+'') @ dec (nat \<bar>y\<bar>)) = Some y"
proof -
  have e: "scan_exponent 0 (dec (nat \<bar>y\<bar>)) = Some \<bar>y\<bar>"
    using scan_exponent_digits [of "dec (nat \<bar>y\<bar>)" 0] digits_shape assms by simp
  have "lower_char CHR ''e'' = CHR ''e''" by (simp add: lower_char_def Let_def)
  then show ?thesis using e hd_dec [of "nat \<bar>y\<bar>"]
    by (cases "y < 0") (simp_all add: read_exponent_def unsign_def)
qed

lemma readFloat_text:
  assumes "number_parts a b" "\<And>y. x = Some y \<Longrightarrow> \<bar>y\<bar> < 10000"
  shows "readFloat (number_text neg a b x) = Some ((if neg then - 1 else 1) * of_nat (undec (a @ b)) *
    pow_int 10 ((case x of None \<Rightarrow> 0 | Some y \<Rightarrow> y) - int (length b)))"
proof -
  define E where "E = (case x of None \<Rightarrow> [] | Some x \<Rightarrow> ''e'' @ (if x < 0 then ''-'' else ''+'') @ dec (nat \<bar>x\<bar>))"
  define t where "t = a @ (if b = [] then [] else ''.'' @ b) @ E"
  obtain c a' where a: "a = c # a'" "is_digit c" using assms(1) by (cases a) (auto simp: number_parts_def)
  have s: "number_text neg a b x = (if neg then ''-'' else []) @ t" by (simp add: number_text_def t_def E_def)
  have u: "unsign (number_text neg a b x) = (neg, t)"
    unfolding s using a by (cases neg) (simp_all add: unsign_minus unsign_digit t_def)
  have e: "read_exponent False E = Some (case x of None \<Rightarrow> 0 | Some y \<Rightarrow> y)"
  proof (cases x)
    case (Some y)
    have "E = ''e'' @ (if y < 0 then ''-'' else ''+'') @ dec (nat \<bar>y\<bar>)" by (simp only: E_def Some option.case)
    then show ?thesis using read_exponent_text [OF assms(2) [OF Some]] by (simp only: Some option.case)
  qed (simp add: E_def read_exponent_def)
  have mant: "scan_mantissa False False 0 0 False t = (int (undec (a @ b)), length b, True, E)"
  proof -
    have E': "scan_mantissa False d m k True E = (m, k, True, E)" for d m k
      by (cases x) (simp_all add: E_def digit_value_def is_digit_def lower_char_def Let_def)
    have ab: "int (undec (a @ b)) = int (undec a) * 10 ^ length b + int (undec b)"
    proof (induction b rule: rev_induct)
      case (snoc d b)
      have "undec (a @ b @ [d]) = 10 * undec (a @ b) + char_digit d" using undec_snoc [of "a @ b" d] by simp
      then show ?case using snoc by simp
    qed simp
    show ?thesis
    proof (cases "b = []")
      case True
      then show ?thesis using scan_mantissa_digits [of a False 0 0 False E] assms(1) a E'
        by (simp add: t_def number_parts_def)
    next
      case False
      have "scan_mantissa False False 0 0 False t = scan_mantissa False True (int (undec a)) 0 True (b @ E)"
        using scan_mantissa_digits [of a False 0 0 False "''.'' @ b @ E"] assms(1) a False by (simp add: t_def number_parts_def)
      then show ?thesis using scan_mantissa_digits [of b True "int (undec a)" 0 True E] assms(1) E' ab by (simp add: number_parts_def)
    qed
  qed
  have digits: "d \<in> set t \<Longrightarrow> is_digit d \<or> d \<in> {CHR ''.'', CHR ''e'', CHR ''-'', CHR ''+''}" for d
    using assms(1) digits_shape(1) by (auto simp: t_def E_def number_parts_def list_all_iff split: option.splits if_splits)
  have "CHR ''_'' \<notin> set (number_text neg a b x)" using digits [of "CHR ''_''"] by (auto simp: s is_digit_def)
  moreover have hex: "\<not> (length t > 2 \<and> hd t = CHR ''0'' \<and> lower_char (t ! 1) = CHR ''x'')"
  proof
    assume h: "length t > 2 \<and> hd t = CHR ''0'' \<and> lower_char (t ! 1) = CHR ''x''"
    then show False using digits [OF nth_mem, of 1] by (auto simp: is_digit_def lower_char_def Let_def split: if_splits)
  qed
  ultimately show ?thesis
    unfolding readFloat_def u prod.case Let_def if_not_P [OF hex] using hex by (auto simp: mant e)
qed

lemma ParseFloat_text:
  assumes "number_parts a b" "\<And>y. x = Some y \<Longrightarrow> \<bar>y\<bar> < 10000"
    "f64_of_rat ((if neg then - 1 else 1) * of_nat (undec (a @ b)) * pow_int 10 ((case x of None \<Rightarrow> 0 | Some y \<Rightarrow> y) - int (length b))) = Fin q"
  shows "ParseFloat (number_text neg a b x) = Some (Fin q)"
proof -
  obtain c a' where a: "a = c # a'" "is_digit c" using assms(1) by (cases a) (auto simp: number_parts_def)
  have low: "lower_char c = c" "lower_char CHR ''-'' = CHR ''-''" using a(2) by (simp_all add: is_digit_def lower_char_def Let_def)
  have "map lower_char (number_text neg a b x) \<notin> {''inf'', ''+inf'', ''infinity'', ''+infinity''} \<union> {''-inf'', ''-infinity''} \<union> {''nan''}"
    using a by (cases neg) (auto simp: number_text_def low is_digit_def)
  then show ?thesis unfolding ParseFloat_def Let_def using readFloat_text [where neg = neg, OF assms(1,2)] assms(3) by auto
qed

end
