(* ===== verification/FloatRoundtrip.thy ===== *)
theory FloatRoundtrip
  imports FloatText
begin

section \<open>A written number is read back\<close>

lemma undec_append: "undec (a @ b) = undec a * 10 ^ length b + undec b"
proof (induction b rule: rev_induct)
  case (snoc d b)
  have "undec (a @ b @ [d]) = 10 * undec (a @ b) + char_digit d" using undec_snoc [of "a @ b" d] by simp
  then show ?case using snoc by simp
qed simp

lemma undec_zeros: "undec (replicate n CHR ''0'') = 0"
  by (induction n) (simp_all add: undec_Cons char_digit_def)

lemma hd_dec_nonzero: "0 < n \<Longrightarrow> hd (dec n) \<noteq> CHR ''0''"
proof (induction n rule: dec.induct)
  case (1 n)
  show ?case
  proof (cases "n < 10")
    case True
    have "char_digit (digit_char n) = n" using True by simp
    then have "digit_char n \<noteq> CHR ''0''" using 1(2) by (auto simp: char_digit_def)
    then show ?thesis using True by (subst dec.simps) simp
  next
    case False
    then have "hd (dec (n div 10)) \<noteq> CHR ''0''" using 1 by simp
    then show ?thesis using False dec_not_Nil [of "n div 10"] by (subst dec.simps) (simp add: hd_append)
  qed
qed

lemma length_dec_above: "n < 10 ^ length (dec n)"
proof (induction n rule: dec.induct)
  case (1 n)
  show ?case
  proof (cases "n < 10")
    case True
    then show ?thesis by (subst dec.simps) simp
  next
    case False
    then have "n div 10 < 10 ^ length (dec (n div 10))" using 1 by simp
    then have "n < 10 * 10 ^ length (dec (n div 10))" by linarith
    then show ?thesis using False by (subst dec.simps) simp
  qed
qed

lemma zeros_shape: "list_all is_digit (zeros n)"
  by (simp add: zeros_def list_all_iff is_digit_def)

lemma format_digits_text:
  fixes n :: nat and e :: int
  assumes "0 < n"
  defines "dp \<equiv> int (length (dec n)) + e"
  obtains a b x where "format_digits ex (dec n) e = number_text False a b x" "number_parts a b"
    "of_nat (undec (a @ b)) * pow_int 10 ((case x of None \<Rightarrow> 0 | Some y \<Rightarrow> y) - int (length b)) = of_nat n * pow_int 10 e"
    "x = None \<or> x = Some (dp - 1)"
proof -
  let ?ds = "dec n"
  note all = digits_shape(1) [of n]
  have ne: "?ds \<noteq> []" "hd ?ds \<noteq> CHR ''0''" using hd_dec_nonzero [OF assms(1)] by simp_all
  consider "ex" | "\<not> ex" "0 \<le> e" | "\<not> ex" "e < 0" "0 < dp" | "\<not> ex" "e < 0" "dp \<le> 0" by linarith
  then show ?thesis
  proof cases
    case 1
    have "[hd ?ds] @ tl ?ds = ?ds" using ne by simp
    then have "undec ([hd ?ds] @ tl ?ds) = n" by (metis undec_dec)
    moreover have "dp - 1 - int (length (tl ?ds)) = e" using ne by (simp add: dp_def Suc_le_eq of_nat_diff)
    moreover have "list_all is_digit (tl ?ds)" using all by (cases ?ds) simp_all
    ultimately show ?thesis using 1 ne hd_dec [of n]
      by (intro that [of "[hd ?ds]" "tl ?ds" "Some (dp - 1)"])
        (auto simp: format_digits_def Let_def number_text_def number_parts_def dp_def)
  next
    case 2
    have "of_nat (undec (?ds @ zeros e)) = (of_nat n * pow_int 10 e :: rat)"
      using 2 by (simp add: undec_append zeros_def undec_zeros pow_int_def)
    then show ?thesis using 2 ne all zeros_shape
      by (intro that [of "?ds @ zeros e" "[]" None])
        (auto simp: format_digits_def Let_def number_text_def number_parts_def dp_def pow_int_def [of 10 0])
  next
    case 3
    let ?k = "nat dp"
    have k: "0 < ?k" "?k < length ?ds" using 3 by (simp_all add: dp_def)
    then have "hd (take ?k ?ds) \<noteq> CHR ''0''" "take ?k ?ds \<noteq> []" using ne by (simp_all add: hd_take)
    moreover have "list_all is_digit (take ?k ?ds)" "list_all is_digit (drop ?k ?ds)"
      using all by (auto simp: list_all_iff dest: in_set_takeD in_set_dropD)
    moreover have "- int (length (drop ?k ?ds)) = e" using k 3 by (simp add: dp_def)
    ultimately show ?thesis using 3 k
      by (intro that [of "take ?k ?ds" "drop ?k ?ds" None])
        (auto simp: format_digits_def Let_def number_text_def number_parts_def dp_def)
  next
    case 4
    let ?z = "zeros (- dp)"
    have "undec (''0'' @ ?z @ ?ds) = n" by (simp add: undec_append zeros_def undec_zeros undec_Cons char_digit_def)
    moreover have "- int (length (?z @ ?ds)) = e" using 4 by (simp add: dp_def zeros_def)
    ultimately show ?thesis using 4 ne all zeros_shape
      by (intro that [of "''0''" "?z @ ?ds" None])
        (auto simp: format_digits_def Let_def number_text_def number_parts_def dp_def is_digit_def)
  qed
qed

lemma rounds_to_zero: "0 \<le> v \<Longrightarrow> v \<le> two_powi (- 1076) \<Longrightarrow> round64 v = 0"
proof -
  assume v: "0 \<le> v" "v \<le> two_powi (- 1076)"
  have e: "exponent64 (two_powi (- 1076)) = - 1074" using two_powi_pos [of "- 1076"] by (simp add: exponent64_def abs_of_pos)
  have "two_powi (- 1076) * two_powi 1074 = 1 / 4"
    using two_powi_add [of "- 1076" 1074] by (simp add: two_powi_def [of "- 2"])
  moreover have "\<lfloor>1 / 4 :: rat\<rfloor> = 0" by (simp add: floor_eq_iff)
  ultimately have "round_half_even (two_powi (- 1076) * two_powi 1074) = 0"
    by (simp only:) (simp add: round_half_even_def)
  then have "round64 (two_powi (- 1076)) = 0" by (simp add: round64_def e)
  then show "round64 v = 0" using round64_mono [OF v(2)] round64_nonneg [OF v(1)] by simp
qed

text \<open>The exponent of a finite positive value, far from the scanner's limit.\<close>

lemma value_exponent:
  assumes "f64_of_rat (of_nat n * pow_int 10 e) = Fin q" "0 < q" "0 < n"
  shows "\<bar>int (length (dec n)) + e - 1\<bar> < 10000"
proof -
  define dp v where "dp = int (length (dec n)) + e" and "v = of_nat n * pow_int 10 e"
  have pos: "0 < pow_int 10 e" by (rule pow_int_pos)
  have r: "round64 v = q" "q < overflow64"
    using assms(1) by (auto simp: v_def f64_of_rat_def Let_def split: if_splits)
  have len: "1 \<le> length (dec n)" using dec_not_Nil [of n] by (simp add: Suc_leI)
  have ten: "pow_int 10 (int k) = (of_nat (10 ^ k) :: rat)" for k by (simp add: pow_int_def)
  have "of_nat (10 ^ (length (dec n) - 1)) * pow_int 10 e \<le> v"
    unfolding v_def using length_dec_bound [OF assms(3)] pos by (intro mult_right_mono) (simp_all only: of_nat_le_iff less_imp_le)
  then have low: "pow_int 10 (dp - 1) \<le> v"
    using len pow_int_add [of 10 "int (length (dec n) - 1)" e] ten [of "length (dec n) - 1"]
    by (simp add: dp_def of_nat_diff algebra_simps del: of_nat_power)
  have "v < of_nat (10 ^ length (dec n)) * pow_int 10 e"
    unfolding v_def using length_dec_above [of n] pos by (intro mult_strict_right_mono) (simp_all only: of_nat_less_iff)
  then have up: "v < pow_int 10 dp"
    using pow_int_add [of 10 "int (length (dec n))" e] ten [of "length (dec n)"] by (simp add: dp_def del: of_nat_power)
  have mono: "i \<le> j \<Longrightarrow> pow_int 10 i \<le> pow_int 10 j" for i j
    using pow_int_add [of 10 i "j - i"] pow_int_pos [of i] one_le_power [of "10 :: rat" "nat (j - i)"]
    by (simp add: pow_int_def [of 10 "j - i"])
  have "dp - 1 < 400"
  proof (rule ccontr)
    assume "\<not> dp - 1 < 400"
    then have "pow_int 10 400 \<le> v" using mono [of 400 "dp - 1"] low by linarith
    moreover have "two_powi 1024 \<le> pow_int 10 400" by (simp add: two_powi_def pow_int_def)
    ultimately have "round64 (two_powi 1024) \<le> q" using round64_mono [of "two_powi 1024" v] r(1) by simp
    moreover have "round64 (two_powi 1024) = two_powi 1024" using round64_dyadic [of 1 1024] by simp
    moreover have "two_powi 1024 = overflow64" by (simp add: two_powi_def overflow64_def)
    ultimately show False using r(2) by simp
  qed
  moreover have "- 400 < dp"
  proof (rule ccontr)
    assume "\<not> - 400 < dp"
    then have "v \<le> pow_int 10 (- 400)" using mono [of dp "- 400"] up by linarith
    moreover have "pow_int 10 (- 400) \<le> two_powi (- 1076)" by (simp add: two_powi_def pow_int_def)
    ultimately have "round64 v = 0" using low pow_int_pos [of "dp - 1"] by (intro rounds_to_zero) linarith+
    then show False using r(1) assms(2) by simp
  qed
  ultimately show ?thesis by (simp add: dp_def)
qed

lemma f64_of_rat_uminus: "f64_of_rat p = Fin q \<Longrightarrow> f64_of_rat (- p) = Fin (- q)"
  by (auto simp: f64_of_rat_def Let_def round64_uminus split: if_splits)

theorem json_float_reads:
  assumes "is_fin x"
  obtains t neg a b y where "json_float x = Some t" "t = number_text neg a b y" "number_parts a b" "ParseFloat t = Some x"
proof -
  obtain q where x: "x = Fin q" "f64_of_rat q = Fin q" using assms by (rule is_finE)
  show ?thesis
  proof (cases "q = 0")
    case True
    have p: "number_parts ''0'' []" by (simp add: number_parts_def is_digit_def)
    have "ParseFloat (number_text False ''0'' [] None) = Some (Fin 0)"
      by (rule ParseFloat_text [OF p]) (simp_all add: undec_def char_digit_def zero_f64_def)
    then show ?thesis using True x p by (intro that [of "''0''" False "''0''" "[]" None]) (simp_all add: json_float_def number_text_def zero_f64_def)
  next
    case False
    define u where "u = \<bar>q\<bar>"
    have u: "0 < u" "is_fin (Fin u)"
      using False x(2) f64_of_rat_uminus [of q q] by (auto simp: u_def is_fin_def abs_if)
    obtain c e where ce: "shortest u = (c, e)" by fastforce
    note sh = shortest_reads [OF u ce]
    define n where "n = nat c"
    have n: "0 < n" "of_int c = (of_nat n :: rat)" using sh(2) by (simp_all add: n_def)
    obtain a b y where f: "format_digits (Fin u < f64_of_rat (1 / 10 ^ 6) \<or> Fin (10 ^ 21) \<le> Fin u) (dec n) e = number_text False a b y"
      and p: "number_parts a b"
      and v: "of_nat (undec (a @ b)) * pow_int 10 ((case y of None \<Rightarrow> 0 | Some y \<Rightarrow> y) - int (length b)) = of_nat n * pow_int 10 e"
      and y: "y = None \<or> y = Some (int (length (dec n)) + e - 1)"
      using format_digits_text [OF n(1)] by metis
    have fin: "f64_of_rat (of_nat n * pow_int 10 e) = Fin u" using sh(1) n(2) by simp
    have bound: "\<And>z. y = Some z \<Longrightarrow> \<bar>z\<bar> < 10000" using value_exponent [OF fin u(1) n(1)] y by auto
    let ?neg = "q < 0"
    have jf: "json_float x = Some (number_text ?neg a b y)"
      using False f by (simp add: json_float_def x format_positive_def u_def [symmetric] ce n_def [symmetric] number_text_def)
    have "f64_of_rat ((if ?neg then - 1 else 1) * of_nat (undec (a @ b)) * pow_int 10 ((case y of None \<Rightarrow> 0 | Some y \<Rightarrow> y) - int (length b))) = Fin q"
      using v fin f64_of_rat_uminus [OF fin] by (auto simp: u_def mult.assoc)
    then have "ParseFloat (number_text ?neg a b y) = Some x" unfolding x(1) by (intro ParseFloat_text [OF p]) (use bound in auto)
    then show ?thesis using that [OF jf refl p] by blast
  qed
qed

end
