(* ===== verification/JsonText.thy ===== *)
theory JsonText
  imports FloatRoundtrip
begin

section \<open>Writing JSON\<close>

text \<open>
  The text \<open>json.Marshal\<close> writes, without white space: strings with the escapes that are safe inside HTML,
  bytes that are not UTF-8 as the replacement character, numbers as they are given. What is written is read back by \<open>Json\<close> as the same
  value with its strings repaired (\<open>json_parse_text\<close>), so that writing and reading a struct
  reduces to its fields (\<open>store_next\<close>).
\<close>

subsection \<open>Strings\<close>

definition escape_u :: "nat \<Rightarrow> string" where
  "escape_u n = [CHR 0x5C, CHR ''u'', hex_digit (n div 4096 mod 16), hex_digit (n div 256 mod 16), hex_digit (n div 16 mod 16), hex_digit (n mod 16)]"

definition html_safe :: "char \<Rightarrow> bool" where
  "html_safe c \<longleftrightarrow> in_range 0x20 0x7F c \<and> c \<notin> {CHR 0x22, CHR 0x5C, CHR ''&'', CHR ''<'', CHR ''>''}"

definition escape_byte :: "char \<Rightarrow> string" where
  "escape_byte c =
     (if c = CHR 0x22 \<or> c = CHR 0x5C then [CHR 0x5C, c]
      else case map_of [(byte 8, CHR ''b''), (byte 12, CHR ''f''), (byte 10, CHR ''n''), (byte 13, CHR ''r''), (byte 9, CHR ''t'')] c of
        Some e \<Rightarrow> [CHR 0x5C, e]
      | None \<Rightarrow> escape_u (of_char c))"

function appendString :: "string \<Rightarrow> string" where
  "appendString s = (case s of
     [] \<Rightarrow> []
   | c # t \<Rightarrow>
       if in_range 0 0x7F c then (if html_safe c then [c] else escape_byte c) @ appendString t
       else let k = utf8_length s in
         if k = 0 then escape_u 0xFFFD @ appendString t
         else (if take k s = utf8_encode 0x2028 then escape_u 0x2028
               else if take k s = utf8_encode 0x2029 then escape_u 0x2029 else take k s) @ appendString (drop (max 1 k) s))"
  by pat_completeness auto
termination by (relation "measure length") auto

text \<open>A string as a reader gets it: valid UTF-8.\<close>

function utf8_repair :: "string \<Rightarrow> string" where
  "utf8_repair s = (case s of
     [] \<Rightarrow> []
   | c # t \<Rightarrow>
       if in_range 0 0x7F c then c # utf8_repair t
       else let k = utf8_length s in (if k = 0 then replacement else take k s) @ utf8_repair (drop (max 1 k) s))"
  by pat_completeness auto
termination by (relation "measure length") auto

declare appendString.simps [simp del] utf8_repair.simps [simp del]

definition quoted :: "string \<Rightarrow> string" where "quoted s = CHR 0x22 # appendString s @ [CHR 0x22]"

lemma utf8_length_prefix:
  assumes "utf8_length s = k" "0 < k"
  shows "utf8_length (take k s @ r) = k"
proof (cases s)
  case (Cons a t)
  obtain j lo hi where j: "rune_tail a = Some (j, lo, hi)" "j \<le> length t" "j = 0 \<or> in_range lo hi (hd t)"
      "list_all (in_range 0x80 0xBF) (take j t)" "k = Suc j"
    using assms Cons by (auto simp: utf8_length_def split: option.splits if_splits)
  have "hd (take j t @ r) = hd t" if "0 < j" using that j(2) by (cases t; cases j) simp_all
  then show ?thesis using j by (cases "j = 0") (simp_all add: Cons utf8_length_def)
qed (use assms in \<open>simp add: utf8_length_def\<close>)

lemma utf8_length_le: "utf8_length s \<le> length s"
  by (cases s) (auto simp: utf8_length_def split: option.split)

lemma digit_value_hex: "n < 16 \<Longrightarrow> digit_value True (hex_digit n) = Some n"
  by (auto simp: digit_value_def hex_digit_def lower_char_def is_digit_def Let_def)

lemma hex4_escape: "n < 65536 \<Longrightarrow> hex4 (drop 2 (escape_u n) @ r) = Some n"
proof -
  assume n: "n < 65536"
  have step: "16 * (m div 16) + m mod 16 = m" for m :: nat by simp
  have "n div 4096 mod 16 = n div 4096" "16 * (n div 4096) + n div 256 mod 16 = n div 256" "16 * (n div 256) + n div 16 mod 16 = n div 16"
    using n step [of "n div 256"] step [of "n div 16"] by (simp_all add: div_mult2_eq [symmetric])
  then have "16 * (16 * (16 * (n div 4096 mod 16) + n div 256 mod 16) + n div 16 mod 16) + n mod 16 = n"
    using step [of n] by (simp only:)
  moreover have "n div 4096 < 16" using n by simp
  ultimately show ?thesis by (simp add: hex4_def escape_u_def digit_value_hex)
qed

lemma unquote_escape_u:
  assumes "n < 65536" "\<not> (0xD800 \<le> n \<and> n < 0xE000)"
  shows "unquote (escape_u n @ r) = map_option (apfst (append (utf8_encode n))) (unquote r)"
proof -
  have "unicode_escape (drop 2 (escape_u n) @ r) = Some (utf8_encode n, 4)"
    using assms(2) by (auto simp: unicode_escape_def hex4_escape [OF assms(1)])
  then show ?thesis by (subst unquote.simps) (simp add: escape_u_def)
qed

lemma unquote_ascii:
  assumes "in_range 0x20 0x7F c" "c \<noteq> CHR 0x22" "c \<noteq> CHR 0x5C"
  shows "unquote (c # r) = map_option (apfst (Cons c)) (unquote r)"
proof -
  have "utf8_length (c # r) = 1" "\<not> in_range 0 0x1F c" using assms by (auto simp: utf8_length_def rune_tail_def in_range_def)
  moreover have "(@) [c] = (#) c" by auto
  ultimately show ?thesis using assms by (subst unquote.simps) simp
qed

lemma unquote_escape_byte:
  assumes "in_range 0 0x7F c" "\<not> html_safe c"
  shows "unquote (escape_byte c @ r) = map_option (apfst (Cons c)) (unquote r)"
proof (cases "c \<in> {CHR 0x22, CHR 0x5C, byte 8, byte 12, byte 10, byte 13, byte 9}")
  case True
  have *: "list_all (\<lambda>c. case escape_byte c of [b, e] \<Rightarrow> b = CHR 0x5C \<and> e \<noteq> CHR ''u'' \<and> simple_escape e = Some c | _ \<Rightarrow> False)
      [CHR 0x22, CHR 0x5C, byte 8, byte 12, byte 10, byte 13, byte 9]" by code_simp
  then obtain e where "escape_byte c = [CHR 0x5C, e]" "e \<noteq> CHR ''u''" "simple_escape e = Some c"
    using True by (auto simp: list_all_iff split: list.splits)
  then show ?thesis by (subst unquote.simps) simp
next
  case False
  then have "escape_byte c = escape_u (of_char c)" by (auto simp: escape_byte_def)
  moreover have "utf8_encode (of_char c) = [c]" "(of_char c :: nat) < 128" using assms by (auto simp: utf8_encode_def in_range_def byte_def)
  ultimately show ?thesis using unquote_escape_u [of "of_char c" r] by (simp add: append_Cons [abs_def])
qed

lemma unquote_rune:
  assumes "utf8_length s = k" "0 < k" "\<not> in_range 0 0x7F (hd s)"
  shows "unquote (take k s @ r) = map_option (apfst (append (take k s))) (unquote r)"
proof -
  obtain c t where s: "s = c # t" using assms by (cases s) (auto simp: utf8_length_def)
  obtain k' where k: "k = Suc k'" using assms(2) by (cases k) auto
  have "utf8_length (take k s @ r) = k" by (rule utf8_length_prefix [OF assms(1,2)])
  moreover have "length (take k s) = k" using utf8_length_le [of s] assms(1) by simp
  moreover have "c \<noteq> CHR 0x22" "c \<noteq> CHR 0x5C" "\<not> in_range 0 0x1F c" using assms(3) by (auto simp: s in_range_def)
  ultimately show ?thesis by (subst unquote.simps) (simp add: s k Let_def)
qed

lemma replacement_encode: "utf8_encode 0xFFFD = replacement"
  by (simp add: utf8_encode_def replacement_def)

lemma unquote_step:
  assumes "utf8_length s = k" "s \<noteq> []" "\<not> in_range 0 0x7F (hd s)"
  shows "unquote ((if k = 0 then escape_u 0xFFFD else if take k s = utf8_encode 0x2028 then escape_u 0x2028
      else if take k s = utf8_encode 0x2029 then escape_u 0x2029 else take k s) @ r) =
    map_option (apfst (append (if k = 0 then replacement else take k s))) (unquote r)"
  using unquote_escape_u [of 65533 r, unfolded replacement_encode] unquote_escape_u [of 8232 r] unquote_escape_u [of 8233 r]
    unquote_rune [OF assms(1) _ assms(3)]
  by (cases "k = 0"; cases "take k s = utf8_encode 0x2028"; cases "take k s = utf8_encode 0x2029") (simp_all only: if_True if_False, simp_all)

lemma unquote_appendString: "unquote (appendString s @ CHR 0x22 # r) = Some (utf8_repair s, r)"
proof (induction s rule: appendString.induct)
  case (1 s)
  show ?case
  proof (cases s)
    case Nil
    then show ?thesis by (simp add: appendString.simps utf8_repair.simps unquote.simps)
  next
    case (Cons c t)
    show ?thesis
    proof (cases "in_range 0 0x7F c")
      case True
      then have IH: "unquote (appendString t @ CHR 0x22 # r) = Some (utf8_repair t, r)" using 1 Cons by blast
      show ?thesis
        using True IH unquote_escape_byte [OF True] unquote_ascii [of c] unfolding Cons
        by (subst appendString.simps, subst utf8_repair.simps) (auto simp: html_safe_def)
    next
      case False
      define k where "k = utf8_length s"
      define d where "d = drop (max 1 k) s"
      define w where "w = (if k = 0 then escape_u 0xFFFD else if take k s = utf8_encode 0x2028 then escape_u 0x2028
        else if take k s = utf8_encode 0x2029 then escape_u 0x2029 else take k s)"
      define v where "v = (if k = 0 then replacement else take k s)"
      have IH: "unquote (appendString d @ CHR 0x22 # r) = Some (utf8_repair d, r)"
        using 1(2,3) Cons False k_def d_def by (cases "k = 0") auto
      have a: "appendString s = w @ appendString d"
        by (subst appendString.simps) (simp add: Cons False Let_def k_def d_def w_def)
      have b: "utf8_repair s = v @ utf8_repair d"
        by (subst utf8_repair.simps) (simp add: Cons False Let_def k_def d_def v_def)
      have "unquote (w @ u) = map_option (apfst (append v)) (unquote u)" for u
        unfolding w_def v_def by (rule unquote_step) (simp_all add: Cons k_def False)
      then show ?thesis by (simp add: a b IH)
    qed
  qed
qed

subsection \<open>Tokens of a text\<close>

lemma next_token_punctuation: "punctuation c = Some p \<Longrightarrow> \<not> json_space c \<Longrightarrow> next_token (c # s) = Some (p, s)"
  by (simp add: next_token_def)

lemma punctuation_simps [simp]:
  "punctuation CHR 0x7B = Some LBrace" "punctuation CHR 0x7D = Some RBrace" "punctuation CHR '','' = Some Comma"
  "punctuation CHR '':'' = Some Colon" "punctuation CHR 0x22 = None"
  by (simp_all add: punctuation_def)

lemma spaces_small: "json_space c \<Longrightarrow> of_char c \<le> (32 :: nat)"
  by (auto simp: json_space_def byte_def)

lemma json_space_simps [simp]:
  "\<not> json_space CHR 0x7B" "\<not> json_space CHR 0x7D" "\<not> json_space CHR '',''" "\<not> json_space CHR '':''" "\<not> json_space CHR 0x22"
  by (auto dest: spaces_small)

lemma next_token_number:
  assumes "number_parts a b" "r = [] \<or> \<not> is_digit (hd r) \<and> hd r \<noteq> CHR ''e'' \<and> hd r \<noteq> CHR ''E'' \<and> hd r \<noteq> CHR ''.''"
  shows "next_token (number_text neg a b x @ r) = Some (Scalar (JNum (number_text neg a b x)), r)"
proof -
  obtain d a' where a: "a = d # a'" "is_digit d" using assms(1) by (cases a) (auto simp: number_parts_def)
  obtain c t where c: "number_text neg a b x @ r = c # t" "c = CHR ''-'' \<or> is_digit c"
    using a by (cases neg) (auto simp: number_text_def)
  have n: "\<not> json_space c" "punctuation c = None" "c \<noteq> CHR 0x22" "c \<noteq> CHR ''t''" "c \<noteq> CHR ''f''" "c \<noteq> CHR ''n''"
    using c(2) by (auto simp: is_digit_def punctuation_def dest: spaces_small)
  then have "find (\<lambda>(w, v). take (length w) (c # t) = w) literals = None" by (auto simp: literals_def)
  then show ?thesis using n scan_number_text [OF assms, of neg x] unfolding c(1) by (simp add: next_token_def)
qed

lemma fmt_d_number: "\<exists>neg n. fmt_d i = number_text neg (dec n) [] None \<and> number_parts (dec n) []"
proof -
  have p: "number_parts (dec n) []" for n
  proof (cases "n = 0")
    case True
    then show ?thesis by (simp add: number_parts_def dec.simps)
  next
    case False
    then show ?thesis using hd_dec_nonzero [of n] digits_shape(1) by (simp add: number_parts_def)
  qed
  show ?thesis using p by (auto simp: fmt_d_def number_text_def intro: exI [of _ True] exI [of _ False])
qed

lemma json_run_cont:
  "next_token s = Some (t, r) \<Longrightarrow> json_step m st t = Continue m' st' \<Longrightarrow> json_run m st s = json_run m' st' r"
  "next_token s = Some (t, r) \<Longrightarrow> json_step m st t = Finish v \<Longrightarrow> json_run m st s = Some (v, r)"
  by (subst json_run.simps, simp)+

lemma brackets [simp]: "punctuation CHR 0x5B = Some LBracket" "punctuation CHR 0x5D = Some RBracket" "\<not> json_space CHR 0x5B" "\<not> json_space CHR 0x5D"
  by (auto simp: punctuation_def dest: spaces_small)

lemma unquote_plain:
  "list_all (\<lambda>c. in_range 0x20 0x7F c \<and> c \<noteq> CHR 0x22 \<and> c \<noteq> CHR 0x5C) k \<Longrightarrow> unquote (k @ CHR 0x22 # s) = Some (k, s)"
proof (induction k)
  case Nil
  then show ?case by (simp add: unquote.simps)
next
  case (Cons c k)
  then have "utf8_length (c # k @ CHR 0x22 # s) = 1" "\<not> in_range 0 0x1F c" by (auto simp: utf8_length_def rune_tail_def in_range_def)
  then show ?case using Cons by (subst unquote.simps) (simp add: Let_def)
qed

lemma next_token_string:
  assumes "list_all (\<lambda>c. in_range 0x20 0x7F c \<and> c \<noteq> CHR 0x22 \<and> c \<noteq> CHR 0x5C) k"
  shows "next_token (CHR 0x22 # k @ CHR 0x22 # s) = Some (Scalar (JStr k), s)"
  using unquote_plain [OF assms, of s] by (simp add: next_token_def)

definition is_number :: "string \<Rightarrow> bool" where
  "is_number t \<longleftrightarrow> (\<exists>neg a b x. t = number_text neg a b x \<and> number_parts a b)"

definition plain_name :: "string \<Rightarrow> bool" where
  "plain_name k \<longleftrightarrow> list_all (\<lambda>c. in_range 0x61 0x7A c \<or> c = CHR ''_'') k"

lemma next_token_numeral:
  assumes "is_number t" "r = [] \<or> \<not> is_digit (hd r) \<and> hd r \<noteq> CHR ''e'' \<and> hd r \<noteq> CHR ''E'' \<and> hd r \<noteq> CHR ''.''"
  shows "next_token (t @ r) = Some (Scalar (JNum t), r)"
proof -
  obtain neg a b x where t: "t = number_text neg a b x" "number_parts a b" using assms(1) by (auto simp: is_number_def)
  show ?thesis unfolding t(1) by (rule next_token_number [OF t(2) assms(2)])
qed

lemma plain_char:
  assumes "in_range 0x61 0x7A c \<or> c = CHR ''_''"
  shows "c \<noteq> byte 0xC5" "c \<noteq> byte 0xE2" "lower_char c = c"
proof -
  have n: "97 \<le> (of_char c :: nat) \<and> of_char c \<le> (122 :: nat) \<or> of_char c = (95 :: nat)" using assms by (auto simp: in_range_def)
  have b: "of_char (byte 0xC5) = (197 :: nat)" "of_char (byte 0xE2) = (226 :: nat)" by (simp_all add: byte_def)
  show "c \<noteq> byte 0xC5" using n b(1) by (intro notI) simp
  show "c \<noteq> byte 0xE2" using n b(2) by (intro notI) simp
  show "lower_char c = c" using n by (elim disjE conjE) (simp_all add: lower_char_def Let_def)
qed

lemma fold_name_plain: "plain_name k \<Longrightarrow> fold_name k = k"
proof (induction k)
  case (Cons c s)
  then have "plain_name s" "fold_name s = s" by (simp_all add: plain_name_def)
  moreover have "c \<noteq> byte 0xC5" "c \<noteq> byte 0xE2" "lower_char c = c"
    using plain_char [of c] Cons.prems by (simp_all add: plain_name_def)
  ultimately show ?case by (cases s) (simp_all del: fold_name.simps add: fold_name.simps(2) [of c "[]"] fold_name.simps(2) [of c "d # t" for d t])
qed simp

lemma is_number_fmt_d: "is_number (fmt_d i)"
  using fmt_d_number unfolding is_number_def by metis

lemma store_next:
  assumes "plain_name k" "find (\<lambda>(n, f). n = k) fs = Some (k, g)" "g v x = Some y"
  shows "store_fields fs (JObj ((k, v) # kvs)) x = store_fields fs (JObj kvs) y"
  using assms by (simp add: store_fields_def fold_name_plain del: fold_name.simps)

lemma store_nil: "store_fields fs (JObj []) x = Some x"
  by (simp add: store_fields_def)

subsection \<open>Values\<close>

fun join_with :: "string \<Rightarrow> string list \<Rightarrow> string" where
  "join_with sep [] = []"
| "join_with sep [x] = x"
| "join_with sep (x # y # xs) = x @ sep @ join_with sep (y # xs)"

primrec json_text :: "json \<Rightarrow> string" where
  "json_text JNull = ''null''"
| "json_text (JBool b) = (if b then ''true'' else ''false'')"
| "json_text (JNum t) = t"
| "json_text (JStr s) = quoted s"
| "json_text (JArr vs) = CHR 0x5B # join_with '','' (map json_text vs) @ [CHR 0x5D]"
| "json_text (JObj kvs) = CHR 0x7B # join_with '','' (map (\<lambda>(k, t). quoted k @ CHR '':'' # t) (map (map_prod id json_text) kvs)) @ [CHR 0x7D]"

text \<open>What a reader gets: strings and names repaired.\<close>

primrec json_repair :: "json \<Rightarrow> json" where
  "json_repair JNull = JNull"
| "json_repair (JBool b) = JBool b"
| "json_repair (JNum t) = JNum t"
| "json_repair (JStr s) = JStr (utf8_repair s)"
| "json_repair (JArr vs) = JArr (map json_repair vs)"
| "json_repair (JObj kvs) = JObj (map (map_prod utf8_repair id) (map (map_prod id json_repair) kvs))"

text \<open>Numbers are numbers, and arrays and objects nest at most \<open>n\<close> deep.\<close>

primrec writable :: "json \<Rightarrow> nat \<Rightarrow> bool" where
  "writable JNull n \<longleftrightarrow> True"
| "writable (JBool b) n \<longleftrightarrow> True"
| "writable (JNum t) n \<longleftrightarrow> is_number t"
| "writable (JStr s) n \<longleftrightarrow> True"
| "writable (JArr vs) n \<longleftrightarrow> n \<noteq> 0 \<and> list_all (\<lambda>w. w (n - 1)) (map writable vs)"
| "writable (JObj kvs) n \<longleftrightarrow> n \<noteq> 0 \<and> list_all (\<lambda>(k, w). w (n - 1)) (map (map_prod id writable) kvs)"

definition number_ends :: "string \<Rightarrow> bool" where
  "number_ends r \<longleftrightarrow> r = [] \<or> \<not> is_digit (hd r) \<and> hd r \<noteq> CHR ''e'' \<and> hd r \<noteq> CHR ''E'' \<and> hd r \<noteq> CHR ''.''"

lemma number_ends_simps [simp]:
  "number_ends []" "number_ends (CHR '','' # r)" "number_ends (CHR 0x5D # r)" "number_ends (CHR 0x7D # r)"
  by (simp_all add: number_ends_def is_digit_def)

definition resume :: "outcome \<Rightarrow> string \<Rightarrow> (json \<times> string) option" where
  "resume x r = (case x of Reject \<Rightarrow> None | Finish v \<Rightarrow> Some (v, r) | Continue m st \<Rightarrow> json_run m st r)"

lemma json_run_token: "next_token s = Some (t, r) \<Longrightarrow> json_run m st s = resume (json_step m st t) r"
  by (subst json_run.simps) (simp add: resume_def split: outcome.split)

lemma next_token_quoted: "next_token (quoted s @ r) = Some (Scalar (JStr (utf8_repair s)), r)"
  by (simp add: next_token_def quoted_def unquote_appendString)

definition value_mode :: "mode \<Rightarrow> bool" where "value_mode m \<longleftrightarrow> m = WantValue \<or> m = WantValueOrClose"
definition key_mode :: "mode \<Rightarrow> bool" where "key_mode m \<longleftrightarrow> m = WantKey \<or> m = WantKeyOrClose"

lemma value_mode_step: "value_mode m \<Longrightarrow> t \<noteq> RBracket \<Longrightarrow> json_step m st t = begin_value st t"
  by (auto simp: value_mode_def)

lemma key_mode_step: "key_mode m \<Longrightarrow> t \<noteq> RBrace \<Longrightarrow> json_step m st t = begin_key st t"
  by (auto simp: key_mode_def)

text \<open>\<open>reads v n\<close>: wherever a value is expected inside at most \<open>10000 - n\<close> frames, the text of \<open>v\<close> delivers the repaired \<open>v\<close>.\<close>

definition reads :: "json \<Rightarrow> nat \<Rightarrow> bool" where
  "reads v n \<longleftrightarrow> (\<forall>m st r. value_mode m \<longrightarrow> length st + n \<le> maxNestingDepth \<longrightarrow> number_ends r \<longrightarrow>
     json_run m st (json_text v @ r) = resume (deliver (json_repair v) st) r)"

lemma readsD: "reads v n \<Longrightarrow> value_mode m \<Longrightarrow> length st + n \<le> maxNestingDepth \<Longrightarrow> number_ends r \<Longrightarrow>
    json_run m st (json_text v @ r) = resume (deliver (json_repair v) st) r"
  by (simp add: reads_def)

lemma read_elements:
  assumes "vs \<noteq> []" "\<forall>v\<in>set vs. reads v n" "value_mode m" "Suc (length st) + n \<le> maxNestingDepth"
  shows "json_run m (ArrFrame acc # st) (join_with '','' (map json_text vs) @ CHR 0x5D # r) =
    resume (deliver (JArr (rev acc @ map json_repair vs)) st) r"
  using assms
proof (induction vs arbitrary: m acc rule: induct_list012)
  case (2 v)
  have "json_run m (ArrFrame acc # st) (json_text v @ CHR 0x5D # r) = json_run AfterValue (ArrFrame (json_repair v # acc) # st) (CHR 0x5D # r)"
    using 2 by (subst readsD [of v n]) (simp_all add: resume_def)
  also have "\<dots> = resume (deliver (JArr (rev acc @ [json_repair v])) st) r"
    by (subst json_run_token [of _ RBracket]) (simp_all add: next_token_punctuation end_frame_def)
  finally show ?case by simp
next
  case (3 v v' vs)
  define rest where "rest = join_with '','' (map json_text (v' # vs)) @ CHR 0x5D # r"
  have "json_run m (ArrFrame acc # st) (json_text v @ CHR '','' # rest) = json_run AfterValue (ArrFrame (json_repair v # acc) # st) (CHR '','' # rest)"
    using 3 by (subst readsD [of v n]) (simp_all add: resume_def)
  also have "\<dots> = json_run WantValue (ArrFrame (json_repair v # acc) # st) rest"
    by (subst json_run_token [of _ Comma]) (simp_all add: next_token_punctuation resume_def)
  also have "\<dots> = resume (deliver (JArr (rev (json_repair v # acc) @ map json_repair (v' # vs))) st) r"
    unfolding rest_def using 3 by (intro 3(2)) (auto simp: value_mode_def)
  finally show ?case by (simp add: rest_def)
qed simp

lemma read_member:
  assumes "reads v n" "key_mode m" "Suc (length st) + n \<le> maxNestingDepth" "number_ends r"
  shows "json_run m (ObjFrame acc x # st) (quoted k @ CHR '':'' # json_text v @ r) =
    json_run AfterValue (ObjFrame ((utf8_repair k, json_repair v) # acc) [] # st) r"
proof -
  have "json_run m (ObjFrame acc x # st) (quoted k @ CHR '':'' # json_text v @ r) =
      json_run WantColon (ObjFrame acc (utf8_repair k) # st) (CHR '':'' # json_text v @ r)"
    by (subst json_run_token [OF next_token_quoted]) (simp add: key_mode_step [OF assms(2)] begin_key_def resume_def)
  also have "\<dots> = json_run WantValue (ObjFrame acc (utf8_repair k) # st) (json_text v @ r)"
    by (subst json_run_token [of _ Colon]) (simp_all add: next_token_punctuation resume_def)
  also have "\<dots> = json_run AfterValue (ObjFrame ((utf8_repair k, json_repair v) # acc) [] # st) r"
    using assms by (subst readsD [of v n]) (simp_all add: value_mode_def resume_def)
  finally show ?thesis .
qed

lemma read_members:
  assumes "kvs \<noteq> []" "\<forall>(k, v)\<in>set kvs. reads v n" "key_mode m" "Suc (length st) + n \<le> maxNestingDepth"
  shows "json_run m (ObjFrame acc x # st) (join_with '','' (map (\<lambda>(k, v). quoted k @ CHR '':'' # json_text v) kvs) @ CHR 0x7D # r) =
    resume (deliver (JObj (rev acc @ map (map_prod utf8_repair json_repair) kvs)) st) r"
  using assms
proof (induction kvs arbitrary: m acc x rule: induct_list012)
  case (2 kv)
  obtain k v where kv: "kv = (k, v)" by (cases kv)
  have "json_run m (ObjFrame acc x # st) (quoted k @ CHR '':'' # json_text v @ CHR 0x7D # r) =
      json_run AfterValue (ObjFrame ((utf8_repair k, json_repair v) # acc) [] # st) (CHR 0x7D # r)"
    using 2 kv by (intro read_member [of v n]) simp_all
  also have "\<dots> = resume (deliver (JObj (rev acc @ [(utf8_repair k, json_repair v)])) st) r"
    by (subst json_run_token [of _ RBrace]) (simp_all add: next_token_punctuation end_frame_def)
  finally show ?case by (simp add: kv)
next
  case (3 kv kv' kvs)
  obtain k v where kv: "kv = (k, v)" by (cases kv)
  define rest where "rest = join_with '','' (map (\<lambda>(k, v). quoted k @ CHR '':'' # json_text v) (kv' # kvs)) @ CHR 0x7D # r"
  have "json_run m (ObjFrame acc x # st) (quoted k @ CHR '':'' # json_text v @ CHR '','' # rest) =
      json_run AfterValue (ObjFrame ((utf8_repair k, json_repair v) # acc) [] # st) (CHR '','' # rest)"
    using 3 kv by (intro read_member [of v n]) simp_all
  also have "\<dots> = json_run WantKey (ObjFrame ((utf8_repair k, json_repair v) # acc) [] # st) rest"
    by (subst json_run_token [of _ Comma]) (simp_all add: next_token_punctuation resume_def)
  also have "\<dots> = resume (deliver (JObj (rev ((utf8_repair k, json_repair v) # acc) @ map (map_prod utf8_repair json_repair) (kv' # kvs))) st) r"
    unfolding rest_def using 3 by (intro 3(2)) (auto simp: key_mode_def)
  finally show ?case by (simp add: rest_def kv)
qed simp

lemma next_token_literal:
  "next_token (''null'' @ r) = Some (Scalar JNull, r)" "next_token (''true'' @ r) = Some (Scalar (JBool True), r)"
  "next_token (''false'' @ r) = Some (Scalar (JBool False), r)"
proof -
  have "\<not> json_space CHR ''n''" "\<not> json_space CHR ''t''" "\<not> json_space CHR ''f''" by (auto dest: spaces_small)
  then show "next_token (''null'' @ r) = Some (Scalar JNull, r)" "next_token (''true'' @ r) = Some (Scalar (JBool True), r)"
    "next_token (''false'' @ r) = Some (Scalar (JBool False), r)"
    by (simp_all add: next_token_def punctuation_def literals_def)
qed

lemma json_run_scalar:
  assumes "value_mode m" "next_token (t @ r) = Some (Scalar v, r)"
  shows "json_run m st (t @ r) = resume (deliver v st) r"
  using assms by (subst json_run_token [OF assms(2)]) (simp add: value_mode_step begin_value_def)

text \<open>Whatever is written is read back.\<close>

lemma writable_reads: "writable v n \<Longrightarrow> reads v n"
proof (induction v arbitrary: n)
  case (JNum t)
  then have "number_ends r \<Longrightarrow> next_token (t @ r) = Some (Scalar (JNum t), r)" for r
    unfolding number_ends_def by (intro next_token_numeral) simp_all
  then show ?case by (auto simp: reads_def simp del: append.simps intro!: json_run_scalar)
next
  case (JArr vs)
  then have n: "n \<noteq> 0" and vs: "\<forall>v\<in>set vs. reads v (n - 1)" by (auto simp: list_all_iff)
  show ?case unfolding reads_def
  proof (intro allI impI)
    fix m :: mode and st :: "frame list" and r :: string assume m: "value_mode m" "length st + n \<le> maxNestingDepth" "number_ends r"
    have "json_run m st (json_text (JArr vs) @ r) = json_run WantValueOrClose (ArrFrame [] # st) (join_with '','' (map json_text vs) @ CHR 0x5D # r)"
      using m n by (subst json_run_token [of _ LBracket]) (simp_all add: next_token_punctuation value_mode_step begin_value_def push_def resume_def)
    also have "\<dots> = resume (deliver (JArr (rev [] @ map json_repair vs)) st) r"
    proof (cases "vs = []")
      case True
      then show ?thesis by (subst json_run_token [of _ RBracket]) (simp_all add: next_token_punctuation end_frame_def)
    next
      case False
      then show ?thesis using m n vs by (intro read_elements [of vs "n - 1"]) (auto simp: value_mode_def)
    qed
    finally show "json_run m st (json_text (JArr vs) @ r) = resume (deliver (json_repair (JArr vs)) st) r" by simp
  qed
next
  case (JObj kvs)
  then have n: "n \<noteq> 0" and kvs: "\<forall>(k, v)\<in>set kvs. reads v (n - 1)"
    by (auto simp: list_all_iff)
  show ?case unfolding reads_def
  proof (intro allI impI)
    fix m :: mode and st :: "frame list" and r :: string assume m: "value_mode m" "length st + n \<le> maxNestingDepth" "number_ends r"
    have "json_run m st (json_text (JObj kvs) @ r) =
        json_run WantKeyOrClose (ObjFrame [] [] # st) (join_with '','' (map (\<lambda>(k, v). quoted k @ CHR '':'' # json_text v) kvs) @ CHR 0x7D # r)"
      using m n by (subst json_run_token [of _ LBrace])
        (simp_all add: next_token_punctuation value_mode_step begin_value_def push_def resume_def comp_def case_prod_map_prod)
    also have "\<dots> = resume (deliver (JObj (rev [] @ map (map_prod utf8_repair json_repair) kvs)) st) r"
    proof (cases "kvs = []")
      case True
      then show ?thesis by (subst json_run_token [of _ RBrace]) (simp_all add: next_token_punctuation end_frame_def)
    next
      case False
      then show ?thesis using m n kvs by (intro read_members [of kvs "n - 1"]) (auto simp: key_mode_def)
    qed
    finally show "json_run m st (json_text (JObj kvs) @ r) = resume (deliver (json_repair (JObj kvs)) st) r"
      by (simp add: comp_def prod.map_comp)
  qed
qed (auto simp: reads_def next_token_literal next_token_quoted simp del: append.simps intro!: json_run_scalar)

theorem json_parse_text: "writable v maxNestingDepth \<Longrightarrow> json_parse (json_text v) = Some (json_repair v)"
  using readsD [OF writable_reads, of v maxNestingDepth WantValue "[]" "[]"]
  by (simp add: json_parse_def value_mode_def resume_def)

subsection \<open>Values of Go\<close>

text \<open>
  The value of a \<open>float64\<close> (none for not-a-number and the infinities, an error of the encoder), of an \<open>int64\<close>, a string, a slice
  and a struct. \<open>is_fin\<close> holds of every finite \<open>float64\<close>.
\<close>

definition enc_float :: "f64 \<Rightarrow> json option" where
  "enc_float x = (if is_fin x then map_option JNum (json_float x) else None)"

definition enc_int :: "i64 \<Rightarrow> json option" where "enc_int i = Some (JNum (fmt_d i))"

definition enc_string :: "string \<Rightarrow> json option" where "enc_string s = Some (JStr s)"

definition enc_slice :: "json option list \<Rightarrow> json option" where "enc_slice vs = map_option JArr (those vs)"

definition enc_members :: "(string \<times> json option) list \<Rightarrow> (string \<times> json) list option" where
  "enc_members fs = those (map (\<lambda>(k, v). map_option (Pair k) v) fs)"

definition enc_struct :: "(string \<times> json option) list \<Rightarrow> json option" where
  "enc_struct fs = map_option JObj (enc_members fs)"

definition writes_float :: "string \<Rightarrow> f64 \<Rightarrow> bool" where
  "writes_float t x \<longleftrightarrow> is_fin x \<and> json_float x = Some t"

lemma enc_float_Some [simp]: "enc_float x = Some v \<longleftrightarrow> (\<exists>t. v = JNum t \<and> writes_float t x)"
  by (auto simp: enc_float_def writes_float_def)

lemma writes_float_exists: "is_fin x \<Longrightarrow> \<exists>t. writes_float t x"
  using json_float_reads [of x] unfolding writes_float_def by metis

lemma writes_float [simp]:
  assumes "writes_float t x"
  shows "is_number t" "store_float (JNum t) y = Some x"
proof -
  obtain u neg a b z where "json_float x = Some u" "u = number_text neg a b z" "number_parts a b" "ParseFloat u = Some x"
    using assms json_float_reads [of x] unfolding writes_float_def by metis
  moreover from this(1) have "u = t" using assms by (simp add: writes_float_def)
  ultimately show "is_number t" "store_float (JNum t) y = Some x" by (auto simp: is_number_def store_float_def)
qed

lemma integer_reads [simp]: "is_number (fmt_d i)" "store_int64 (JNum (fmt_d i)) j = Some i"
  by (simp_all add: is_number_fmt_d store_int64_def Atoi_fmt_d)

lemma enc_Some [simp]:
  "enc_int i = Some v \<longleftrightarrow> v = JNum (fmt_d i)" "enc_string s = Some v \<longleftrightarrow> v = JStr s"
  "enc_slice vs = Some v \<longleftrightarrow> (\<exists>ws. v = JArr ws \<and> those vs = Some ws)"
  "enc_struct fs = Some v \<longleftrightarrow> (\<exists>kvs. v = JObj kvs \<and> enc_members fs = Some kvs)"
  by (auto simp: enc_int_def enc_string_def enc_slice_def enc_struct_def)

lemma enc_members_Some [simp]:
  "enc_members [] = Some kvs \<longleftrightarrow> kvs = []"
  "enc_members ((k, v) # fs) = Some kvs \<longleftrightarrow> (\<exists>w ws. kvs = (k, w) # ws \<and> v = Some w \<and> enc_members fs = Some ws)"
  by (auto simp: enc_members_def split: option.splits)

lemma utf8_repair_plain: "plain_name k \<Longrightarrow> utf8_repair k = k"
  by (induction k) (subst utf8_repair.simps, auto simp: plain_name_def in_range_def)+

lemma store_string_JStr [simp]: "store_string (JStr s) x = Some s"
  by (simp add: store_string_def)

lemma those_Some: "those xs = Some ys \<longleftrightarrow> xs = map Some ys"
  by (induction xs arbitrary: ys) (auto split: option.splits)

text \<open>A slice is read element by element.\<close>

lemma store_elements:
  assumes "map f xs = map Some vs" "\<And>x v. x \<in> set xs \<Longrightarrow> f x = Some v \<Longrightarrow> elem (json_repair v) zero = Some (g x)"
  shows "store_list elem zero (JArr (map json_repair vs)) [] = Some (map g xs)"
proof -
  have "those (map (\<lambda>(i, v). elem v zero) (enumerate n (map json_repair vs))) = Some (map g xs)" for n
    using assms
  proof (induction xs arbitrary: vs n)
    case (Cons x xs)
    obtain v ws where vs: "vs = v # ws" "f x = Some v" "map f xs = map Some ws" using Cons.prems(1) by (cases vs) auto
    have "elem (json_repair v) zero = Some (g x)" using Cons.prems(2) [of x v] vs(2) by simp
    moreover have "those (map (\<lambda>(i, v). elem v zero) (enumerate (Suc n) (map json_repair ws))) = Some (map g xs)"
      using Cons.IH [OF vs(3)] Cons.prems(2) by simp
    ultimately show ?case by (simp add: vs(1))
  qed simp
  then show ?thesis by (simp add: store_list_def)
qed

lemma writable_elements:
  assumes "map f xs = map Some vs" "\<And>x v. x \<in> set xs \<Longrightarrow> f x = Some v \<Longrightarrow> writable v n"
  shows "list_all (\<lambda>v. writable v n) vs"
proof -
  have "Some ` set vs = f ` set xs" using arg_cong [OF assms(1), of set] by simp
  then have "\<exists>x\<in>set xs. f x = Some w" if "w \<in> set vs" for w using that by (metis image_iff)
  then show ?thesis using assms(2) by (auto simp: list_all_iff)
qed

text \<open>A pointer: \<open>null\<close> clears it, another value is stored into what it points to, allocated when it is nil.\<close>

definition store_pointer :: "(json \<Rightarrow> 'a \<Rightarrow> 'a option) \<Rightarrow> 'a \<Rightarrow> json \<Rightarrow> 'a option \<Rightarrow> 'a option option" where
  "store_pointer store zero v x = (case v of
     JNull \<Rightarrow> Some None
   | _ \<Rightarrow> map_option Some (store v (case x of None \<Rightarrow> zero | Some y \<Rightarrow> y)))"

lemma store_append: "store_fields fs (JObj (a @ b)) x = Option.bind (store_fields fs (JObj a) x) (store_fields fs (JObj b))"
proof -
  have "fold (\<lambda>(k, v) acc. Option.bind acc (h k v)) b None = None" for h :: "string \<Rightarrow> json \<Rightarrow> 'a \<Rightarrow> 'a option"
    by (induction b) auto
  then show ?thesis unfolding store_fields_def
    by (cases "fold (\<lambda>(k, v) acc. Option.bind acc (\<lambda>x. case find (\<lambda>(n, f). n = fold_name k) fs of None \<Rightarrow> Some x | Some (n, f) \<Rightarrow> f v x)) a (Some x)") simp_all
qed

end
