(* ===== verification/ResponseJson.thy ===== *)
theory ResponseJson
  imports SafeRoutesApi JsonText
begin

section \<open>A safe-routes response as JSON\<close>

text \<open>
  \<open>json.Marshal\<close> and \<open>json.Unmarshal\<close> on \<open>SafeRoutesResponse\<close> and the structs inside it, by the tags of \<open>model.go\<close> and
  \<open>dto.go\<close>: \<open>enc_\<close> builds the value of a struct, \<open>zero_\<close> is the zero value of its type, \<open>store_\<close> reads a value
  into a variable. \<open>omitempty\<close> leaves out nil pointers and empty slices; the mark \<open>FromCache\<close> has the tag \<open>-\<close>. A nil slice
  without \<open>omitempty\<close> would be written as \<open>null\<close>, which is read back as an empty one, like the empty array written here.
\<close>

definition enc_latlng :: "LatLng \<Rightarrow> json option" where
  "enc_latlng x = enc_struct
     [(''lat'', enc_float (Lat x)), (''lng'', enc_float (Lng x))]"

definition zero_latlng :: LatLng where
  "zero_latlng = \<lparr>Lat = 0, Lng = 0\<rparr>"

definition store_latlng :: "json \<Rightarrow> LatLng \<Rightarrow> LatLng option" where
  "store_latlng = store_fields
     [(''lat'', \<lambda>v x. map_option (\<lambda>y. x\<lparr>Lat := y\<rparr>) (store_float v (Lat x))),
      (''lng'', \<lambda>v x. map_option (\<lambda>y. x\<lparr>Lng := y\<rparr>) (store_float v (Lng x)))]"

definition enc_linestring :: "GeoJSONLineString \<Rightarrow> json option" where
  "enc_linestring x = enc_struct
     [(''type'', enc_string (ls_Type x)), (''coordinates'', enc_slice (map (\<lambda>c. enc_slice (map enc_float c)) (ls_Coordinates x)))]"

definition zero_linestring :: GeoJSONLineString where
  "zero_linestring = \<lparr>ls_Type = [], ls_Coordinates = []\<rparr>"

definition store_linestring :: "json \<Rightarrow> GeoJSONLineString \<Rightarrow> GeoJSONLineString option" where
  "store_linestring = store_fields
     [(''type'', \<lambda>v x. map_option (\<lambda>y. x\<lparr>ls_Type := y\<rparr>) (store_string v (ls_Type x))),
      (''coordinates'', \<lambda>v x. map_option (\<lambda>y. x\<lparr>ls_Coordinates := y\<rparr>) (store_list (store_list store_float 0) [] v (ls_Coordinates x)))]"

definition repair_linestring :: "GeoJSONLineString \<Rightarrow> GeoJSONLineString" where
  "repair_linestring x = x\<lparr>ls_Type := utf8_repair (ls_Type x)\<rparr>"

definition enc_crime_metrics :: "CrimeMetrics \<Rightarrow> json option" where
  "enc_crime_metrics x = enc_struct
     [(''crime_count'', enc_int (cm_CrimeCount x)), (''robbery_count'', enc_int (cm_RobberyCount x)),
      (''theft_count'', enc_int (cm_TheftCount x)), (''threats_count'', enc_int (cm_ThreatsCount x)),
      (''armed_count'', enc_int (cm_ArmedCount x)), (''motorcycle_count'', enc_int (cm_MotorcycleCount x)),
      (''same_bucket_crime_count'', enc_int (cm_SameBucketCrimeCount x))]"

definition zero_crime_metrics :: CrimeMetrics where
  "zero_crime_metrics = \<lparr>cm_CrimeCount = 0, cm_RobberyCount = 0, cm_TheftCount = 0, cm_ThreatsCount = 0, cm_ArmedCount = 0,
     cm_MotorcycleCount = 0, cm_SameBucketCrimeCount = 0\<rparr>"

definition store_crime_metrics :: "json \<Rightarrow> CrimeMetrics \<Rightarrow> CrimeMetrics option" where
  "store_crime_metrics = store_fields
     [(''crime_count'', \<lambda>v x. map_option (\<lambda>y. x\<lparr>cm_CrimeCount := y\<rparr>) (store_int64 v (cm_CrimeCount x))),
      (''robbery_count'', \<lambda>v x. map_option (\<lambda>y. x\<lparr>cm_RobberyCount := y\<rparr>) (store_int64 v (cm_RobberyCount x))),
      (''theft_count'', \<lambda>v x. map_option (\<lambda>y. x\<lparr>cm_TheftCount := y\<rparr>) (store_int64 v (cm_TheftCount x))),
      (''threats_count'', \<lambda>v x. map_option (\<lambda>y. x\<lparr>cm_ThreatsCount := y\<rparr>) (store_int64 v (cm_ThreatsCount x))),
      (''armed_count'', \<lambda>v x. map_option (\<lambda>y. x\<lparr>cm_ArmedCount := y\<rparr>) (store_int64 v (cm_ArmedCount x))),
      (''motorcycle_count'', \<lambda>v x. map_option (\<lambda>y. x\<lparr>cm_MotorcycleCount := y\<rparr>) (store_int64 v (cm_MotorcycleCount x))),
      (''same_bucket_crime_count'', \<lambda>v x. map_option (\<lambda>y. x\<lparr>cm_SameBucketCrimeCount := y\<rparr>) (store_int64 v (cm_SameBucketCrimeCount x)))]"

definition enc_riskiest :: "RiskiestSegment \<Rightarrow> json option" where
  "enc_riskiest x = enc_struct
     [(''risk_score'', enc_float (rs_RiskScore x)), (''risk_level'', enc_string (rs_RiskLevel x)),
      (''length_meters'', enc_float (rs_LengthMeters x)), (''point'', enc_latlng (rs_Point x)), (''crime_count'', enc_int (rs_CrimeCount x)),
      (''robbery_count'', enc_int (rs_RobberyCount x)), (''armed_count'', enc_int (rs_ArmedCount x)),
      (''theft_count'', enc_int (rs_TheftCount x)), (''threats_count'', enc_int (rs_ThreatsCount x)),
      (''motorcycle_count'', enc_int (rs_MotorcycleCount x))]"

definition zero_riskiest :: RiskiestSegment where
  "zero_riskiest = \<lparr>rs_RiskScore = 0, rs_RiskLevel = [], rs_LengthMeters = 0, rs_Point = zero_latlng, rs_CrimeCount = 0,
     rs_RobberyCount = 0, rs_ArmedCount = 0, rs_TheftCount = 0, rs_ThreatsCount = 0, rs_MotorcycleCount = 0\<rparr>"

definition store_riskiest :: "json \<Rightarrow> RiskiestSegment \<Rightarrow> RiskiestSegment option" where
  "store_riskiest = store_fields
     [(''risk_score'', \<lambda>v x. map_option (\<lambda>y. x\<lparr>rs_RiskScore := y\<rparr>) (store_float v (rs_RiskScore x))),
      (''risk_level'', \<lambda>v x. map_option (\<lambda>y. x\<lparr>rs_RiskLevel := y\<rparr>) (store_string v (rs_RiskLevel x))),
      (''length_meters'', \<lambda>v x. map_option (\<lambda>y. x\<lparr>rs_LengthMeters := y\<rparr>) (store_float v (rs_LengthMeters x))),
      (''point'', \<lambda>v x. map_option (\<lambda>y. x\<lparr>rs_Point := y\<rparr>) (store_latlng v (rs_Point x))),
      (''crime_count'', \<lambda>v x. map_option (\<lambda>y. x\<lparr>rs_CrimeCount := y\<rparr>) (store_int64 v (rs_CrimeCount x))),
      (''robbery_count'', \<lambda>v x. map_option (\<lambda>y. x\<lparr>rs_RobberyCount := y\<rparr>) (store_int64 v (rs_RobberyCount x))),
      (''armed_count'', \<lambda>v x. map_option (\<lambda>y. x\<lparr>rs_ArmedCount := y\<rparr>) (store_int64 v (rs_ArmedCount x))),
      (''theft_count'', \<lambda>v x. map_option (\<lambda>y. x\<lparr>rs_TheftCount := y\<rparr>) (store_int64 v (rs_TheftCount x))),
      (''threats_count'', \<lambda>v x. map_option (\<lambda>y. x\<lparr>rs_ThreatsCount := y\<rparr>) (store_int64 v (rs_ThreatsCount x))),
      (''motorcycle_count'', \<lambda>v x. map_option (\<lambda>y. x\<lparr>rs_MotorcycleCount := y\<rparr>) (store_int64 v (rs_MotorcycleCount x)))]"

definition repair_riskiest :: "RiskiestSegment \<Rightarrow> RiskiestSegment" where
  "repair_riskiest x = x\<lparr>rs_RiskLevel := utf8_repair (rs_RiskLevel x)\<rparr>"

definition enc_segment :: "RouteSegment \<Rightarrow> json option" where
  "enc_segment x = enc_struct
     [(''risk_score'', enc_float (sg_RiskScore x)), (''robbery_count'', enc_int (sg_RobberyCount x)),
      (''length_meters'', enc_float (sg_LengthMeters x)), (''point'', enc_latlng (sg_Point x))]"

definition zero_segment :: RouteSegment where
  "zero_segment = \<lparr>sg_RiskScore = 0, sg_RobberyCount = 0, sg_LengthMeters = 0, sg_Point = zero_latlng\<rparr>"

definition store_segment :: "json \<Rightarrow> RouteSegment \<Rightarrow> RouteSegment option" where
  "store_segment = store_fields
     [(''risk_score'', \<lambda>v x. map_option (\<lambda>y. x\<lparr>sg_RiskScore := y\<rparr>) (store_float v (sg_RiskScore x))),
      (''robbery_count'', \<lambda>v x. map_option (\<lambda>y. x\<lparr>sg_RobberyCount := y\<rparr>) (store_int64 v (sg_RobberyCount x))),
      (''length_meters'', \<lambda>v x. map_option (\<lambda>y. x\<lparr>sg_LengthMeters := y\<rparr>) (store_float v (sg_LengthMeters x))),
      (''point'', \<lambda>v x. map_option (\<lambda>y. x\<lparr>sg_Point := y\<rparr>) (store_latlng v (sg_Point x)))]"

definition enc_bucket_risk :: "BucketRisk \<Rightarrow> json option" where
  "enc_bucket_risk x = enc_struct
     [(''risk_score'', enc_float (br_RiskScore x)), (''risk_level'', enc_string (br_RiskLevel x))]"

definition zero_bucket_risk :: BucketRisk where
  "zero_bucket_risk = \<lparr>br_RiskScore = 0, br_RiskLevel = []\<rparr>"

definition store_bucket_risk :: "json \<Rightarrow> BucketRisk \<Rightarrow> BucketRisk option" where
  "store_bucket_risk = store_fields
     [(''risk_score'', \<lambda>v x. map_option (\<lambda>y. x\<lparr>br_RiskScore := y\<rparr>) (store_float v (br_RiskScore x))),
      (''risk_level'', \<lambda>v x. map_option (\<lambda>y. x\<lparr>br_RiskLevel := y\<rparr>) (store_string v (br_RiskLevel x)))]"

definition repair_bucket_risk :: "BucketRisk \<Rightarrow> BucketRisk" where
  "repair_bucket_risk x = x\<lparr>br_RiskLevel := utf8_repair (br_RiskLevel x)\<rparr>"

definition enc_time_of_day :: "TimeOfDayRisk \<Rightarrow> json option" where
  "enc_time_of_day x = enc_struct
     [(''morning'', enc_bucket_risk (Morning x)), (''afternoon'', enc_bucket_risk (Afternoon x)),
      (''evening'', enc_bucket_risk (Evening x)), (''night'', enc_bucket_risk (Night x)), (''peak_bucket'', enc_string (PeakBucket x))]"

definition zero_time_of_day :: TimeOfDayRisk where
  "zero_time_of_day = \<lparr>Morning = zero_bucket_risk, Afternoon = zero_bucket_risk, Evening = zero_bucket_risk,
     Night = zero_bucket_risk, PeakBucket = []\<rparr>"

definition store_time_of_day :: "json \<Rightarrow> TimeOfDayRisk \<Rightarrow> TimeOfDayRisk option" where
  "store_time_of_day = store_fields
     [(''morning'', \<lambda>v x. map_option (\<lambda>y. x\<lparr>Morning := y\<rparr>) (store_bucket_risk v (Morning x))),
      (''afternoon'', \<lambda>v x. map_option (\<lambda>y. x\<lparr>Afternoon := y\<rparr>) (store_bucket_risk v (Afternoon x))),
      (''evening'', \<lambda>v x. map_option (\<lambda>y. x\<lparr>Evening := y\<rparr>) (store_bucket_risk v (Evening x))),
      (''night'', \<lambda>v x. map_option (\<lambda>y. x\<lparr>Night := y\<rparr>) (store_bucket_risk v (Night x))),
      (''peak_bucket'', \<lambda>v x. map_option (\<lambda>y. x\<lparr>PeakBucket := y\<rparr>) (store_string v (PeakBucket x)))]"

definition repair_time_of_day :: "TimeOfDayRisk \<Rightarrow> TimeOfDayRisk" where
  "repair_time_of_day x = x\<lparr>Morning := repair_bucket_risk (Morning x), Afternoon := repair_bucket_risk (Afternoon x),
     Evening := repair_bucket_risk (Evening x), Night := repair_bucket_risk (Night x), PeakBucket := utf8_repair (PeakBucket x)\<rparr>"

definition enc_route :: "SafeRoute \<Rightarrow> json option" where
  "enc_route x = enc_struct (
      [(''kind'', enc_string (Kind x)), (''distance_meters'', enc_float (DistanceMeters x)),
       (''duration_minutes'', enc_float (DurationMinutes x)), (''risk_score'', enc_float (RiskScore x)),
       (''risk_level'', enc_string (RiskLevel x)), (''extra_distance_vs_fastest_meters'', enc_float (ExtraDistanceVsFastestMeters x)),
       (''extra_duration_vs_fastest_minutes'', enc_float (ExtraDurationVsFastestMinutes x)),
       (''risk_reduction_vs_fastest_percent'', enc_float (RiskReductionVsFastestPercent x)),
       (''high_risk_edge_meters'', enc_float (HighRiskEdgeMeters x)), (''high_risk_edge_percent'', enc_float (HighRiskEdgePercent x)),
       (''max_edge_risk'', enc_float (MaxEdgeRisk x)), (''avg_edge_risk'', enc_float (AvgEdgeRisk x)),
       (''crime_metrics'', enc_crime_metrics (Metrics x))] @
      (case Riskiest x of None \<Rightarrow> [] | Some y \<Rightarrow> [(''riskiest_segment'', enc_riskiest y)]) @
      (if Segments x = [] then [] else [(''segments'', enc_slice (map enc_segment (Segments x)))]) @
      [(''dominant_factor'', enc_string (DominantFactor x)), (''armed_share_percent'', enc_float (ArmedSharePercent x))] @
      (case RouteTimeOfDayRisk x of None \<Rightarrow> [] | Some y \<Rightarrow> [(''time_of_day_risk'', enc_time_of_day y)]) @
      [(''geometry'', enc_linestring (Geometry x))])"

definition zero_route :: SafeRoute where
  "zero_route = \<lparr>Kind = [], DistanceMeters = 0, DurationMinutes = 0, RiskScore = 0, RiskLevel = [], ExtraDistanceVsFastestMeters = 0,
     ExtraDurationVsFastestMinutes = 0, RiskReductionVsFastestPercent = 0, HighRiskEdgeMeters = 0, HighRiskEdgePercent = 0, MaxEdgeRisk = 0,
     AvgEdgeRisk = 0, Metrics = zero_crime_metrics, Riskiest = None, Segments = [], DominantFactor = [], ArmedSharePercent = 0,
     RouteTimeOfDayRisk = None, Geometry = zero_linestring\<rparr>"

definition store_route :: "json \<Rightarrow> SafeRoute \<Rightarrow> SafeRoute option" where
  "store_route = store_fields
     [(''kind'', \<lambda>v x. map_option (\<lambda>y. x\<lparr>Kind := y\<rparr>) (store_string v (Kind x))),
      (''distance_meters'', \<lambda>v x. map_option (\<lambda>y. x\<lparr>DistanceMeters := y\<rparr>) (store_float v (DistanceMeters x))),
      (''duration_minutes'', \<lambda>v x. map_option (\<lambda>y. x\<lparr>DurationMinutes := y\<rparr>) (store_float v (DurationMinutes x))),
      (''risk_score'', \<lambda>v x. map_option (\<lambda>y. x\<lparr>RiskScore := y\<rparr>) (store_float v (RiskScore x))),
      (''risk_level'', \<lambda>v x. map_option (\<lambda>y. x\<lparr>RiskLevel := y\<rparr>) (store_string v (RiskLevel x))),
      (''extra_distance_vs_fastest_meters'', \<lambda>v x. map_option (\<lambda>y. x\<lparr>ExtraDistanceVsFastestMeters := y\<rparr>) (store_float v (ExtraDistanceVsFastestMeters x))),
      (''extra_duration_vs_fastest_minutes'', \<lambda>v x. map_option (\<lambda>y. x\<lparr>ExtraDurationVsFastestMinutes := y\<rparr>) (store_float v (ExtraDurationVsFastestMinutes x))),
      (''risk_reduction_vs_fastest_percent'', \<lambda>v x. map_option (\<lambda>y. x\<lparr>RiskReductionVsFastestPercent := y\<rparr>) (store_float v (RiskReductionVsFastestPercent x))),
      (''high_risk_edge_meters'', \<lambda>v x. map_option (\<lambda>y. x\<lparr>HighRiskEdgeMeters := y\<rparr>) (store_float v (HighRiskEdgeMeters x))),
      (''high_risk_edge_percent'', \<lambda>v x. map_option (\<lambda>y. x\<lparr>HighRiskEdgePercent := y\<rparr>) (store_float v (HighRiskEdgePercent x))),
      (''max_edge_risk'', \<lambda>v x. map_option (\<lambda>y. x\<lparr>MaxEdgeRisk := y\<rparr>) (store_float v (MaxEdgeRisk x))),
      (''avg_edge_risk'', \<lambda>v x. map_option (\<lambda>y. x\<lparr>AvgEdgeRisk := y\<rparr>) (store_float v (AvgEdgeRisk x))),
      (''crime_metrics'', \<lambda>v x. map_option (\<lambda>y. x\<lparr>Metrics := y\<rparr>) (store_crime_metrics v (Metrics x))),
      (''riskiest_segment'', \<lambda>v x. map_option (\<lambda>y. x\<lparr>Riskiest := y\<rparr>) (store_pointer store_riskiest zero_riskiest v (Riskiest x))),
      (''segments'', \<lambda>v x. map_option (\<lambda>y. x\<lparr>Segments := y\<rparr>) (store_list store_segment zero_segment v (Segments x))),
      (''dominant_factor'', \<lambda>v x. map_option (\<lambda>y. x\<lparr>DominantFactor := y\<rparr>) (store_string v (DominantFactor x))),
      (''armed_share_percent'', \<lambda>v x. map_option (\<lambda>y. x\<lparr>ArmedSharePercent := y\<rparr>) (store_float v (ArmedSharePercent x))),
      (''time_of_day_risk'', \<lambda>v x. map_option (\<lambda>y. x\<lparr>RouteTimeOfDayRisk := y\<rparr>) (store_pointer store_time_of_day zero_time_of_day v (RouteTimeOfDayRisk x))),
      (''geometry'', \<lambda>v x. map_option (\<lambda>y. x\<lparr>Geometry := y\<rparr>) (store_linestring v (Geometry x)))]"

definition repair_route :: "SafeRoute \<Rightarrow> SafeRoute" where
  "repair_route x = x\<lparr>Kind := utf8_repair (Kind x), RiskLevel := utf8_repair (RiskLevel x),
     Riskiest := map_option repair_riskiest (Riskiest x), DominantFactor := utf8_repair (DominantFactor x),
     RouteTimeOfDayRisk := map_option repair_time_of_day (RouteTimeOfDayRisk x), Geometry := repair_linestring (Geometry x)\<rparr>"

definition enc_model_info :: "ModelVersionInfo \<Rightarrow> json option" where
  "enc_model_info x = enc_struct
     [(''id'', enc_int (mi_ID x)), (''name'', enc_string (mi_Name x)), (''type'', enc_string (mi_Type x)),
      (''train_until'', enc_string (mi_TrainUntil x))]"

definition zero_model_info :: ModelVersionInfo where
  "zero_model_info = \<lparr>mi_ID = 0, mi_Name = [], mi_Type = [], mi_TrainUntil = []\<rparr>"

definition store_model_info :: "json \<Rightarrow> ModelVersionInfo \<Rightarrow> ModelVersionInfo option" where
  "store_model_info = store_fields
     [(''id'', \<lambda>v x. map_option (\<lambda>y. x\<lparr>mi_ID := y\<rparr>) (store_int64 v (mi_ID x))),
      (''name'', \<lambda>v x. map_option (\<lambda>y. x\<lparr>mi_Name := y\<rparr>) (store_string v (mi_Name x))),
      (''type'', \<lambda>v x. map_option (\<lambda>y. x\<lparr>mi_Type := y\<rparr>) (store_string v (mi_Type x))),
      (''train_until'', \<lambda>v x. map_option (\<lambda>y. x\<lparr>mi_TrainUntil := y\<rparr>) (store_string v (mi_TrainUntil x)))]"

definition repair_model_info :: "ModelVersionInfo \<Rightarrow> ModelVersionInfo" where
  "repair_model_info x = x\<lparr>mi_Name := utf8_repair (mi_Name x), mi_Type := utf8_repair (mi_Type x),
     mi_TrainUntil := utf8_repair (mi_TrainUntil x)\<rparr>"

definition enc_response :: "SafeRoutesResponse \<Rightarrow> json option" where
  "enc_response x = enc_struct
     [(''origin'', enc_latlng (rr_Origin x)), (''destination'', enc_latlng (rr_Destination x)), (''datetime'', enc_string (rr_Datetime x)),
      (''time_bucket'', enc_string (rr_TimeBucket x)), (''weekday_type'', enc_string (rr_WeekdayType x)),
      (''model_version'', enc_model_info (rr_ModelVersion x)), (''routes'', enc_slice (map enc_route (rr_Routes x)))]"

definition zero_response :: SafeRoutesResponse where
  "zero_response = \<lparr>rr_Origin = zero_latlng, rr_Destination = zero_latlng, rr_Datetime = [], rr_TimeBucket = [], rr_WeekdayType = [],
     rr_ModelVersion = zero_model_info, rr_Routes = [], rr_FromCache = False\<rparr>"

definition store_response :: "json \<Rightarrow> SafeRoutesResponse \<Rightarrow> SafeRoutesResponse option" where
  "store_response = store_fields
     [(''origin'', \<lambda>v x. map_option (\<lambda>y. x\<lparr>rr_Origin := y\<rparr>) (store_latlng v (rr_Origin x))),
      (''destination'', \<lambda>v x. map_option (\<lambda>y. x\<lparr>rr_Destination := y\<rparr>) (store_latlng v (rr_Destination x))),
      (''datetime'', \<lambda>v x. map_option (\<lambda>y. x\<lparr>rr_Datetime := y\<rparr>) (store_string v (rr_Datetime x))),
      (''time_bucket'', \<lambda>v x. map_option (\<lambda>y. x\<lparr>rr_TimeBucket := y\<rparr>) (store_string v (rr_TimeBucket x))),
      (''weekday_type'', \<lambda>v x. map_option (\<lambda>y. x\<lparr>rr_WeekdayType := y\<rparr>) (store_string v (rr_WeekdayType x))),
      (''model_version'', \<lambda>v x. map_option (\<lambda>y. x\<lparr>rr_ModelVersion := y\<rparr>) (store_model_info v (rr_ModelVersion x))),
      (''routes'', \<lambda>v x. map_option (\<lambda>y. x\<lparr>rr_Routes := y\<rparr>) (store_list store_route zero_route v (rr_Routes x)))]"

definition repair_response :: "SafeRoutesResponse \<Rightarrow> SafeRoutesResponse" where
  "repair_response x = x\<lparr>rr_Datetime := utf8_repair (rr_Datetime x), rr_TimeBucket := utf8_repair (rr_TimeBucket x),
     rr_WeekdayType := utf8_repair (rr_WeekdayType x), rr_ModelVersion := repair_model_info (rr_ModelVersion x),
     rr_Routes := map repair_route (rr_Routes x), rr_FromCache := False\<rparr>"

definition MarshalResponse :: "SafeRoutesResponse \<Rightarrow> string + string" where
  "MarshalResponse x = (case enc_response x of None \<Rightarrow> Inl ''json: unsupported value'' | Some v \<Rightarrow> Inr (json_text v))"

text \<open>Whether the encoder accepts a response.\<close>

definition safe_routes_encodable :: "SafeRoutesResponse \<Rightarrow> bool" where
  "safe_routes_encodable x \<longleftrightarrow> enc_response x \<noteq> None"

definition UnmarshalResponse :: "string \<Rightarrow> string + SafeRoutesResponse" where
  "UnmarshalResponse raw = (case Unmarshal store_response zero_response raw of None \<Rightarrow> Inl ''json'' | Some x \<Rightarrow> Inr x)"

subsection \<open>What can be written\<close>

text \<open>A response is written exactly when every number in it is finite.\<close>

definition finite_point :: "LatLng \<Rightarrow> bool" where
  "finite_point p \<longleftrightarrow> is_fin (Lat p) \<and> is_fin (Lng p)"

definition finite_riskiest :: "RiskiestSegment \<Rightarrow> bool" where
  "finite_riskiest x \<longleftrightarrow> is_fin (rs_RiskScore x) \<and> is_fin (rs_LengthMeters x) \<and> finite_point (rs_Point x)"

definition finite_segment :: "RouteSegment \<Rightarrow> bool" where
  "finite_segment x \<longleftrightarrow> is_fin (sg_RiskScore x) \<and> is_fin (sg_LengthMeters x) \<and> finite_point (sg_Point x)"

definition finite_time_of_day :: "TimeOfDayRisk \<Rightarrow> bool" where
  "finite_time_of_day t \<longleftrightarrow> is_fin (br_RiskScore (Morning t)) \<and> is_fin (br_RiskScore (Afternoon t)) \<and>
     is_fin (br_RiskScore (Evening t)) \<and> is_fin (br_RiskScore (Night t))"

definition finite_route :: "SafeRoute \<Rightarrow> bool" where
  "finite_route r \<longleftrightarrow>
     list_all is_fin [DistanceMeters r, DurationMinutes r, RiskScore r, ExtraDistanceVsFastestMeters r,
       ExtraDurationVsFastestMinutes r, RiskReductionVsFastestPercent r, HighRiskEdgeMeters r, HighRiskEdgePercent r,
       MaxEdgeRisk r, AvgEdgeRisk r, ArmedSharePercent r] \<and>
     (case Riskiest r of None \<Rightarrow> True | Some x \<Rightarrow> finite_riskiest x) \<and> list_all finite_segment (Segments r) \<and>
     (case RouteTimeOfDayRisk r of None \<Rightarrow> True | Some t \<Rightarrow> finite_time_of_day t) \<and>
     list_all (list_all is_fin) (ls_Coordinates (Geometry r))"

definition finite_response :: "SafeRoutesResponse \<Rightarrow> bool" where
  "finite_response x \<longleftrightarrow> finite_point (rr_Origin x) \<and> finite_point (rr_Destination x) \<and> list_all finite_route (rr_Routes x)"

lemma enc_float_None [simp]: "enc_float x = None \<longleftrightarrow> \<not> is_fin x"
  using writes_float_exists [of x] by (auto simp: enc_float_def writes_float_def)

lemma enc_None [simp]:
  "enc_int i \<noteq> None" "enc_string s \<noteq> None" "enc_slice vs = None \<longleftrightarrow> list_ex (\<lambda>v. v = None) vs"
  "enc_struct fs = None \<longleftrightarrow> list_ex (\<lambda>f. snd f = None) fs"
proof -
  show "enc_slice vs = None \<longleftrightarrow> list_ex (\<lambda>v. v = None) vs"
    unfolding enc_slice_def by (induction vs) (auto split: option.split)
  show "enc_struct fs = None \<longleftrightarrow> list_ex (\<lambda>f. snd f = None) fs"
    unfolding enc_struct_def enc_members_def by (induction fs) (auto split: option.split)
qed (simp_all add: enc_int_def enc_string_def)

lemma none_left: "None = x \<longleftrightarrow> x = None"
  by (rule eq_commute)

lemma not_finite [simp]:
  "enc_latlng p = None \<longleftrightarrow> \<not> finite_point p" "enc_riskiest x = None \<longleftrightarrow> \<not> finite_riskiest x"
  "enc_segment g = None \<longleftrightarrow> \<not> finite_segment g" "enc_bucket_risk b = None \<longleftrightarrow> \<not> is_fin (br_RiskScore b)"
  "enc_time_of_day t = None \<longleftrightarrow> \<not> finite_time_of_day t" "enc_crime_metrics m \<noteq> None" "enc_model_info i \<noteq> None"
  "enc_linestring l = None \<longleftrightarrow> \<not> list_all (list_all is_fin) (ls_Coordinates l)"
proof -
  show p: "enc_latlng p = None \<longleftrightarrow> \<not> finite_point p" for p by (simp add: enc_latlng_def finite_point_def)
  show b: "enc_bucket_risk b = None \<longleftrightarrow> \<not> is_fin (br_RiskScore b)" for b by (simp add: enc_bucket_risk_def)
  show "enc_riskiest x = None \<longleftrightarrow> \<not> finite_riskiest x" by (simp add: enc_riskiest_def finite_riskiest_def p)
  show "enc_segment g = None \<longleftrightarrow> \<not> finite_segment g" by (simp add: enc_segment_def finite_segment_def p)
  show "enc_time_of_day t = None \<longleftrightarrow> \<not> finite_time_of_day t" by (simp add: enc_time_of_day_def finite_time_of_day_def b)
  show "enc_linestring l = None \<longleftrightarrow> \<not> list_all (list_all is_fin) (ls_Coordinates l)"
    by (simp add: enc_linestring_def list_ex_iff list_all_iff image_iff none_left)
qed (simp_all add: enc_crime_metrics_def enc_model_info_def)

lemma not_finite_route [simp]: "enc_route x = None \<longleftrightarrow> \<not> finite_route x"
proof -
  have "list_ex (\<lambda>f. snd f = None) (case Riskiest x of None \<Rightarrow> [] | Some y \<Rightarrow> [(''riskiest_segment'', enc_riskiest y)]) \<longleftrightarrow>
      \<not> (case Riskiest x of None \<Rightarrow> True | Some y \<Rightarrow> finite_riskiest y)"
    "list_ex (\<lambda>f. snd f = None) (case RouteTimeOfDayRisk x of None \<Rightarrow> [] | Some y \<Rightarrow> [(''time_of_day_risk'', enc_time_of_day y)]) \<longleftrightarrow>
      \<not> (case RouteTimeOfDayRisk x of None \<Rightarrow> True | Some y \<Rightarrow> finite_time_of_day y)"
    "list_ex (\<lambda>f. snd f = None) (if Segments x = [] then [] else [(''segments'', enc_slice (map enc_segment (Segments x)))]) \<longleftrightarrow>
      \<not> list_all finite_segment (Segments x)"
    by (simp_all add: list_ex_iff list_all_iff image_iff none_left split: option.split)
  then show ?thesis by (auto simp: enc_route_def finite_route_def)
qed

lemma finite_written: "enc_response x \<noteq> None \<longleftrightarrow> finite_response x"
  by (auto simp: enc_response_def finite_response_def list_ex_iff list_all_iff image_iff none_left)

subsection \<open>What is written is read back\<close>

lemmas read_simps = store_next store_nil plain_name_def in_range_def utf8_repair_plain

lemma read_latlng [simp]:
  "enc_latlng x = Some v \<Longrightarrow> writable v (Suc n)" "enc_latlng x = Some v \<Longrightarrow> store_latlng (json_repair v) y = Some x"
  by (auto simp: enc_latlng_def store_latlng_def read_simps)

lemma read_linestring [simp]:
  assumes "enc_linestring x = Some v"
  shows "writable v (Suc (Suc (Suc n)))" "store_linestring (json_repair v) zero_linestring = Some (repair_linestring x)"
proof -
  have point: "store_list store_float 0 (json_repair w) [] = Some c \<and> writable w (Suc n)" if e: "enc_slice (map enc_float c) = Some w" for c w n
  proof -
    obtain ws where w: "w = JArr ws" "map enc_float c = map Some ws" using e by (auto simp: those_Some)
    have "store_list store_float 0 (JArr (map json_repair ws)) [] = Some (map (\<lambda>x. x) c)" by (rule store_elements [OF w(2)]) auto
    moreover have "list_all (\<lambda>v. writable v n) ws" by (rule writable_elements [OF w(2)]) auto
    ultimately show ?thesis by (simp add: w(1) list.pred_map comp_def)
  qed
  obtain ws where v: "v = JObj [(''type'', JStr (ls_Type x)), (''coordinates'', JArr ws)]"
    and ws: "map (\<lambda>c. enc_slice (map enc_float c)) (ls_Coordinates x) = map Some ws"
    using assms by (auto simp: enc_linestring_def those_Some)
  have "store_list (store_list store_float 0) [] (JArr (map json_repair ws)) [] = Some (map (\<lambda>c. c) (ls_Coordinates x))"
    by (rule store_elements [OF ws]) (use point in blast)
  then show "store_linestring (json_repair v) zero_linestring = Some (repair_linestring x)"
    by (simp add: v store_linestring_def zero_linestring_def repair_linestring_def read_simps)
  have "list_all (\<lambda>v. writable v (Suc n)) ws" by (rule writable_elements [OF ws]) (use point in blast)
  then show "writable v (Suc (Suc (Suc n)))" by (simp add: v list.pred_map comp_def)
qed

lemma read_crime_metrics [simp]:
  "enc_crime_metrics x = Some v \<Longrightarrow> writable v (Suc n)" "enc_crime_metrics x = Some v \<Longrightarrow> store_crime_metrics (json_repair v) y = Some x"
  by (auto simp: enc_crime_metrics_def store_crime_metrics_def read_simps)

lemma read_riskiest [simp]:
  "enc_riskiest x = Some v \<Longrightarrow> writable v (Suc (Suc n))"
  "enc_riskiest x = Some v \<Longrightarrow> store_riskiest (json_repair v) y = Some (repair_riskiest x)"
  by (auto simp: enc_riskiest_def store_riskiest_def repair_riskiest_def read_simps)

lemma read_segment [simp]:
  "enc_segment x = Some v \<Longrightarrow> writable v (Suc (Suc n))" "enc_segment x = Some v \<Longrightarrow> store_segment (json_repair v) y = Some x"
  by (auto simp: enc_segment_def store_segment_def read_simps)

lemma read_bucket_risk [simp]:
  "enc_bucket_risk x = Some v \<Longrightarrow> writable v (Suc n)"
  "enc_bucket_risk x = Some v \<Longrightarrow> store_bucket_risk (json_repair v) y = Some (repair_bucket_risk x)"
  by (auto simp: enc_bucket_risk_def store_bucket_risk_def repair_bucket_risk_def read_simps)

lemma read_time_of_day [simp]:
  "enc_time_of_day x = Some v \<Longrightarrow> writable v (Suc (Suc n))"
  "enc_time_of_day x = Some v \<Longrightarrow> store_time_of_day (json_repair v) y = Some (repair_time_of_day x)"
  by (auto simp: enc_time_of_day_def store_time_of_day_def repair_time_of_day_def read_simps)

lemma read_model_info [simp]:
  "enc_model_info x = Some v \<Longrightarrow> writable v (Suc n)"
  "enc_model_info x = Some v \<Longrightarrow> store_model_info (json_repair v) y = Some (repair_model_info x)"
  by (auto simp: enc_model_info_def store_model_info_def repair_model_info_def read_simps)

text \<open>A route has three fields that may be left out.\<close>

lemma enc_members_append [simp]:
  "enc_members (a @ b) = Some kvs \<longleftrightarrow> (\<exists>k1 k2. kvs = k1 @ k2 \<and> enc_members a = Some k1 \<and> enc_members b = Some k2)"
proof (induction a arbitrary: kvs)
  case (Cons kv a)
  show ?case by (cases kv) (auto simp: Cons append_eq_Cons_conv Cons_eq_append_conv)
qed simp

abbreviation repaired :: "(string \<times> json) list \<Rightarrow> (string \<times> json) list" where
  "repaired kvs \<equiv> map (map_prod utf8_repair id) (map (map_prod id json_repair) kvs)"

lemma store_route_append: "store_route (JObj (a @ b)) x = Option.bind (store_route (JObj a) x) (store_route (JObj b))"
  unfolding store_route_def by (rule store_append)

lemma null_not_repaired [simp]: "enc_riskiest x = Some v \<Longrightarrow> json_repair v \<noteq> JNull" "enc_time_of_day t = Some v \<Longrightarrow> json_repair v \<noteq> JNull"
  by (auto simp: enc_riskiest_def enc_time_of_day_def)

lemma store_pointer_value [simp]: "v \<noteq> JNull \<Longrightarrow> store_pointer store zero v None = map_option Some (store v zero)"
  by (cases v) (simp_all add: store_pointer_def)

lemma route_option_fields:
  "enc_members (case a of None \<Rightarrow> [] | Some y \<Rightarrow> [(''riskiest_segment'', enc_riskiest y)]) = Some kvs \<Longrightarrow> Riskiest x = None \<Longrightarrow>
     store_route (JObj (repaired kvs)) x = Some (x\<lparr>Riskiest := map_option repair_riskiest a\<rparr>)"
  "enc_members (case b of None \<Rightarrow> [] | Some y \<Rightarrow> [(''time_of_day_risk'', enc_time_of_day y)]) = Some kvs \<Longrightarrow> RouteTimeOfDayRisk x = None \<Longrightarrow>
     store_route (JObj (repaired kvs)) x = Some (x\<lparr>RouteTimeOfDayRisk := map_option repair_time_of_day b\<rparr>)"
  by (cases x, auto simp: store_route_def read_simps split: option.splits)+

lemma route_segments_field:
  assumes "enc_members (if a = [] then [] else [(''segments'', enc_slice (map enc_segment a))]) = Some kvs" "Segments x = []"
  shows "store_route (JObj (repaired kvs)) x = Some (x\<lparr>Segments := a\<rparr>)"
proof (cases "a = []")
  case False
  then obtain ws where kvs: "kvs = [(''segments'', JArr ws)]" and ws: "map enc_segment a = map Some ws"
    using assms(1) by (auto simp: those_Some)
  have "store_list store_segment zero_segment (JArr (map json_repair ws)) [] = Some (map (\<lambda>s. s) a)"
    by (rule store_elements [OF ws]) simp
  then show ?thesis using assms(2) by (simp add: kvs store_route_def read_simps)
qed (use assms in \<open>simp add: store_route_def store_nil\<close>)

abbreviation members_writable :: "(string \<times> json) list \<Rightarrow> nat \<Rightarrow> bool" where
  "members_writable kvs n \<equiv> list_all (\<lambda>(k, w). w n) (map (map_prod id writable) kvs)"

lemma route_fields_writable:
  "enc_members (case a of None \<Rightarrow> [] | Some y \<Rightarrow> [(''riskiest_segment'', enc_riskiest y)]) = Some kvs \<Longrightarrow> members_writable kvs (Suc (Suc (Suc n)))"
  "enc_members (case b of None \<Rightarrow> [] | Some y \<Rightarrow> [(''time_of_day_risk'', enc_time_of_day y)]) = Some kvs \<Longrightarrow> members_writable kvs (Suc (Suc (Suc n)))"
  "enc_members (if c = [] then [] else [(''segments'', enc_slice (map enc_segment c))]) = Some kvs \<Longrightarrow> members_writable kvs (Suc (Suc (Suc n)))"
proof -
  have "list_all (\<lambda>v. writable v (Suc (Suc n))) ws" if "map enc_segment c = map Some ws" for ws
    by (rule writable_elements [OF that]) simp
  then show "enc_members (if c = [] then [] else [(''segments'', enc_slice (map enc_segment c))]) = Some kvs \<Longrightarrow>
      members_writable kvs (Suc (Suc (Suc n)))"
    by (auto simp: those_Some list.pred_map comp_def split: if_splits)
qed (auto split: option.splits)

lemma read_route [simp]:
  assumes "enc_route x = Some v"
  shows "writable v (Suc (Suc (Suc (Suc n))))" "store_route (json_repair v) zero_route = Some (repair_route x)"
proof -
  show "writable v (Suc (Suc (Suc (Suc n))))"
    using assms by (auto simp: enc_route_def route_fields_writable)
  obtain k1 k2 k3 k4 k5 k6 where v: "v = JObj (k1 @ k2 @ k3 @ k4 @ k5 @ k6)"
    and k1: "store_route (JObj (repaired k1)) zero_route = Some ((repair_route x)\<lparr>Riskiest := None, Segments := [], DominantFactor := [],
      ArmedSharePercent := 0, RouteTimeOfDayRisk := None, Geometry := zero_linestring\<rparr>)"
    and k2: "enc_members (case Riskiest x of None \<Rightarrow> [] | Some y \<Rightarrow> [(''riskiest_segment'', enc_riskiest y)]) = Some k2"
    and k3: "enc_members (if Segments x = [] then [] else [(''segments'', enc_slice (map enc_segment (Segments x)))]) = Some k3"
    and k4: "\<And>y. store_route (JObj (repaired k4)) y = Some (y\<lparr>DominantFactor := utf8_repair (DominantFactor x), ArmedSharePercent := ArmedSharePercent x\<rparr>)"
    and k5: "enc_members (case RouteTimeOfDayRisk x of None \<Rightarrow> [] | Some y \<Rightarrow> [(''time_of_day_risk'', enc_time_of_day y)]) = Some k5"
    and k6: "\<And>y. Geometry y = zero_linestring \<Longrightarrow> store_route (JObj (repaired k6)) y = Some (y\<lparr>Geometry := repair_linestring (Geometry x)\<rparr>)"
  proof -
    obtain k1 k2 k3 k4 k5 k6 where k: "v = JObj (k1 @ k2 @ k3 @ k4 @ k5 @ k6)"
      "enc_members [(''kind'', enc_string (Kind x)), (''distance_meters'', enc_float (DistanceMeters x)),
       (''duration_minutes'', enc_float (DurationMinutes x)), (''risk_score'', enc_float (RiskScore x)),
       (''risk_level'', enc_string (RiskLevel x)), (''extra_distance_vs_fastest_meters'', enc_float (ExtraDistanceVsFastestMeters x)),
       (''extra_duration_vs_fastest_minutes'', enc_float (ExtraDurationVsFastestMinutes x)),
       (''risk_reduction_vs_fastest_percent'', enc_float (RiskReductionVsFastestPercent x)),
       (''high_risk_edge_meters'', enc_float (HighRiskEdgeMeters x)), (''high_risk_edge_percent'', enc_float (HighRiskEdgePercent x)),
       (''max_edge_risk'', enc_float (MaxEdgeRisk x)), (''avg_edge_risk'', enc_float (AvgEdgeRisk x)),
       (''crime_metrics'', enc_crime_metrics (Metrics x))] = Some k1"
      "enc_members (case Riskiest x of None \<Rightarrow> [] | Some y \<Rightarrow> [(''riskiest_segment'', enc_riskiest y)]) = Some k2"
      "enc_members (if Segments x = [] then [] else [(''segments'', enc_slice (map enc_segment (Segments x)))]) = Some k3"
      "enc_members [(''dominant_factor'', enc_string (DominantFactor x)), (''armed_share_percent'', enc_float (ArmedSharePercent x))] = Some k4"
      "enc_members (case RouteTimeOfDayRisk x of None \<Rightarrow> [] | Some y \<Rightarrow> [(''time_of_day_risk'', enc_time_of_day y)]) = Some k5"
      "enc_members [(''geometry'', enc_linestring (Geometry x))] = Some k6"
      using assms unfolding enc_route_def enc_Some enc_members_append by blast
    show thesis
      by (rule that [OF k(1) _ k(3,4) _ k(6)]) (use k(2,5,7) in \<open>auto simp: store_route_def zero_route_def repair_route_def read_simps\<close>)
  qed
  show "store_route (json_repair v) zero_route = Some (repair_route x)"
    unfolding v json_repair.simps map_append store_route_append k1 bind.bind_lunit
    by (simp add: route_option_fields(1) [OF k2] route_segments_field [OF k3] k4 route_option_fields(2) [OF k5] k6 repair_route_def del: map_map)
qed

subsection \<open>The whole response\<close>

lemma read_response:
  assumes "enc_response x = Some v"
  shows "writable v maxNestingDepth" "store_response (json_repair v) zero_response = Some (repair_response x)"
proof -
  obtain a b m rs where v: "v = JObj [(''origin'', a), (''destination'', b), (''datetime'', JStr (rr_Datetime x)), (''time_bucket'', JStr (rr_TimeBucket x)),
      (''weekday_type'', JStr (rr_WeekdayType x)), (''model_version'', m), (''routes'', JArr rs)]"
    and fs: "enc_latlng (rr_Origin x) = Some a" "enc_latlng (rr_Destination x) = Some b" "enc_model_info (rr_ModelVersion x) = Some m"
      "map enc_route (rr_Routes x) = map Some rs"
    using assms by (auto simp: enc_response_def those_Some)
  obtain n where depth: "maxNestingDepth = Suc (Suc (Suc (Suc (Suc (Suc n)))))"
    by (rule that [of 9994]) (simp add: maxNestingDepth_def)
  have "list_all (\<lambda>v. writable v (Suc (Suc (Suc (Suc n))))) rs" by (rule writable_elements [OF fs(4)]) simp
  then show "writable v maxNestingDepth" unfolding depth using fs(1-3) by (simp add: v list.pred_map comp_def)
  have "store_list store_route zero_route (JArr (map json_repair rs)) [] = Some (map repair_route (rr_Routes x))"
    by (rule store_elements [OF fs(4)]) simp
  then show "store_response (json_repair v) zero_response = Some (repair_response x)"
    using fs(1-3) by (simp add: v store_response_def zero_response_def repair_response_def read_simps)
qed

definition stored_response :: "SafeRoutesResponse \<Rightarrow> SafeRoutesResponse option" where
  "stored_response x = (if finite_response x then Some (repair_response x) else None)"

text \<open>A response that is written and read back is the same one, with its strings repaired and without the mark.\<close>

theorem response_decode_encode:
  assumes "MarshalResponse x = Inr raw"
  shows "UnmarshalResponse raw = Inr (repair_response x)"
proof -
  obtain v where v: "enc_response x = Some v" "raw = json_text v"
    using assms by (auto simp: MarshalResponse_def split: option.splits)
  show ?thesis using read_response [OF v(1)] by (simp add: UnmarshalResponse_def Unmarshal_def v(2) json_parse_text)
qed

end
