(* ===== verification/RouteCaches.thy ===== *)
theory RouteCaches
  imports ResponseJson
begin

section \<open>The route caches\<close>

text \<open>
  \<open>internal/saferoutes/cache.go\<close> and \<open>cache_redis.go\<close>: the key of a response, the disabled
  cache, and the Redis cache with its counters, which stores the JSON text of a response. Redis is a parameter:
  \<open>redis_get\<close> and \<open>redis_set\<close> on the server's state.
\<close>

definition routeCacheTTL :: int where
  "routeCacheTTL = 60 * 60 * 1000000000"

definition routeCacheKey :: "SafeRoutesQuery \<Rightarrow> string \<Rightarrow> string \<Rightarrow> i64 \<Rightarrow> string" where
  "routeCacheKey q timeBucket weekdayType modelID =
     ''route:safe:'' @ fmt_5f (OriginLat q) @ '':'' @ fmt_5f (OriginLng q) @ '':'' @
     fmt_5f (DestLat q) @ '':'' @ fmt_5f (DestLng q) @ '':'' @ timeBucket @ '':'' @
     weekdayType @ '':'' @ fmt_d modelID"

definition NoopRouteCache :: "'s RouteCache" where
  "NoopRouteCache = \<lparr>cache_Get = (\<lambda>key. ret None), cache_Set = (\<lambda>key value ttl. ret ())\<rparr>"

subsection \<open>Redis\<close>

datatype redis_error = RedisNil | RedisFailure string

record 'r redis =
  redis_get :: "string \<Rightarrow> 'r \<Rightarrow> (redis_error + string) \<times> 'r"
  redis_set :: "string \<Rightarrow> string \<Rightarrow> int \<Rightarrow> 'r \<Rightarrow> redis_error option \<times> 'r"

record 'r redis_cache =
  server :: 'r
  hits :: i64
  misses :: i64
  errors :: i64
  sets :: i64

definition add_hit :: "'r redis_cache \<Rightarrow> 'r redis_cache" where "add_hit c = c\<lparr>hits := hits c + 1\<rparr>"
definition add_miss :: "'r redis_cache \<Rightarrow> 'r redis_cache" where "add_miss c = c\<lparr>misses := misses c + 1\<rparr>"
definition add_error :: "'r redis_cache \<Rightarrow> 'r redis_cache" where "add_error c = c\<lparr>errors := errors c + 1\<rparr>"
definition add_set :: "'r redis_cache \<Rightarrow> 'r redis_cache" where "add_set c = c\<lparr>sets := sets c + 1\<rparr>"

definition redis_Get :: "'r redis \<Rightarrow> string \<Rightarrow> ('r redis_cache, saferoutes_error, SafeRoutesResponse option) prog" where
  "redis_Get client key c =
     (case redis_get client key (server c) of (res, sv) \<Rightarrow>
        let c = c\<lparr>server := sv\<rparr> in
        case res of
          Inl RedisNil \<Rightarrow> (Inr None, add_miss c)
        | Inl (RedisFailure err) \<Rightarrow> (Inr None, add_miss (add_error c))
        | Inr raw \<Rightarrow>
            (case UnmarshalResponse raw of
               Inl err \<Rightarrow> (Inr None, add_miss (add_error c))
             | Inr resp \<Rightarrow> (Inr (Some resp), add_hit c)))"

definition redis_Set :: "'r redis \<Rightarrow> string \<Rightarrow> SafeRoutesResponse \<Rightarrow> int \<Rightarrow> ('r redis_cache, saferoutes_error, unit) prog" where
  "redis_Set client key value ttl c =
     (case MarshalResponse value of
        Inl err \<Rightarrow> (Inr (), add_error c)
      | Inr raw \<Rightarrow>
          (case redis_set client key raw ttl (server c) of
             (Some err, sv) \<Rightarrow> (Inr (), add_error (c\<lparr>server := sv\<rparr>))
           | (None, sv) \<Rightarrow> (Inr (), add_set (c\<lparr>server := sv\<rparr>))))"

definition RedisRouteCache :: "'r redis \<Rightarrow> 'r redis_cache RouteCache" where
  "RedisRouteCache client = \<lparr>cache_Get = redis_Get client, cache_Set = redis_Set client\<rparr>"

record CacheStats =
  cs_Hits :: i64
  cs_Misses :: i64
  cs_Errors :: i64
  cs_Sets :: i64
  cs_HitRate :: f64

definition Stats :: "'r redis_cache \<Rightarrow> CacheStats" where
  "Stats c = \<lparr>cs_Hits = hits c, cs_Misses = misses c, cs_Errors = errors c, cs_Sets = sets c,
     cs_HitRate = (if 0 <s hits c + misses c
       then f64_of_i64 (hits c) / f64_of_i64 (hits c + misses c) else 0)\<rparr>"

definition NewRedisRouteCache :: "'r \<Rightarrow> 'r redis_cache" where
  "NewRedisRouteCache sv = \<lparr>server = sv, hits = 0, misses = 0, errors = 0, sets = 0\<rparr>"

subsection \<open>Both caches meet the contract of the service\<close>

lemma redis_counters_server [simp]:
  "server (add_hit c) = server c" "server (add_miss c) = server c" "server (add_error c) = server c"
  "server (add_set c) = server c"
  by (simp_all add: add_hit_def add_miss_def add_error_def add_set_def)

interpretation noop: route_cache NoopRouteCache "\<lambda>s. Map.empty" readback for readback
  by unfold_locales (auto simp: NoopRouteCache_def)

text \<open>
  What the Redis client documents: a \<open>GET\<close> returns the stored value and
  stores nothing, a \<open>SET\<close> stores nothing but its own pair. Entries may vanish at any time. An entry is read back
  as \<open>stored_response\<close> says.
\<close>

locale redis_server =
  fixes client :: "'r redis" and stored :: "'r \<Rightarrow> string \<rightharpoonup> string"
  assumes get_stored: "redis_get client k sv = (Inr raw, sv') \<Longrightarrow> stored sv k = Some raw"
    and get_adds_nothing: "redis_get client k sv = (x, sv') \<Longrightarrow> stored sv' k' = Some v \<Longrightarrow> stored sv k' = Some v"
    and set_adds_pair: "redis_set client k raw ttl sv = (y, sv') \<Longrightarrow> stored sv' k' = Some v \<Longrightarrow>
        k' = k \<and> v = raw \<or> stored sv k' = Some v"

definition redis_visible :: "('r \<Rightarrow> string \<rightharpoonup> string) \<Rightarrow> 'r redis_cache \<Rightarrow> string \<rightharpoonup> SafeRoutesResponse" where
  "redis_visible stored c k =
     (case stored (server c) k of None \<Rightarrow> None
      | Some raw \<Rightarrow> (case UnmarshalResponse raw of Inl err \<Rightarrow> None | Inr r \<Rightarrow> Some r))"

lemma redis_visible_mono:
  assumes "\<And>k v. stored (server c') k = Some v \<Longrightarrow> stored (server c) k = Some v"
    and "redis_visible stored c' k = Some r"
  shows "redis_visible stored c k = Some r"
  using assms by (auto simp: redis_visible_def split: option.splits sum.splits)

lemma redis_Get_server: "redis_Get client k c = (x, c') \<Longrightarrow> server c' = snd (redis_get client k (server c))"
  by (auto simp: redis_Get_def Let_def split: prod.splits sum.splits redis_error.splits)

lemma redis_Get_Some:
  "redis_Get client k c = (Inr (Some r), c') \<longleftrightarrow>
    (\<exists>raw sv. redis_get client k (server c) = (Inr raw, sv) \<and> UnmarshalResponse raw = Inr r \<and> c' = add_hit (c\<lparr>server := sv\<rparr>))"
  by (auto simp: redis_Get_def Let_def split: prod.splits sum.splits redis_error.splits)

lemma redis_Set_server:
  assumes "redis_Set client k r ttl c = (y, c')"
  shows "server c' = server c \<or> (\<exists>raw. MarshalResponse r = Inr raw \<and> server c' = snd (redis_set client k raw ttl (server c)))"
  using assms by (auto simp: redis_Set_def split: prod.splits sum.splits option.splits)

sublocale redis_server \<subseteq> redis: route_cache "RedisRouteCache client" "redis_visible stored" stored_response
proof
  fix k r c c'
  assume "cache_Get (RedisRouteCache client) k c = (Inr (Some r), c')"
  then show "redis_visible stored c k = Some r"
    using get_stored by (fastforce simp: RedisRouteCache_def redis_Get_Some redis_visible_def)
next
  fix k c x c' k' r'
  assume "cache_Get (RedisRouteCache client) k c = (x, c')" and v: "redis_visible stored c' k' = Some r'"
  then have "server c' = snd (redis_get client k (server c))"
    by (simp add: RedisRouteCache_def redis_Get_server)
  then have "stored (server c) k'' = Some v" if "stored (server c') k'' = Some v" for k'' v
    using that get_adds_nothing by (metis prod.collapse)
  from redis_visible_mono [OF this v] show "redis_visible stored c k' = Some r'" .
next
  fix k r ttl c y c' k' r'
  assume "cache_Set (RedisRouteCache client) k r ttl c = (y, c')" and v: "redis_visible stored c' k' = Some r'"
  then have "server c' = server c \<or> (\<exists>raw. MarshalResponse r = Inr raw \<and> server c' = snd (redis_set client k raw ttl (server c)))"
    by (simp add: RedisRouteCache_def redis_Set_server)
  then show "k' = k \<and> stored_response r = Some r' \<or> redis_visible stored c k' = Some r'"
  proof
    assume "server c' = server c"
    then show ?thesis using v by (simp add: redis_visible_def)
  next
    assume "\<exists>raw. MarshalResponse r = Inr raw \<and> server c' = snd (redis_set client k raw ttl (server c))"
    then obtain raw where m: "MarshalResponse r = Inr raw" and s: "server c' = snd (redis_set client k raw ttl (server c))"
      by blast
    obtain raw' where raw': "stored (server c') k' = Some raw'" "UnmarshalResponse raw' = Inr r'"
      using v by (auto simp: redis_visible_def split: option.splits sum.splits)
    from s raw'(1) have "k' = k \<and> raw' = raw \<or> stored (server c) k' = Some raw'"
      using set_adds_pair by (metis prod.collapse)
    moreover have "finite_response r" using m finite_written by (auto simp: MarshalResponse_def split: option.splits)
    ultimately show ?thesis using raw' response_decode_encode [OF m] by (auto simp: redis_visible_def stored_response_def)
  qed
qed

end
