(* ===== verification/RiskAggregation.thy ===== *)
theory RiskAggregation
  imports SafeRoutesModel
begin

section \<open>Risk aggregation\<close>

text \<open>
  \<open>internal/saferoutes/risk_aggregation.go\<close>: a path's edges become the metrics of a
  route. The loops are folds whose state is a record of the loop's variables. All
  arithmetic is in binary64, in the order of the source.
\<close>

subsection \<open>Rounding for display, risk levels\<close>

definition round1 :: "f64 \<Rightarrow> f64" where
  "round1 v = math_Round (v * f64_of_rat 10) / f64_of_rat 10"

definition round3 :: "f64 \<Rightarrow> f64" where
  "round3 v = math_Round (v * f64_of_rat 1000) / f64_of_rat 1000"

definition riskLevel :: "f64 \<Rightarrow> ModelVersion \<Rightarrow> string" where
  "riskLevel score model =
     (if score \<le> mv_LowMax model then ''low''
      else if score \<le> mv_ModerateMax model then ''moderate''
      else ''high'')"

definition dominantFactor :: "CrimeMetrics \<Rightarrow> string" where
  "dominantFactor m =
     (if cm_RobberyCount m = 0 \<and> cm_TheftCount m = 0 \<and> cm_ThreatsCount m = 0 then ''none''
      else if cm_TheftCount m \<le>s cm_RobberyCount m \<and> cm_ThreatsCount m \<le>s cm_RobberyCount m
        then ''robbery''
      else if cm_ThreatsCount m \<le>s cm_TheftCount m then ''theft''
      else ''threats'')"

subsection \<open>The loop over the edges of a path\<close>

record agg_state =
  totalLength :: f64
  totalDuration :: f64
  weightedRisk :: f64
  maxRisk :: f64
  highRiskMeters :: f64
  metrics :: CrimeMetrics
  riskiestIdx :: int
  segments :: "RouteSegment list"

definition agg_init :: agg_state where
  "agg_init = \<lparr>totalLength = 0, totalDuration = 0, weightedRisk = 0, maxRisk = 0,
     highRiskMeters = 0, metrics = \<lparr>cm_CrimeCount = 0, cm_RobberyCount = 0, cm_TheftCount = 0,
       cm_ThreatsCount = 0, cm_ArmedCount = 0, cm_MotorcycleCount = 0, cm_SameBucketCrimeCount = 0\<rparr>,
     riskiestIdx = -1, segments = []\<rparr>"

definition add_metrics :: "CrimeMetrics \<Rightarrow> PathEdge \<Rightarrow> CrimeMetrics" where
  "add_metrics m e = \<lparr>cm_CrimeCount = cm_CrimeCount m + pe_CrimeCount e,
     cm_RobberyCount = cm_RobberyCount m + pe_RobberyCount e,
     cm_TheftCount = cm_TheftCount m + pe_TheftCount e,
     cm_ThreatsCount = cm_ThreatsCount m + pe_ThreatsCount e,
     cm_ArmedCount = cm_ArmedCount m + pe_ArmedCount e,
     cm_MotorcycleCount = cm_MotorcycleCount m + pe_MotorcycleCount e,
     cm_SameBucketCrimeCount = cm_SameBucketCrimeCount m + pe_SameBucketCrimeCount e\<rparr>"

definition route_segment :: "PathEdge \<Rightarrow> RouteSegment" where
  "route_segment e = \<lparr>sg_RiskScore = round3 (pe_RiskScore e), sg_RobberyCount = pe_RobberyCount e,
     sg_LengthMeters = round1 (pe_LengthMeters e),
     sg_Point = \<lparr>Lat = pe_PointLat e, Lng = pe_PointLng e\<rparr>\<rparr>"

definition agg_step :: "ModelVersion \<Rightarrow> PathEdge list \<Rightarrow> agg_state \<Rightarrow> nat \<times> PathEdge \<Rightarrow> agg_state" where
  "agg_step model edges s = (\<lambda>(i, edge).
     \<lparr>totalLength = totalLength s + pe_LengthMeters edge,
      totalDuration = totalDuration s + pe_DurationSeconds edge,
      weightedRisk = weightedRisk s + pe_LengthMeters edge * pe_RiskScore edge,
      maxRisk = math_Max (maxRisk s) (pe_RiskScore edge),
      highRiskMeters =
        (if mv_ModerateMax model < pe_RiskScore edge
         then highRiskMeters s + pe_LengthMeters edge else highRiskMeters s),
      metrics = add_metrics (metrics s) edge,
      riskiestIdx =
        (if riskiestIdx s < 0 \<or> pe_RiskScore (edges ! nat (riskiestIdx s)) < pe_RiskScore edge
         then int i else riskiestIdx s),
      segments = segments s @ [route_segment edge]\<rparr>)"

definition agg_loop :: "ModelVersion \<Rightarrow> PathEdge list \<Rightarrow> agg_state" where
  "agg_loop model edges = foldl (agg_step model edges) agg_init (enumerate 0 edges)"

definition riskiest_segment :: "ModelVersion \<Rightarrow> PathEdge \<Rightarrow> RiskiestSegment" where
  "riskiest_segment model e = \<lparr>rs_RiskScore = round3 (pe_RiskScore e),
     rs_RiskLevel = riskLevel (pe_RiskScore e) model,
     rs_LengthMeters = round1 (pe_LengthMeters e),
     rs_Point = \<lparr>Lat = pe_PointLat e, Lng = pe_PointLng e\<rparr>,
     rs_CrimeCount = pe_CrimeCount e, rs_RobberyCount = pe_RobberyCount e,
     rs_ArmedCount = pe_ArmedCount e, rs_TheftCount = pe_TheftCount e,
     rs_ThreatsCount = pe_ThreatsCount e, rs_MotorcycleCount = pe_MotorcycleCount e\<rparr>"

definition blend :: "f64 \<Rightarrow> f64 \<Rightarrow> f64" where
  "blend avg mx = f64_of_rat (3 / 4) * avg + f64_of_rat (1 / 4) * mx"

definition average :: "f64 \<Rightarrow> f64 \<Rightarrow> f64" where
  "average weighted tot = (if 0 < tot then weighted / tot else 0)"

definition aggregateRoute :: "string \<Rightarrow> RoutePath \<Rightarrow> ModelVersion \<Rightarrow> SafeRoute" where
  "aggregateRoute kind path model =
     (let s = agg_loop model (path_Edges path);
          avgRisk = average (weightedRisk s) (totalLength s);
          riskScore = blend avgRisk (maxRisk s);
          highRiskPercent =
            (if 0 < totalLength s then f64_of_rat 100 * highRiskMeters s / totalLength s else 0);
          armedShare =
            (if 0 <s cm_CrimeCount (metrics s)
             then f64_of_rat 100 * f64_of_i64 (cm_ArmedCount (metrics s))
                  / f64_of_i64 (cm_CrimeCount (metrics s))
             else 0);
          riskiest =
            (if 0 \<le> riskiestIdx s
             then Some (riskiest_segment model (path_Edges path ! nat (riskiestIdx s)))
             else None)
      in \<lparr>Kind = kind,
          DistanceMeters = round1 (totalLength s),
          DurationMinutes = round1 (totalDuration s / f64_of_rat 60),
          RiskScore = round3 riskScore,
          RiskLevel = riskLevel riskScore model,
          ExtraDistanceVsFastestMeters = 0,
          ExtraDurationVsFastestMinutes = 0,
          RiskReductionVsFastestPercent = 0,
          HighRiskEdgeMeters = round1 (highRiskMeters s),
          HighRiskEdgePercent = round1 highRiskPercent,
          MaxEdgeRisk = round3 (maxRisk s),
          AvgEdgeRisk = round3 avgRisk,
          Metrics = metrics s,
          Riskiest = riskiest,
          Segments = segments s,
          DominantFactor = dominantFactor (metrics s),
          ArmedSharePercent = round1 armedShare,
          RouteTimeOfDayRisk = None,
          Geometry = path_Geometry path\<rparr>)"

subsection \<open>The same path in every time bucket\<close>

definition bucket_scores :: "EdgeBucketRisk list \<Rightarrow> (string \<times> i64) \<rightharpoonup> f64" where
  "bucket_scores perBucket =
     foldl (\<lambda>m b. m((eb_TimeBucket b, eb_EdgeID b) \<mapsto> eb_RiskScore b)) Map.empty perBucket"

definition score_at :: "((string \<times> i64) \<rightharpoonup> f64) \<Rightarrow> string \<Rightarrow> PathEdge \<Rightarrow> f64" where
  "score_at scores bucket e = (case scores (bucket, pe_EdgeID e) of Some r \<Rightarrow> r | None \<Rightarrow> 0)"

definition bucket_step ::
  "((string \<times> i64) \<rightharpoonup> f64) \<Rightarrow> string \<Rightarrow> f64 \<times> f64 \<times> f64 \<Rightarrow> PathEdge \<Rightarrow> f64 \<times> f64 \<times> f64" where
  "bucket_step scores bucket = (\<lambda>(tot, weighted, mx) e.
     (let risk = score_at scores bucket e
      in (tot + pe_LengthMeters e, weighted + pe_LengthMeters e * risk, math_Max mx risk)))"

definition bucket_risk ::
  "((string \<times> i64) \<rightharpoonup> f64) \<Rightarrow> PathEdge list \<Rightarrow> ModelVersion \<Rightarrow> string \<Rightarrow> BucketRisk" where
  "bucket_risk scores edges model bucket =
     (case foldl (bucket_step scores bucket) (0, 0, 0) edges of (tot, weighted, mx) \<Rightarrow>
        let score = blend (average weighted tot) mx
        in \<lparr>br_RiskScore = round3 score, br_RiskLevel = riskLevel score model\<rparr>)"

definition buckets :: "string list" where
  "buckets = [''morning'', ''afternoon'', ''evening'', ''night'']"

definition peak_bucket :: "(string \<Rightarrow> BucketRisk) \<Rightarrow> string" where
  "peak_bucket result =
     foldl (\<lambda>peak bucket. if br_RiskScore (result peak) < br_RiskScore (result bucket)
              then bucket else peak) (hd buckets) (tl buckets)"

definition aggregateBucketRisk ::
  "PathEdge list \<Rightarrow> EdgeBucketRisk list \<Rightarrow> ModelVersion \<Rightarrow> TimeOfDayRisk option" where
  "aggregateBucketRisk edges perBucket model =
     (if edges = [] then None
      else let scores = bucket_scores perBucket;
               result = bucket_risk scores edges model
           in Some \<lparr>Morning = result ''morning'', Afternoon = result ''afternoon'',
                    Evening = result ''evening'', Night = result ''night'',
                    PeakBucket = peak_bucket result\<rparr>)"

subsection \<open>Comparison with the fastest route\<close>

definition setComparisons :: "SafeRoute \<Rightarrow> SafeRoute \<Rightarrow> SafeRoute" where
  "setComparisons route fastest = route\<lparr>
     ExtraDistanceVsFastestMeters := round1 (DistanceMeters route - DistanceMeters fastest),
     ExtraDurationVsFastestMinutes := round1 (DurationMinutes route - DurationMinutes fastest),
     RiskReductionVsFastestPercent :=
       (if 0 < RiskScore fastest
        then round1 (f64_of_rat 100 * (RiskScore fastest - RiskScore route) / RiskScore fastest)
        else RiskReductionVsFastestPercent route)\<rparr>"

end
