(* ===== verification/SafeRoutesService.thy ===== *)
theory SafeRoutesService
  imports RouteCaches RiskAggregation
begin

section \<open>The safe-routes service\<close>

text \<open>
  \<open>internal/saferoutes/service.go\<close>: validate, resolve the risk context, look in the cache,
  snap, route per profile, aggregate, store. The repository and the cache are interface
  values over the state \<open>'s\<close> of the world; \<open>now\<close> reads the clock of that state and \<open>zone\<close> is
  \<open>buenosAires\<close>.
\<close>

definition maxSnapToGraphMeters :: f64 where "maxSnapToGraphMeters = f64_of_rat 150"
definition leastSafeCandidateK :: int where "leastSafeCandidateK = 10"
definition leastSafeCandidateDetourRatio :: f64 where "leastSafeCandidateDetourRatio = f64_of_rat (7 / 4)"

definition isValidCABACoordinates :: "f64 \<Rightarrow> f64 \<Rightarrow> bool" where
  "isValidCABACoordinates lat lng \<longleftrightarrow>
     f64_of_rat (- 35) \<le> lat \<and> lat \<le> f64_of_rat (- 34) \<and> f64_of_rat (- 59) \<le> lng \<and> lng \<le> f64_of_rat (- 58)"

definition timeOfDayRisk :: "'s Repository \<Rightarrow> RoutePath \<Rightarrow> ModelVersion \<Rightarrow> string \<Rightarrow> ('s, saferoutes_error, TimeOfDayRisk option) prog" where
  "timeOfDayRisk repo path model weekdayType =
     (if path_Edges path = [] then ret None
      else andThen (repo_RouteRiskByBucket repo (map pe_EdgeID (path_Edges path)) (mv_ID model) weekdayType)
        (\<lambda>perBucket. ret (aggregateBucketRisk (path_Edges path) perBucket model)))"

subsection \<open>The least safe candidate\<close>

definition beyond_detour :: "SafeRoute \<Rightarrow> SafeRoute \<Rightarrow> bool" where
  "beyond_detour fastest route \<longleftrightarrow> 0 < DistanceMeters fastest \<and>
     DistanceMeters fastest * leastSafeCandidateDetourRatio < DistanceMeters route"

definition worst_step :: "SafeRoute \<Rightarrow> ModelVersion \<Rightarrow> (SafeRoute \<times> RoutePath) option \<Rightarrow> RoutePath \<Rightarrow> (SafeRoute \<times> RoutePath) option" where
  "worst_step fastest model found path =
     (let route = aggregateRoute ''least_safe_candidate'' path model
      in if beyond_detour fastest route then found
         else case found of
             None \<Rightarrow> Some (route, path)
           | Some (worst, worstPath) \<Rightarrow>
               if RiskScore worst < RiskScore route then Some (route, path) else found)"

definition worst_candidate :: "SafeRoute \<Rightarrow> ModelVersion \<Rightarrow> RoutePath list \<Rightarrow> (SafeRoute \<times> RoutePath) option" where
  "worst_candidate fastest model paths = foldl (worst_step fastest model) None paths"

definition candidate_request :: "RouteRequest \<Rightarrow> CandidateRouteRequest" where
  "candidate_request base = \<lparr>cr_FromNodeID = rq_FromNodeID base, cr_ToNodeID = rq_ToNodeID base,
     cr_ModelVersionID = rq_ModelVersionID base, cr_TimeBucket = rq_TimeBucket base,
     cr_WeekdayType = rq_WeekdayType base, cr_K = leastSafeCandidateK\<rparr>"

definition leastSafeCandidate :: "'s Repository \<Rightarrow> RouteRequest \<Rightarrow> SafeRoute \<Rightarrow> ModelVersion \<Rightarrow> ('s, saferoutes_error, SafeRoute option) prog" where
  "leastSafeCandidate repo base fastest model =
     andThen (repo_FindCandidateRoutes repo (candidate_request base)) (\<lambda>paths.
       case worst_candidate fastest model paths of
         None \<Rightarrow> ret None
       | Some (worst, worstPath) \<Rightarrow>
           andThen (timeOfDayRisk repo worstPath model (rq_WeekdayType base)) (\<lambda>tod.
             ret (Some (setComparisons (worst\<lparr>RouteTimeOfDayRisk := tod\<rparr>) fastest))))"

subsection \<open>One route per profile\<close>

definition profile_names :: "string list" where
  "profile_names = [''fastest'', ''balanced'', ''safest'']"

definition profile_request :: "(string \<rightharpoonup> RouteProfile) \<Rightarrow> RouteRequest \<Rightarrow> string \<Rightarrow> RouteRequest" where
  "profile_request profiles base name = base\<lparr>rq_SafetyMultiplier :=
     (case profiles name of Some p \<Rightarrow> rp_SafetyMultiplier p | None \<Rightarrow> 0)\<rparr>"

fun profile_routes :: "'s Repository \<Rightarrow> ModelVersion \<Rightarrow> (string \<rightharpoonup> RouteProfile) \<Rightarrow> RouteRequest \<Rightarrow> string list \<Rightarrow>
    SafeRoute \<Rightarrow> SafeRoute list \<Rightarrow> ('s, saferoutes_error, SafeRoute \<times> SafeRoute list) prog" where
  "profile_routes repo model profiles base [] fastest routes = ret (fastest, routes)"
| "profile_routes repo model profiles base (name # names) fastest routes =
     andThen (repo_FindRoute repo (profile_request profiles base name)) (\<lambda>path.
       let route = aggregateRoute name path model;
           fastest = (if name = ''fastest'' then route else fastest);
           route = setComparisons route fastest
       in andThen (timeOfDayRisk repo path model (rq_WeekdayType base)) (\<lambda>tod.
            profile_routes repo model profiles base names fastest
              (routes @ [route\<lparr>RouteTimeOfDayRisk := tod\<rparr>])))"

subsection \<open>The request\<close>

definition missing_profile :: "(string \<rightharpoonup> RouteProfile) \<Rightarrow> string option" where
  "missing_profile profiles = find (\<lambda>name. profiles name = None) profile_names"

definition base_request :: "SnapResult \<Rightarrow> ModelVersion \<Rightarrow> string \<Rightarrow> string \<Rightarrow> RouteRequest" where
  "base_request snap model timeBucket weekdayType =
     \<lparr>rq_FromNodeID = sn_OriginNodeID snap, rq_ToNodeID = sn_DestNodeID snap, rq_ModelVersionID = mv_ID model,
      rq_TimeBucket = timeBucket, rq_WeekdayType = weekdayType, rq_SafetyMultiplier = 0\<rparr>"

definition build_response :: "SafeRoutesQuery \<Rightarrow> go_time \<Rightarrow> ModelVersion \<Rightarrow> SafeRoute list \<Rightarrow> SafeRoutesResponse" where
  "build_response query moment model routes =
     \<lparr>rr_Origin = \<lparr>Lat = OriginLat query, Lng = OriginLng query\<rparr>,
      rr_Destination = \<lparr>Lat = DestLat query, Lng = DestLng query\<rparr>,
      rr_Datetime = Format_RFC3339 moment,
      rr_TimeBucket = hourToTimeBucket (Hour moment),
      rr_WeekdayType = dateToWeekdayType moment,
      rr_ModelVersion = \<lparr>mi_ID = mv_ID model, mi_Name = mv_Name model, mi_Type = mv_Type model,
        mi_TrainUntil = mv_TrainUntil model\<rparr>,
      rr_Routes = routes, rr_FromCache = False\<rparr>"

definition compute_routes :: "'s Repository \<Rightarrow> SafeRoutesQuery \<Rightarrow> go_time \<Rightarrow> ModelVersion \<Rightarrow> ('s, saferoutes_error, SafeRoute list) prog" where
  "compute_routes repo query moment model =
     andThen (repo_RouteProfiles repo) (\<lambda>profiles.
       case missing_profile profiles of
         Some name \<Rightarrow> fail (Opaque (''saferoutes: profile not seeded: '' @ name))
       | None \<Rightarrow>
           andThen (repo_SnapEndpoints repo query) (\<lambda>snap.
             if maxSnapToGraphMeters < sn_OriginDistance snap \<or> maxSnapToGraphMeters < sn_DestDistance snap
             then fail (Sentinel ErrPointOutsideGraph)
             else
               let base = base_request snap model (hourToTimeBucket (Hour moment)) (dateToWeekdayType moment)
               in andThen (profile_routes repo model profiles base profile_names zero_route []) (\<lambda>(fastest, routes).
                    andThen (leastSafeCandidate repo base fastest model) (\<lambda>candidate.
                      ret (case candidate of None \<Rightarrow> routes | Some r \<Rightarrow> routes @ [r])))))"

definition valid_query :: "SafeRoutesQuery \<Rightarrow> bool" where
  "valid_query query \<longleftrightarrow>
     isValidCABACoordinates (OriginLat query) (OriginLng query) \<and>
     isValidCABACoordinates (DestLat query) (DestLng query) \<and>
     \<not> (feq (OriginLat query) (DestLat query) \<and> feq (OriginLng query) (DestLng query))"

definition resolve_at :: "go_time \<Rightarrow> location \<Rightarrow> SafeRoutesQuery \<Rightarrow> go_time" where
  "resolve_at now zone query = (if IsZero (At query) then time_In zone now else At query)"

definition SafeRoutes :: "'s Repository \<Rightarrow> 's RouteCache \<Rightarrow> ('s \<Rightarrow> go_time) \<Rightarrow> location \<Rightarrow> SafeRoutesQuery \<Rightarrow>
    ('s, saferoutes_error, SafeRoutesResponse) prog" where
  "SafeRoutes repo cache now zone query s =
     (if \<not> valid_query query then fail (Sentinel ErrInvalidCoordinates) s
      else
        let moment = resolve_at (now s) zone query in
        andThen (repo_ActiveModel repo) (\<lambda>model s.
          let key = routeCacheKey query (hourToTimeBucket (Hour moment)) (dateToWeekdayType moment) (mv_ID model) in
          case cache_Get cache key s of
            (Inr (Some cached), s) \<Rightarrow> ret (cached\<lparr>rr_FromCache := True\<rparr>) s
          | (_, s) \<Rightarrow>
              andThen (compute_routes repo query moment model) (\<lambda>routes s.
                let response = build_response query moment model routes in
                case cache_Set cache key response routeCacheTTL s of (_, s) \<Rightarrow> ret response s) s) s)"

end
