(* ===== verification/RiskLemmas.thy ===== *)
theory RiskLemmas
  imports RiskAggregation
begin

section \<open>Lemmas on risk aggregation\<close>

text \<open>
  Each component of the loop's state as a fold of its own, the index of the riskiest edge,
  and the bounds and monotonicity of sums, averages and blends in binary64.
\<close>

subsection \<open>Sums\<close>

definition fsum :: "f64 list \<Rightarrow> f64" where
  "fsum xs = foldl (+) 0 xs"

lemma foldl_add_nonneg: "0 \<le> a \<Longrightarrow> list_all ((\<le>) 0) xs \<Longrightarrow> 0 \<le> foldl (+) a xs" for a :: f64
  by (induction xs arbitrary: a) (auto simp: f64_add_nonneg)

lemma foldl_add_mono:
  "list_all2 (\<lambda>x y. 0 \<le> x \<and> x \<le> y) xs ys \<Longrightarrow> 0 \<le> a \<Longrightarrow> a \<le> b \<Longrightarrow>
    foldl (+) a xs \<le> foldl (+) b ys" for a :: f64
proof (induction xs ys arbitrary: a b rule: list_all2_induct)
  case Nil
  then show ?case by simp
next
  case (Cons x xs y ys)
  then have "0 \<le> a + x" "a + x \<le> b + y" by (auto intro: f64_add_mono f64_add_nonneg)
  then show ?case using Cons.IH by simp
qed

lemma fsum_nonneg: "list_all ((\<le>) 0) xs \<Longrightarrow> 0 \<le> fsum xs"
  by (simp add: fsum_def foldl_add_nonneg)

lemma fsum_mono: "list_all2 (\<lambda>x y. 0 \<le> x \<and> x \<le> y) xs ys \<Longrightarrow> fsum xs \<le> fsum ys"
  by (simp add: fsum_def foldl_add_mono)

lemma foldl_add_filter_le:
  "0 \<le> a \<Longrightarrow> a \<le> b \<Longrightarrow> f64_ok b \<Longrightarrow> list_all (\<lambda>x. 0 \<le> f x) xs \<Longrightarrow>
    foldl (+) a (map f (filter P xs)) \<le> foldl (+) b (map f xs)" for a :: f64
proof (induction xs arbitrary: a b)
  case (Cons x xs)
  then have x: "0 \<le> f x" "f x \<noteq> NaN" "0 \<le> b" "b \<noteq> NInf"
    by (auto dest: f64_le_not_NaN f64_le_trans)
  then have "a + f x \<le> b + f x" "0 \<le> a + f x" "a \<le> b + f x"
    using Cons.prems f64_le_trans [OF _ f64_le_add, of a b "f x"]
    by (auto intro: f64_add_mono f64_add_nonneg dest: f64_le_not_NaN)
  then show ?case using Cons x by auto
qed simp

lemma fsum_filter_le:
  "list_all (\<lambda>x. 0 \<le> f x) xs \<Longrightarrow> fsum (map f (filter P xs)) \<le> fsum (map f xs)"
  by (simp add: fsum_def foldl_add_filter_le)

lemma fsum_nonneg_map: "(\<And>x. x \<in> set xs \<Longrightarrow> 0 \<le> f x) \<Longrightarrow> 0 \<le> fsum (map f xs)"
  by (rule fsum_nonneg) (simp add: list_all_iff)

subsection \<open>The loop, component by component\<close>

lemma agg_loop_gen:
  fixes st0 :: agg_state and model :: ModelVersion and edges :: "PathEdge list"
  defines "st \<equiv> \<lambda>n xs. foldl (agg_step model edges) st0 (enumerate n xs)"
  shows "totalLength (st n xs) = foldl (+) (totalLength st0) (map pe_LengthMeters xs)"
    and "totalDuration (st n xs) = foldl (+) (totalDuration st0) (map pe_DurationSeconds xs)"
    and "weightedRisk (st n xs) =
      foldl (+) (weightedRisk st0) (map (\<lambda>e. pe_LengthMeters e * pe_RiskScore e) xs)"
    and "maxRisk (st n xs) = foldl math_Max (maxRisk st0) (map pe_RiskScore xs)"
    and "highRiskMeters (st n xs) = foldl (+) (highRiskMeters st0)
      (map pe_LengthMeters (filter (\<lambda>e. mv_ModerateMax model < pe_RiskScore e) xs))"
    and "metrics (st n xs) = foldl add_metrics (metrics st0) xs"
    and "segments (st n xs) = segments st0 @ map route_segment xs"
  unfolding st_def by (induction xs arbitrary: n st0) (simp_all add: agg_step_def)

lemma agg_loop_simps [simp]:
  "totalLength (agg_loop model es) = fsum (map pe_LengthMeters es)"
  "totalDuration (agg_loop model es) = fsum (map pe_DurationSeconds es)"
  "weightedRisk (agg_loop model es) = fsum (map (\<lambda>e. pe_LengthMeters e * pe_RiskScore e) es)"
  "maxRisk (agg_loop model es) = foldl math_Max 0 (map pe_RiskScore es)"
  "highRiskMeters (agg_loop model es) =
     fsum (map pe_LengthMeters (filter (\<lambda>e. mv_ModerateMax model < pe_RiskScore e) es))"
  "metrics (agg_loop model es) = foldl add_metrics (metrics agg_init) es"
  "segments (agg_loop model es) = map route_segment es"
  unfolding agg_loop_def agg_loop_gen fsum_def by (simp_all add: agg_init_def)

lemma riskiestIdx_prefix:
  fixes model :: ModelVersion and xs ys :: "PathEdge list"
  assumes "\<forall>e \<in> set xs. pe_RiskScore e \<noteq> NaN"
  defines "k \<equiv> riskiestIdx (foldl (agg_step model (xs @ ys)) agg_init (enumerate 0 xs))"
  shows "if xs = [] then k = -1 else 0 \<le> k \<and> k < int (length xs) \<and>
    (\<forall>j < length xs. pe_RiskScore (xs ! j) \<le> pe_RiskScore (xs ! nat k)) \<and>
    (\<forall>j < nat k. pe_RiskScore (xs ! j) < pe_RiskScore (xs ! nat k))"
  using assms(1) unfolding k_def
proof (induction xs arbitrary: ys rule: rev_induct)
  case Nil
  then show ?case by (simp add: agg_init_def)
next
  case (snoc x xs)
  let ?s = "foldl (agg_step model (xs @ x # ys)) agg_init (enumerate 0 xs)"
  let ?k = "riskiestIdx ?s"
  have IH: "if xs = [] then ?k = -1 else 0 \<le> ?k \<and> ?k < int (length xs) \<and>
    (\<forall>j < length xs. pe_RiskScore (xs ! j) \<le> pe_RiskScore (xs ! nat ?k)) \<and>
    (\<forall>j < nat ?k. pe_RiskScore (xs ! j) < pe_RiskScore (xs ! nat ?k))"
    using snoc.IH [of "x # ys"] snoc.prems by simp
  have step: "riskiestIdx (foldl (agg_step model ((xs @ [x]) @ ys)) agg_init (enumerate 0 (xs @ [x]))) =
    (if ?k < 0 \<or> pe_RiskScore ((xs @ x # ys) ! nat ?k) < pe_RiskScore x then int (length xs) else ?k)"
    by (simp add: enumerate_append_eq agg_step_def)
  show ?case
  proof (cases "xs = []")
    case True
    then show ?thesis using IH step snoc.prems by simp
  next
    case False
    then have k: "0 \<le> ?k" "?k < int (length xs)"
      "\<And>j. j < length xs \<Longrightarrow> pe_RiskScore (xs ! j) \<le> pe_RiskScore (xs ! nat ?k)"
      "\<And>j. j < nat ?k \<Longrightarrow> pe_RiskScore (xs ! j) < pe_RiskScore (xs ! nat ?k)"
      using IH by auto
    have nn: "pe_RiskScore (xs ! nat ?k) \<noteq> NaN" "pe_RiskScore x \<noteq> NaN"
      using snoc.prems k(1,2) by auto
    show ?thesis
    proof (cases "pe_RiskScore (xs ! nat ?k) < pe_RiskScore x")
      case True
      have "pe_RiskScore (xs ! j) < pe_RiskScore x" if "j < length xs" for j
        using f64_le_trans [OF k(3) [OF that]] k(3) [OF that] True
        by (auto simp: f64_less_iff dest: f64_le_antisym)
      then show ?thesis using True step k(1,2) nn(2) by (auto simp: nth_append less_Suc_eq f64_less_iff)
    next
      case le: False
      then have "pe_RiskScore x \<le> pe_RiskScore (xs ! nat ?k)" using nn by (auto simp: f64_not_less)
      then show ?thesis using le step k by (auto simp: nth_append less_Suc_eq)
    qed
  qed
qed

lemma riskiestIdx_first_max:
  fixes model :: ModelVersion and es :: "PathEdge list"
  assumes "\<forall>e \<in> set es. pe_RiskScore e \<noteq> NaN" "es \<noteq> []"
  defines "k \<equiv> riskiestIdx (agg_loop model es)"
  shows "0 \<le> k" "nat k < length es"
    "\<And>j. j < length es \<Longrightarrow> pe_RiskScore (es ! j) \<le> pe_RiskScore (es ! nat k)"
    "\<And>j. j < nat k \<Longrightarrow> pe_RiskScore (es ! j) < pe_RiskScore (es ! nat k)"
  using riskiestIdx_prefix [OF assms(1), of model "[]"] assms(2)
  unfolding k_def agg_loop_def by auto

lemma riskiestIdx_Nil [simp]: "riskiestIdx (agg_loop model []) = -1"
  by (simp add: agg_loop_def agg_init_def)

subsection \<open>Maxima\<close>

lemma foldl_Max_ub:
  "a \<noteq> NaN \<Longrightarrow> \<forall>x \<in> set xs. x \<noteq> NaN \<Longrightarrow>
    a \<le> foldl math_Max a xs \<and> (\<forall>x \<in> set xs. x \<le> foldl math_Max a xs) \<and>
    foldl math_Max a xs \<in> insert a (set xs)"
proof (induction xs arbitrary: a)
  case (Cons x xs)
  then have nn: "math_Max a x \<noteq> NaN" and c: "math_Max a x = a \<or> math_Max a x = x"
    using math_Max_cases [of a x] by auto
  have "math_Max a x \<le> foldl math_Max (math_Max a x) xs"
    "\<forall>y \<in> set xs. y \<le> foldl math_Max (math_Max a x) xs"
    "foldl math_Max (math_Max a x) xs \<in> insert (math_Max a x) (set xs)"
    using Cons nn by auto
  moreover have "a \<le> math_Max a x" "x \<le> math_Max a x" using Cons.prems math_Max_ub by auto
  ultimately show ?case using c by (auto dest: f64_le_trans)
qed simp

lemma foldl_Max_mono:
  "list_all2 (\<le>) xs ys \<Longrightarrow> a \<le> b \<Longrightarrow> foldl math_Max a xs \<le> foldl math_Max b ys"
  by (induction xs ys arbitrary: a b rule: list_all2_induct) (auto intro: math_Max_mono)

subsection \<open>Percentages and display rounding\<close>

lemma round64_multiple: "round64 q = q \<Longrightarrow> 0 < q \<Longrightarrow> \<exists>n. q = of_int n * two_powi (- 1074)"
proof -
  assume q: "round64 q = q" "0 < q"
  obtain m e where "- 1074 \<le> e" "round64 q = of_int m * two_powi e"
    using q(2) by (rule round64_form_pos)
  then have "q = of_int (m * 2 ^ nat (e + 1074)) * two_powi (- 1074)"
    using q two_powi_nonneg_int [of "e + 1074"] two_powi_add [of "e + 1074" "- 1074"] by simp
  then show ?thesis by blast
qed

lemma f64_ok_Fin: "f64_ok (Fin q) \<Longrightarrow> round64 q = q"
  by (auto simp: f64_ok_def f64_of_rat_def Let_def split: if_splits)

lemma f64_of_rat_le: "f64_of_rat q = Fin r \<Longrightarrow> r = round64 q"
  by (auto simp: f64_of_rat_def Let_def split: if_splits)

lemma lit_consts:
  "f64_of_rat 10 = Fin 10" "f64_of_rat 1000 = Fin 1000" "f64_of_rat 100 = Fin 100" "f64_of_rat 60 = Fin 60"
  "f64_of_rat (3 / 4) = Fin (3 / 4)" "f64_of_rat (1 / 4) = Fin (1 / 4)"
  by code_simp+

lemma round1_mono: "0 \<le> x \<Longrightarrow> x \<le> y \<Longrightarrow> round1 x \<le> round1 y"
proof -
  assume a: "0 \<le> x" "x \<le> y"
  have m: "x * Fin 10 \<le> y * Fin 10" "0 \<le> x * Fin 10"
    using a by (cases x; cases y; auto intro!: f64_of_rat_mono)+
  then have "0 \<le> math_Round (x * Fin 10)" by (intro math_Round_nonneg)
  then show ?thesis unfolding round1_def lit_consts
    using m by (intro f64_div_mono math_Round_mono) auto
qed

lemma round3_mono: "0 \<le> x \<Longrightarrow> x \<le> y \<Longrightarrow> round3 x \<le> round3 y"
proof -
  assume a: "0 \<le> x" "x \<le> y"
  have m: "x * Fin 1000 \<le> y * Fin 1000" "0 \<le> x * Fin 1000"
    using a by (cases x; cases y; auto intro!: f64_of_rat_mono)+
  then have "0 \<le> math_Round (x * Fin 1000)" by (intro math_Round_nonneg)
  then show ?thesis unfolding round3_def lit_consts
    using m by (intro f64_div_mono math_Round_mono) auto
qed

lemma round_values: "round1 0 = 0" "round3 0 = 0" "round3 1 = 1"
  "round1 (f64_of_rat (10001 / 100)) = f64_of_rat 100"
  by code_simp+

lemma round1_nonneg: "0 \<le> x \<Longrightarrow> 0 \<le> round1 x" and round3_nonneg: "0 \<le> x \<Longrightarrow> 0 \<le> round3 x"
  using round1_mono [of 0 x] round3_mono [of 0 x] by (simp_all add: round_values)

lemma round3_unit: "0 \<le> x \<Longrightarrow> x \<le> 1 \<Longrightarrow> 0 \<le> round3 x \<and> round3 x \<le> 1"
  using round3_mono [of x 1] round3_nonneg [of x] by (simp add: round_values)

lemma hundred_over_self:
  assumes "f64_ok t" "0 < t" "f64_of_rat 100 * t \<noteq> PInf"
  shows "f64_of_rat 100 * t / t \<le> f64_of_rat (10001 / 100)"
proof (cases t)
  case (Fin q)
  have q: "0 < q" and r: "round64 q = q" using assms(1,2) f64_ok_Fin by (auto simp: Fin)
  obtain n where "q = of_int n * two_powi (- 1074)" using round64_multiple [OF r q] by blast
  then have "100 * q = of_int (100 * n) * two_powi (- 1074)" by simp
  then have ex: "\<exists>m. 100 * q = of_int m * two_powi (- 1074)" by blast
  have a: "\<bar>round64 (100 * q) - 100 * q\<bar> \<le> 100 * q * two_powi (- 53)"
    using q ex by (intro round64_relative_error) simp_all
  have "two_powi (- 53) \<le> 1 / 10000" by (simp add: two_powi_def)
  then have b: "100 * q * two_powi (- 53) \<le> 100 * q * (1 / 10000)" using q by (intro mult_left_mono) auto
  have "round64 (100 * q) \<le> 10001 / 100 * q" using a b unfolding abs_le_iff by linarith
  then have le: "round64 (100 * q) / q \<le> 10001 / 100" using q by (simp add: divide_le_eq)
  have "f64_of_rat (100 * q) \<noteq> PInf" "0 \<le> f64_of_rat (100 * q)" using assms(3) q by (simp_all add: Fin lit_consts)
  then obtain p where p: "f64_of_rat (100 * q) = Fin p" by (cases "f64_of_rat (100 * q)") auto
  then have "p = round64 (100 * q)" by (rule f64_of_rat_le)
  then have "f64_of_rat (p / q) \<le> f64_of_rat (10001 / 100)" using le by (intro f64_of_rat_mono) simp
  then show ?thesis using q by (simp add: Fin lit_consts p)
qed (use assms in \<open>auto simp: less_f64_def lit_consts\<close>)

lemma percent_bounds:
  assumes "0 \<le> h" "h \<le> t" "f64_ok t" "0 < t" "f64_of_rat 100 * t \<noteq> PInf"
  shows "0 \<le> f64_of_rat 100 * h / t" "round1 (f64_of_rat 100 * h / t) \<le> f64_of_rat 100"
proof -
  have t: "t \<noteq> PInf" using assms(5) by (auto simp: lit_consts)
  have h: "h \<noteq> PInf" using assms(2) t by (cases t) auto
  have m: "0 \<le> f64_of_rat 100 * h" "f64_of_rat 100 * h \<le> f64_of_rat 100 * t"
    using assms(1,2) t h by (auto simp: lit_consts intro!: f64_mult_nonneg f64_mult_mono)
  have "f64_of_rat 100 * h \<noteq> PInf" using m(2) assms(5) by (cases "f64_of_rat 100 * t") auto
  then show nn: "0 \<le> f64_of_rat 100 * h / t" using m(1) assms(4) by (intro f64_div_nonneg)
  have "f64_of_rat 100 * h / t \<le> f64_of_rat 100 * t / t"
    using m assms(4) t by (intro f64_div_mono)
  also have "\<dots> \<le> f64_of_rat (10001 / 100)" using assms(3-5) by (rule hundred_over_self)
  finally show "round1 (f64_of_rat 100 * h / t) \<le> f64_of_rat 100"
    using round1_mono [OF nn] round_values(4) by metis
qed

subsection \<open>Averages and blends\<close>

lemma average_unit:
  assumes "0 \<le> w" "w \<le> t" "t \<noteq> PInf"
  shows "0 \<le> average w t" "average w t \<le> 1"
proof -
  have w: "w \<noteq> PInf" using assms by (cases t) auto
  show "0 \<le> average w t" using assms w by (auto simp: average_def intro: f64_div_nonneg)
  show "average w t \<le> 1"
  proof (cases "0 < t")
    case True
    then have "w / t \<le> t / t" using assms by (intro f64_div_mono)
    then show ?thesis using True f64_div_self assms(3) by (simp add: average_def)
  qed (simp add: average_def zero_f64_def)
qed

lemma average_mono:
  "0 \<le> v \<Longrightarrow> v \<le> w \<Longrightarrow> t \<noteq> PInf \<Longrightarrow> average v t \<le> average w t"
  by (auto simp: average_def intro: f64_div_mono)

lemma blend_mono:
  assumes "0 \<le> a" "a \<le> b" "b \<le> 1" "0 \<le> x" "x \<le> y" "y \<le> 1"
  shows "0 \<le> blend a x" "blend a x \<le> blend b y" "blend b y \<le> 1" "f64_of_rat (1 / 4) * x \<le> blend a x"
proof -
  have fin: "b \<noteq> PInf" "y \<noteq> PInf" "a \<noteq> PInf" "x \<noteq> PInf"
    using assms by (auto simp: one_f64_def)
  have c: "0 \<le> f64_of_rat (3 / 4)" "0 \<le> f64_of_rat (1 / 4)" by simp_all
  have p: "0 \<le> f64_of_rat (3 / 4) * a" "0 \<le> f64_of_rat (1 / 4) * x"
    using assms fin by (auto intro!: f64_mult_nonneg simp: lit_consts)
  then show "0 \<le> blend a x" unfolding blend_def by (rule f64_add_nonneg)
  have nn: "0 \<le> b" "0 \<le> y" using assms f64_le_trans by blast+
  show "blend a x \<le> blend b y" unfolding blend_def
    using assms fin p by (intro f64_add_mono f64_mult_mono) (auto simp: lit_consts)
  have "0 \<le> f64_of_rat (3 / 4) * b" "0 \<le> f64_of_rat (1 / 4) * y"
    using nn fin by (auto intro!: f64_mult_nonneg simp: lit_consts)
  moreover have "f64_of_rat (3 / 4) * b \<le> f64_of_rat (3 / 4) * 1" "f64_of_rat (1 / 4) * y \<le> f64_of_rat (1 / 4) * 1"
    using assms fin nn by (auto intro!: f64_mult_mono simp: lit_consts)
  ultimately have "blend b y \<le> f64_of_rat (3 / 4) * 1 + f64_of_rat (1 / 4) * 1"
    unfolding blend_def by (intro f64_add_mono)
  also have "\<dots> = 1" by code_simp
  finally show "blend b y \<le> 1" .
  have "f64_of_rat (1 / 4) * x \<le> f64_of_rat (1 / 4) * x + f64_of_rat (3 / 4) * a"
    using p by (intro f64_le_add) (auto dest: f64_le_not_NaN)
  also have "\<dots> = blend a x" unfolding blend_def
    using p by (cases "f64_of_rat (1 / 4) * x"; cases "f64_of_rat (3 / 4) * a") (auto simp: add.commute)
  finally show "f64_of_rat (1 / 4) * x \<le> blend a x" .
qed

end
