(* ===== verification/RiskProperties.thy ===== *)
theory RiskProperties
  imports RiskLemmas
begin

section \<open>Correctness of risk aggregation\<close>

text \<open>
  The hypotheses on edges are the constraints of the schema
  (\<open>migrations/000009_restructure_risk_model_tables.up.sql\<close>: a risk score lies between
  0 and 1) and of the road graph (lengths are finite and not negative), and that a
  hundred times the length of the path does not overflow a binary64.
\<close>

definition valid_edge :: "PathEdge \<Rightarrow> bool" where
  "valid_edge e \<longleftrightarrow> is_fin (pe_LengthMeters e) \<and> 0 \<le> pe_LengthMeters e \<and>
     is_fin (pe_RiskScore e) \<and> 0 \<le> pe_RiskScore e \<and> pe_RiskScore e \<le> 1"

definition valid_path :: "PathEdge list \<Rightarrow> bool" where
  "valid_path es \<longleftrightarrow> list_all valid_edge es \<and> f64_of_rat 100 * fsum (map pe_LengthMeters es) \<noteq> PInf"

definition level_rank :: "string \<Rightarrow> nat" where
  "level_rank l = (if l = ''low'' then 0 else if l = ''moderate'' then 1 else 2)"

subsection \<open>Facts about valid paths\<close>

lemma valid_edgeD:
  assumes "list_all valid_edge es" "e \<in> set es"
  shows "0 \<le> pe_LengthMeters e" "pe_LengthMeters e \<noteq> PInf" "is_fin (pe_LengthMeters e)"
    "0 \<le> pe_RiskScore e" "pe_RiskScore e \<le> 1" "pe_RiskScore e \<noteq> NaN" "pe_RiskScore e \<noteq> PInf"
    "0 \<le> pe_LengthMeters e * pe_RiskScore e" "pe_LengthMeters e * pe_RiskScore e \<le> pe_LengthMeters e"
    "pe_LengthMeters e \<noteq> NaN"
proof -
  from assms have v: "valid_edge e" by (auto simp: list_all_iff)
  then show *: "0 \<le> pe_LengthMeters e" "pe_LengthMeters e \<noteq> PInf" "is_fin (pe_LengthMeters e)"
    "0 \<le> pe_RiskScore e" "pe_RiskScore e \<le> 1" "pe_RiskScore e \<noteq> NaN" "pe_RiskScore e \<noteq> PInf"
    "pe_LengthMeters e \<noteq> NaN"
    by (auto simp: valid_edge_def dest: is_fin_not)
  show "0 \<le> pe_LengthMeters e * pe_RiskScore e" using * by (intro f64_mult_nonneg)
  have "pe_LengthMeters e * pe_RiskScore e \<le> pe_LengthMeters e * 1"
    using * is_fin_not by (intro f64_mult_mono) (auto dest: f64_le_not_NaN)
  then show "pe_LengthMeters e * pe_RiskScore e \<le> pe_LengthMeters e" using * f64_mult_1 by simp
qed

lemma valid_pathD:
  assumes "valid_path es"
  shows "list_all valid_edge es" "fsum (map pe_LengthMeters es) \<noteq> PInf"
    "0 \<le> fsum (map pe_LengthMeters es)" "f64_ok (fsum (map pe_LengthMeters es))"
    "0 \<le> fsum (map (\<lambda>e. pe_LengthMeters e * pe_RiskScore e) es)"
    "fsum (map (\<lambda>e. pe_LengthMeters e * pe_RiskScore e) es) \<le> fsum (map pe_LengthMeters es)"
proof -
  from assms show v: "list_all valid_edge es" by (simp add: valid_path_def)
  from assms show "fsum (map pe_LengthMeters es) \<noteq> PInf" by (auto simp: valid_path_def lit_consts)
  show "0 \<le> fsum (map pe_LengthMeters es)" "0 \<le> fsum (map (\<lambda>e. pe_LengthMeters e * pe_RiskScore e) es)"
    using valid_edgeD [OF v] by (auto intro!: fsum_nonneg_map)
  show "f64_ok (fsum (map pe_LengthMeters es))"
    by (cases es rule: rev_cases) (simp_all add: fsum_def)
  show "fsum (map (\<lambda>e. pe_LengthMeters e * pe_RiskScore e) es) \<le> fsum (map pe_LengthMeters es)"
    using valid_edgeD [OF v] by (intro fsum_mono) (auto simp: list_all2_conv_all_nth)
qed

lemma valid_path_max:
  assumes "list_all valid_edge es"
  defines "m \<equiv> foldl math_Max 0 (map pe_RiskScore es)"
  shows "0 \<le> m" "m \<le> 1" "\<And>e. e \<in> set es \<Longrightarrow> pe_RiskScore e \<le> m"
    "es \<noteq> [] \<Longrightarrow> \<exists>e \<in> set es. m = pe_RiskScore e"
proof -
  have nn: "\<forall>x \<in> set (map pe_RiskScore es). x \<noteq> NaN" using valid_edgeD(6) [OF assms(1)] by auto
  note F = foldl_Max_ub [of 0, OF _ nn, folded m_def, simplified]
  show "0 \<le> m" "\<And>e. e \<in> set es \<Longrightarrow> pe_RiskScore e \<le> m" using F by auto
  have "m = 0 \<or> (\<exists>e \<in> set es. m = pe_RiskScore e)" using F by auto
  then show "m \<le> 1" using valid_edgeD(5) [OF assms(1)] by (auto simp: zero_f64_def)
  assume "es \<noteq> []"
  then obtain e where e: "e \<in> set es" by (cases es) auto
  then have "pe_RiskScore e \<le> m" "0 \<le> pe_RiskScore e" using F valid_edgeD(4) [OF assms(1) e] by auto
  then show "\<exists>e \<in> set es. m = pe_RiskScore e"
    using e f64_le_antisym \<open>m = 0 \<or> _\<close> by metis
qed

lemmas aggregateRoute_unfold = aggregateRoute_def Let_def SafeRoute.simps

lemma blended_route:
  assumes "valid_path es"
  defines "a \<equiv> average (fsum (map (\<lambda>e. pe_LengthMeters e * pe_RiskScore e) es)) (fsum (map pe_LengthMeters es))"
    and "m \<equiv> foldl math_Max 0 (map pe_RiskScore es)"
  shows "0 \<le> a" "a \<le> 1" "0 \<le> m" "m \<le> 1" "0 \<le> blend a m" "blend a m \<le> 1" "f64_of_rat (1 / 4) * m \<le> blend a m"
proof -
  note v = valid_pathD [OF assms(1)]
  show a: "0 \<le> a" "a \<le> 1" unfolding a_def using average_unit [OF v(5,6,2)] by auto
  show m: "0 \<le> m" "m \<le> 1" unfolding m_def using valid_path_max [OF v(1)] by auto
  show "0 \<le> blend a m" "blend a m \<le> 1" "f64_of_rat (1 / 4) * m \<le> blend a m"
    using blend_mono [of a a m m] a m by (auto dest: f64_le_not_NaN)
qed

definition example_edge :: "rat \<Rightarrow> rat \<Rightarrow> PathEdge" where
  "example_edge len risk = \<lparr>pe_EdgeID = 7, pe_LengthMeters = f64_of_rat len, pe_DurationSeconds = f64_of_rat 60,
     pe_RiskScore = f64_of_rat risk, pe_CrimeCount = 5, pe_RobberyCount = 3, pe_TheftCount = 1,
     pe_ThreatsCount = 1, pe_ArmedCount = 2, pe_MotorcycleCount = 0, pe_SameBucketCrimeCount = 4,
     pe_PointLat = f64_of_rat (- 346 / 10), pe_PointLng = f64_of_rat (- 584 / 10)\<rparr>"

definition example_path :: "PathEdge list" where
  "example_path = [example_edge 120 (1 / 10), example_edge 80 (9 / 10), example_edge 50 (1 / 2)]"

definition example_model :: ModelVersion where
  "example_model = \<lparr>mv_ID = 1, mv_Name = ''kde'', mv_Type = ''network_temporal_kde'',
     mv_TrainUntil = ''2025-12-31'', mv_LowMax = f64_of_rat (33 / 100), mv_ModerateMax = f64_of_rat (66 / 100)\<rparr>"

definition example_line :: GeoJSONLineString where
  "example_line = \<lparr>ls_Type = ''LineString'', ls_Coordinates = []\<rparr>"

lemma example_path_valid: "valid_path example_path"
  by code_simp

subsection \<open>Scores stay in the unit interval\<close>

text \<open>C5. On a path that satisfies the schema's constraints, the blended risk score, the
  average and the maximum that \<open>aggregateRoute\<close> reports all lie between 0 and 1, in
  binary64 arithmetic with its rounding.\<close>

theorem aggregateRoute_unit_scores:
  assumes "valid_path (path_Edges p)"
  shows "0 \<le> RiskScore (aggregateRoute k p m) \<and> RiskScore (aggregateRoute k p m) \<le> 1 \<and>
    0 \<le> AvgEdgeRisk (aggregateRoute k p m) \<and> AvgEdgeRisk (aggregateRoute k p m) \<le> 1 \<and>
    0 \<le> MaxEdgeRisk (aggregateRoute k p m) \<and> MaxEdgeRisk (aggregateRoute k p m) \<le> 1"
  using blended_route [OF assms] by (auto simp: aggregateRoute_unfold intro: round3_unit [THEN conjunct1] round3_unit [THEN conjunct2])

theorem aggregateRoute_unit_scores_witness:
  "RiskScore (aggregateRoute ''fastest'' \<lparr>path_Edges = example_path, path_Geometry = example_line\<rparr> example_model) \<le> 1"
  using aggregateRoute_unit_scores [of "\<lparr>path_Edges = example_path, path_Geometry = example_line\<rparr>" "''fastest''" example_model]
    example_path_valid by simp

text \<open>C24. The length reported as high risk never exceeds the length of the route, and the
  percentage lies between 0 and 100, although the division is rounded: the error of
  \<open>100 * h / t\<close> disappears in the final rounding to one decimal.\<close>

theorem aggregateRoute_high_risk_share:
  assumes "valid_path (path_Edges p)"
  shows "0 \<le> HighRiskEdgeMeters (aggregateRoute k p m) \<and>
    HighRiskEdgeMeters (aggregateRoute k p m) \<le> DistanceMeters (aggregateRoute k p m) \<and>
    0 \<le> HighRiskEdgePercent (aggregateRoute k p m) \<and>
    HighRiskEdgePercent (aggregateRoute k p m) \<le> f64_of_rat 100"
proof (intro conjI)
  let ?es = "path_Edges p" let ?P = "\<lambda>e. mv_ModerateMax m < pe_RiskScore e"
  let ?h = "fsum (map pe_LengthMeters (filter ?P ?es))" let ?t = "fsum (map pe_LengthMeters ?es)"
  note v = valid_pathD [OF assms]
  have h: "0 \<le> ?h" using valid_edgeD(1) [OF v(1)] by (auto intro!: fsum_nonneg_map)
  have le: "?h \<le> ?t" using valid_edgeD(1) [OF v(1)] by (intro fsum_filter_le) (simp add: list_all_iff)
  show "0 \<le> HighRiskEdgeMeters (aggregateRoute k p m)"
    "HighRiskEdgeMeters (aggregateRoute k p m) \<le> DistanceMeters (aggregateRoute k p m)"
    using h le by (auto simp: aggregateRoute_unfold intro: round1_nonneg round1_mono)
  show "0 \<le> HighRiskEdgePercent (aggregateRoute k p m)"
    "HighRiskEdgePercent (aggregateRoute k p m) \<le> f64_of_rat 100"
    using percent_bounds [OF h le v(4)] assms
    by (auto simp: aggregateRoute_unfold valid_path_def round_values intro!: round1_nonneg)
qed

theorem aggregateRoute_high_risk_share_witness:
  "HighRiskEdgePercent (aggregateRoute ''fastest'' \<lparr>path_Edges = example_path, path_Geometry = example_line\<rparr> example_model)
     \<le> f64_of_rat 100"
  using aggregateRoute_high_risk_share [of "\<lparr>path_Edges = example_path, path_Geometry = example_line\<rparr>" "''fastest''" example_model]
    example_path_valid by simp

subsection \<open>A dangerous stretch is not averaged away, and risk is monotone\<close>

text \<open>C25. Every edge's risk bounds the score from below: a quarter of it survives in the route's
  score however long the rest of the path is. This is why the score blends in the maximum.\<close>

theorem aggregateRoute_risk_floor:
  assumes "valid_path (path_Edges p)" "e \<in> set (path_Edges p)"
  shows "round3 (f64_of_rat (1 / 4) * pe_RiskScore e) \<le> RiskScore (aggregateRoute k p m)"
proof -
  let ?mx = "foldl math_Max 0 (map pe_RiskScore (path_Edges p))"
  note v = valid_pathD(1) [OF assms(1)] and b = blended_route [OF assms(1)]
  note e = valid_edgeD [OF v assms(2)] and M = valid_path_max [OF v]
  have mx: "?mx \<noteq> PInf" using M(2) by (auto simp: one_f64_def)
  have "0 \<le> f64_of_rat (1 / 4) * pe_RiskScore e" using e by (intro f64_mult_nonneg) (auto simp: lit_consts)
  moreover have "f64_of_rat (1 / 4) * pe_RiskScore e \<le> f64_of_rat (1 / 4) * ?mx"
    using e M(3) [OF assms(2)] mx by (intro f64_mult_mono) (auto simp: lit_consts)
  ultimately show ?thesis
    using f64_le_trans [OF _ b(7)] by (auto simp: aggregateRoute_unfold intro: round3_mono)
qed

theorem aggregateRoute_risk_floor_witness:
  "round3 (f64_of_rat (1 / 4) * f64_of_rat (9 / 10)) \<le>
     RiskScore (aggregateRoute ''fastest'' \<lparr>path_Edges = example_path, path_Geometry = example_line\<rparr> example_model)"
  using aggregateRoute_risk_floor [of "\<lparr>path_Edges = example_path, path_Geometry = example_line\<rparr>"
    "example_edge 80 (9 / 10)" "''fastest''" example_model] example_path_valid
  by (simp add: example_path_def example_edge_def)

text \<open>C16. Raising the risk of edges, with the lengths unchanged, never lowers a route's risk
  score nor its level, whatever the rounding does on the way.\<close>

theorem aggregateRoute_risk_mono:
  assumes "valid_path (path_Edges p)" "valid_path (path_Edges q)"
    and "list_all2 (\<lambda>e d. pe_LengthMeters e = pe_LengthMeters d \<and> pe_RiskScore e \<le> pe_RiskScore d)
           (path_Edges p) (path_Edges q)"
  shows "RiskScore (aggregateRoute k p m) \<le> RiskScore (aggregateRoute k' q m) \<and>
    level_rank (RiskLevel (aggregateRoute k p m)) \<le> level_rank (RiskLevel (aggregateRoute k' q m))"
proof (intro conjI)
  let ?w = "\<lambda>es. fsum (map (\<lambda>e. pe_LengthMeters e * pe_RiskScore e) es)"
  let ?mx = "\<lambda>es. foldl math_Max 0 (map pe_RiskScore es)" and ?es = "path_Edges p" and ?ds = "path_Edges q"
  note P = valid_pathD [OF assms(1)] and Q = valid_pathD [OF assms(2)]
  have len: "map pe_LengthMeters ?es = map pe_LengthMeters ?ds" and n: "length ?es = length ?ds"
    using assms(3) by (auto simp: list_all2_conv_all_nth list_eq_iff_nth_eq)
  have w: "?w ?es \<le> ?w ?ds"
    using valid_edgeD(2,4,7,8) [OF P(1)] valid_edgeD(1,2,4,7,10) [OF Q(1)]
    by (intro fsum_mono) (simp add: list.rel_map,
      auto intro!: list.rel_mono_strong [OF assms(3)] f64_mult_mono dest: f64_le_not_NaN)
  have mx: "?mx ?es \<le> ?mx ?ds"
    using assms(3) by (intro foldl_Max_mono) (auto simp: list_all2_conv_all_nth)
  let ?a = "average (?w ?es) (fsum (map pe_LengthMeters ?es))" and ?b = "average (?w ?ds) (fsum (map pe_LengthMeters ?ds))"
  have ab: "?a \<le> ?b" using average_mono [OF P(5) w P(2)] len by simp
  note B = blended_route [OF assms(1)] and D = blended_route [OF assms(2)]
  have bl: "blend ?a (?mx ?es) \<le> blend ?b (?mx ?ds)"
    using blend_mono(2) [OF B(1) ab D(2) B(3) mx D(4)] .
  then show "RiskScore (aggregateRoute k p m) \<le> RiskScore (aggregateRoute k' q m)"
    using B(5) by (simp add: aggregateRoute_unfold round3_mono)
  show "level_rank (RiskLevel (aggregateRoute k p m)) \<le> level_rank (RiskLevel (aggregateRoute k' q m))"
    using bl by (auto simp: aggregateRoute_unfold riskLevel_def level_rank_def dest: f64_le_trans)
qed

theorem aggregateRoute_risk_mono_witness:
  "RiskScore (aggregateRoute ''fastest'' \<lparr>path_Edges = [example_edge 120 (1 / 10)], path_Geometry = example_line\<rparr> example_model)
   \<le> RiskScore (aggregateRoute ''fastest'' \<lparr>path_Edges = [example_edge 120 (9 / 10)], path_Geometry = example_line\<rparr> example_model)"
proof -
  have "valid_path [example_edge 120 (1 / 10)]" "valid_path [example_edge 120 (9 / 10)]" by code_simp+
  moreover have "f64_of_rat (1 / 10) \<le> f64_of_rat (9 / 10)" by (rule f64_of_rat_mono) simp
  ultimately show ?thesis
    using aggregateRoute_risk_mono [of "\<lparr>path_Edges = [example_edge 120 (1 / 10)], path_Geometry = example_line\<rparr>"
      "\<lparr>path_Edges = [example_edge 120 (9 / 10)], path_Geometry = example_line\<rparr>" "''fastest''" example_model "''fastest''"]
    by (simp add: example_edge_def)
qed

subsection \<open>The riskiest segment\<close>

text \<open>The reported riskiest segment is the first edge of maximal risk, and its score is
  the route's \<open>MaxEdgeRisk\<close>; a route without edges has none.\<close>

theorem riskiest_segment_first_max:
  assumes "list_all valid_edge (path_Edges p)"
  shows "if path_Edges p = [] then Riskiest (aggregateRoute k p m) = None
    else \<exists>i < length (path_Edges p). Riskiest (aggregateRoute k p m) = Some (riskiest_segment m (path_Edges p ! i)) \<and>
      rs_RiskScore (riskiest_segment m (path_Edges p ! i)) = MaxEdgeRisk (aggregateRoute k p m) \<and>
      (\<forall>j < length (path_Edges p). pe_RiskScore (path_Edges p ! j) \<le> pe_RiskScore (path_Edges p ! i)) \<and>
      (\<forall>j < i. pe_RiskScore (path_Edges p ! j) < pe_RiskScore (path_Edges p ! i))"
proof (cases "path_Edges p = []")
  case True
  then show ?thesis by (simp add: aggregateRoute_unfold)
next
  case False
  let ?es = "path_Edges p" let ?k = "riskiestIdx (agg_loop m ?es)"
  have nn: "\<forall>e \<in> set ?es. pe_RiskScore e \<noteq> NaN" using valid_edgeD(6) [OF assms] by blast
  note K = riskiestIdx_first_max [OF nn False, where model = m] and M = valid_path_max [OF assms]
  obtain e where e: "e \<in> set ?es" "foldl math_Max 0 (map pe_RiskScore ?es) = pe_RiskScore e"
    using M(4) False by blast
  have "pe_RiskScore e \<le> pe_RiskScore (?es ! nat ?k)" using K(3) e(1) by (metis in_set_conv_nth)
  moreover have "pe_RiskScore (?es ! nat ?k) \<le> pe_RiskScore e" using M(3) [OF nth_mem [OF K(2)]] e(2) by simp
  ultimately have "foldl math_Max 0 (map pe_RiskScore ?es) = pe_RiskScore (?es ! nat ?k)"
    using e(2) f64_le_antisym by metis
  then show ?thesis
    using False K by (auto simp: aggregateRoute_unfold riskiest_segment_def intro!: exI [of _ "nat ?k"])
qed

theorem riskiest_segment_first_max_witness:
  "Riskiest (aggregateRoute ''fastest'' \<lparr>path_Edges = example_path, path_Geometry = example_line\<rparr> example_model) \<noteq> None"
proof -
  have "list_all valid_edge example_path" using example_path_valid by (simp add: valid_path_def)
  then show ?thesis
    using riskiest_segment_first_max [of "\<lparr>path_Edges = example_path, path_Geometry = example_line\<rparr>" "''fastest''" example_model]
    by (auto simp: example_path_def)
qed


subsection \<open>Crime counts\<close>

definition metric_fields :: "((CrimeMetrics \<Rightarrow> i64) \<times> (PathEdge \<Rightarrow> i64)) list" where
  "metric_fields = [(cm_CrimeCount, pe_CrimeCount), (cm_RobberyCount, pe_RobberyCount),
     (cm_TheftCount, pe_TheftCount), (cm_ThreatsCount, pe_ThreatsCount), (cm_ArmedCount, pe_ArmedCount),
     (cm_MotorcycleCount, pe_MotorcycleCount), (cm_SameBucketCrimeCount, pe_SameBucketCrimeCount)]"

lemma foldl_add_metrics:
  "(g, f) \<in> set metric_fields \<Longrightarrow> g (foldl add_metrics m es) = g m + (\<Sum>e\<leftarrow>es. f e)"
  by (induction es arbitrary: m) (auto simp: metric_fields_def add_metrics_def)

lemma sint_sum_list: "sint (\<Sum>x\<leftarrow>xs. f x :: 64 word) = signed_take_bit 63 (\<Sum>x\<leftarrow>xs. sint (f x))"
proof (induction xs)
  case (Cons x xs)
  have x: "sint (f x) = signed_take_bit 63 (sint (f x))"
    using sint_ge [of "f x"] sint_lt [of "f x"] by (simp add: signed_take_bit_int_eq_self)
  have "sint (f x + (\<Sum>x\<leftarrow>xs. f x)) = signed_take_bit 63 (sint (f x) + sint (\<Sum>x\<leftarrow>xs. f x))"
    by (simp add: sint_word_ariths(1))
  also have "\<dots> = signed_take_bit 63 (sint (f x) + (\<Sum>x\<leftarrow>xs. sint (f x)))"
    unfolding Cons by (subst x) (rule signed_take_bit_add)
  finally show ?case by simp
qed simp

text \<open>C26. Each of the seven crime counts of a route is the exact sum of the edges' counts,
  whenever that sum fits an \<open>int64\<close> (otherwise it wraps).\<close>

theorem crime_metrics_exact:
  assumes "(g, f) \<in> set metric_fields"
    and "- (2 ^ 63) \<le> (\<Sum>e\<leftarrow>path_Edges p. sint (f e))" "(\<Sum>e\<leftarrow>path_Edges p. sint (f e)) < 2 ^ 63"
  shows "sint (g (Metrics (aggregateRoute k p m))) = (\<Sum>e\<leftarrow>path_Edges p. sint (f e))"
proof -
  have "g (metrics agg_init) = 0" using assms(1) by (auto simp: metric_fields_def agg_init_def)
  then have "g (Metrics (aggregateRoute k p m)) = (\<Sum>e\<leftarrow>path_Edges p. f e)"
    using foldl_add_metrics [OF assms(1), of "metrics agg_init"] by (simp add: aggregateRoute_unfold)
  then show ?thesis using assms(2,3) by (simp add: sint_sum_list signed_take_bit_int_eq_self)
qed

theorem crime_metrics_exact_witness:
  "sint (cm_RobberyCount (Metrics (aggregateRoute ''fastest''
     \<lparr>path_Edges = example_path, path_Geometry = example_line\<rparr> example_model))) = 9"
  using crime_metrics_exact [of cm_RobberyCount pe_RobberyCount
    "\<lparr>path_Edges = example_path, path_Geometry = example_line\<rparr>" "''fastest''" example_model]
  by (simp add: metric_fields_def example_path_def example_edge_def)

text \<open>The dominant factor is \<open>none\<close> exactly when the three counts are zero; otherwise it
  names a count no other exceeds, ties going to robbery, then theft.\<close>

theorem dominantFactor_argmax:
  "let r = sint (cm_RobberyCount m); t = sint (cm_TheftCount m); h = sint (cm_ThreatsCount m) in
    (dominantFactor m = ''none'' \<longleftrightarrow> r = 0 \<and> t = 0 \<and> h = 0) \<and>
    (dominantFactor m = ''robbery'' \<longleftrightarrow> \<not> (r = 0 \<and> t = 0 \<and> h = 0) \<and> t \<le> r \<and> h \<le> r) \<and>
    (dominantFactor m = ''theft'' \<longleftrightarrow> r < t \<and> h \<le> t) \<and>
    (dominantFactor m = ''threats'' \<longleftrightarrow> r < h \<and> t < h)"
proof -
  have "x = 0 \<longleftrightarrow> sint x = 0" for x :: i64 by (simp add: signed_eq_0_iff)
  then show ?thesis unfolding Let_def dominantFactor_def
    by (auto simp: word_sle_eq)
qed

subsection \<open>The time-of-day profile\<close>

lemma foldl_bucket_step:
  "foldl (bucket_step scores b) (t, w, mx) es =
    (foldl (+) t (map pe_LengthMeters es),
     foldl (+) w (map (\<lambda>e. pe_LengthMeters e * score_at scores b e) es),
     foldl math_Max mx (map (score_at scores b) es))"
  by (induction es arbitrary: t w mx) (simp_all add: bucket_step_def Let_def)

definition rescore :: "EdgeBucketRisk list \<Rightarrow> string \<Rightarrow> PathEdge list \<Rightarrow> PathEdge list" where
  "rescore perBucket b es = map (\<lambda>e. e\<lparr>pe_RiskScore := score_at (bucket_scores perBucket) b e\<rparr>) es"

definition bucket_fields :: "(string \<times> (TimeOfDayRisk \<Rightarrow> BucketRisk)) list" where
  "bucket_fields = [(''morning'', Morning), (''afternoon'', Afternoon), (''evening'', Evening), (''night'', Night)]"

lemma bucket_risk_as_route:
  "bucket_risk (bucket_scores pb) es m b =
     \<lparr>br_RiskScore = RiskScore (aggregateRoute k \<lparr>path_Edges = rescore pb b es, path_Geometry = g\<rparr> m),
      br_RiskLevel = RiskLevel (aggregateRoute k \<lparr>path_Edges = rescore pb b es, path_Geometry = g\<rparr> m)\<rparr>"
  by (simp add: bucket_risk_def foldl_bucket_step aggregateRoute_unfold fsum_def rescore_def comp_def)

text \<open>C27. Each entry of the time-of-day profile is the score and level the route itself would
  get if its edges carried that bucket's scores (0 where a score is missing): the two loops of
  the source compute the same blend.\<close>

theorem aggregateBucketRisk_as_route:
  assumes "es \<noteq> []" "(b, field) \<in> set bucket_fields"
  shows "\<exists>t. aggregateBucketRisk es perBucket m = Some t \<and>
    field t = \<lparr>br_RiskScore = RiskScore (aggregateRoute k \<lparr>path_Edges = rescore perBucket b es, path_Geometry = g\<rparr> m),
      br_RiskLevel = RiskLevel (aggregateRoute k \<lparr>path_Edges = rescore perBucket b es, path_Geometry = g\<rparr> m)\<rparr>"
  using assms bucket_risk_as_route [of perBucket es m b k g]
  by (auto simp: aggregateBucketRisk_def Let_def bucket_fields_def)

theorem aggregateBucketRisk_as_route_witness:
  "\<exists>t. aggregateBucketRisk example_path [] example_model = Some t \<and>
    Night t = \<lparr>br_RiskScore = RiskScore (aggregateRoute ''night'' \<lparr>path_Edges = rescore [] ''night'' example_path, path_Geometry = example_line\<rparr> example_model),
      br_RiskLevel = RiskLevel (aggregateRoute ''night'' \<lparr>path_Edges = rescore [] ''night'' example_path, path_Geometry = example_line\<rparr> example_model)\<rparr>"
  by (rule aggregateBucketRisk_as_route) (simp_all add: example_path_def bucket_fields_def)

lemma foldl_first_max:
  fixes f :: "'b \<Rightarrow> f64"
  assumes "\<forall>b \<in> set (p # bs). f b \<noteq> NaN"
  defines "r \<equiv> foldl (\<lambda>peak b. if f peak < f b then b else peak) p bs"
  shows "(\<forall>b \<in> set (p # bs). f b \<le> f r) \<and> (\<exists>xs ys. p # bs = xs @ r # ys \<and> (\<forall>b \<in> set xs. f b < f r))"
  using assms(1) unfolding r_def
proof (induction bs rule: rev_induct)
  case Nil
  then show ?case by (auto intro: exI [of _ "[]"])
next
  case (snoc c cs)
  let ?r = "foldl (\<lambda>peak b. if f peak < f b then b else peak) p cs"
  have "(\<forall>b \<in> set (p # cs). f b \<le> f ?r) \<and> (\<exists>xs ys. p # cs = xs @ ?r # ys \<and> (\<forall>b \<in> set xs. f b < f ?r))"
    using snoc by simp
  then obtain xs ys where IH: "\<forall>b \<in> set (p # cs). f b \<le> f ?r" "p # cs = xs @ ?r # ys" "\<forall>b \<in> set xs. f b < f ?r"
    by blast
  show ?case
  proof (cases "f ?r < f c")
    case True
    then have r: "foldl (\<lambda>peak b. if f peak < f b then b else peak) p (cs @ [c]) = c" by simp
    have lt: "\<forall>b \<in> set (p # cs). f b < f c" using IH(1) True f64_le_less_trans by blast
    have "f c \<le> f c" using snoc.prems by simp
    then show ?thesis unfolding r
      using lt f64_less_imp_le by (intro conjI exI [of _ "p # cs"] exI [of _ "[]"]) auto
  next
    case False
    then have r: "foldl (\<lambda>peak b. if f peak < f b then b else peak) p (cs @ [c]) = ?r" by simp
    have "?r \<in> set (p # cs)" unfolding IH(2) by simp
    then have "f ?r \<noteq> NaN" "f c \<noteq> NaN" using snoc.prems by auto
    then have "f c \<le> f ?r" using False by (simp add: f64_not_less)
    then have "\<forall>b \<in> set (p # cs @ [c]). f b \<le> f ?r" using IH(1) by simp
    moreover have "p # cs @ [c] = xs @ ?r # (ys @ [c])" using IH(2) by simp
    ultimately show ?thesis unfolding r using IH(3) by blast
  qed
qed

lemma peak_bucket_first_max:
  assumes "\<forall>b \<in> set buckets. br_RiskScore (result b) \<noteq> NaN"
  shows "(\<forall>b \<in> set buckets. br_RiskScore (result b) \<le> br_RiskScore (result (peak_bucket result))) \<and>
    (\<exists>xs ys. buckets = xs @ peak_bucket result # ys \<and>
       (\<forall>b \<in> set xs. br_RiskScore (result b) < br_RiskScore (result (peak_bucket result))))"
proof -
  have b: "hd buckets # tl buckets = buckets" by (simp add: buckets_def)
  show ?thesis
    using foldl_first_max [of "hd buckets" "tl buckets" "\<lambda>b. br_RiskScore (result b)", unfolded b, OF assms]
    unfolding peak_bucket_def .
qed

lemma bucket_scores_range:
  assumes "\<forall>b \<in> set pb. is_fin (eb_RiskScore b) \<and> 0 \<le> eb_RiskScore b \<and> eb_RiskScore b \<le> 1"
  shows "is_fin (score_at (bucket_scores pb) b e) \<and> 0 \<le> score_at (bucket_scores pb) b e \<and>
    score_at (bucket_scores pb) b e \<le> 1"
proof -
  have "bucket_scores pb x = Some r \<Longrightarrow> is_fin r \<and> 0 \<le> r \<and> r \<le> 1" for x r
    using assms unfolding bucket_scores_def
    by (induction pb arbitrary: r rule: rev_induct) (auto split: if_splits)
  then show ?thesis by (auto simp: score_at_def split: option.split)
qed

lemma rescore_valid:
  assumes "valid_path es" "\<forall>b \<in> set pb. is_fin (eb_RiskScore b) \<and> 0 \<le> eb_RiskScore b \<and> eb_RiskScore b \<le> 1"
  shows "valid_path (rescore pb b es)"
  using assms(1) bucket_scores_range [OF assms(2)]
  by (auto simp: valid_path_def rescore_def valid_edge_def list_all_iff comp_def)

text \<open>The profile's scores lie in the unit interval, and its peak is the first bucket, in
  the order of the day, that has the highest score.\<close>

theorem time_of_day_peak:
  assumes "es \<noteq> []" "valid_path es"
    and "\<forall>b \<in> set perBucket. is_fin (eb_RiskScore b) \<and> 0 \<le> eb_RiskScore b \<and> eb_RiskScore b \<le> 1"
  shows "\<exists>t before peak after. aggregateBucketRisk es perBucket m = Some t \<and>
    bucket_fields = before @ (PeakBucket t, peak) # after \<and>
    (\<forall>(b, field) \<in> set bucket_fields. 0 \<le> br_RiskScore (field t) \<and> br_RiskScore (field t) \<le> br_RiskScore (peak t) \<and>
       br_RiskScore (peak t) \<le> 1) \<and>
    (\<forall>(b, field) \<in> set before. br_RiskScore (field t) < br_RiskScore (peak t))"
proof -
  let ?r = "bucket_risk (bucket_scores perBucket) es m"
  have unit: "0 \<le> br_RiskScore (?r b) \<and> br_RiskScore (?r b) \<le> 1" for b
    using blended_route(5,6) [OF rescore_valid [OF assms(2,3)], of b] round3_unit
    by (simp add: bucket_risk_as_route [where k = "[]" and g = example_line] aggregateRoute_unfold)
  let ?t = "\<lparr>Morning = ?r ''morning'', Afternoon = ?r ''afternoon'', Evening = ?r ''evening'',
    Night = ?r ''night'', PeakBucket = peak_bucket ?r\<rparr>"
  have t: "aggregateBucketRisk es perBucket m = Some ?t"
    using assms(1) by (simp add: aggregateBucketRisk_def Let_def)
  have fields: "field ?t = ?r b" if "(b, field) \<in> set bucket_fields" for b field
    using that by (auto simp: bucket_fields_def)
  have nn: "\<forall>b \<in> set buckets. br_RiskScore (?r b) \<noteq> NaN"
    using unit f64_le_not_NaN by blast
  obtain xs ys where p: "\<forall>b \<in> set buckets. br_RiskScore (?r b) \<le> br_RiskScore (?r (peak_bucket ?r))"
    "buckets = xs @ peak_bucket ?r # ys"
    "\<forall>b \<in> set xs. br_RiskScore (?r b) < br_RiskScore (?r (peak_bucket ?r))"
    using peak_bucket_first_max [OF nn] by blast
  have "map fst bucket_fields = xs @ peak_bucket ?r # ys"
    unfolding p(2) [symmetric] by (simp add: buckets_def bucket_fields_def)
  then obtain before peak after where d: "bucket_fields = before @ (peak_bucket ?r, peak) # after" "map fst before = xs"
    by (auto simp: map_eq_append_conv map_eq_Cons_conv)
  have pk: "peak ?t = ?r (peak_bucket ?r)" by (rule fields) (simp add: d(1))
  have "b \<in> set buckets" if "(b, field) \<in> set bucket_fields" for b field
    using that by (auto simp: buckets_def bucket_fields_def)
  then have "\<forall>(b, field) \<in> set bucket_fields. 0 \<le> br_RiskScore (field ?t) \<and>
      br_RiskScore (field ?t) \<le> br_RiskScore (peak ?t) \<and> br_RiskScore (peak ?t) \<le> 1"
    using p(1) unit fields pk by fastforce
  moreover have "\<forall>(b, field) \<in> set before. br_RiskScore (field ?t) < br_RiskScore (peak ?t)"
  proof clarify
    fix b field assume b: "(b, field) \<in> set before"
    have "set before \<subseteq> set bucket_fields" unfolding d(1) by auto
    then have "(b, field) \<in> set bucket_fields" using b by (rule subsetD)
    then have f: "field ?t = ?r b" by (rule fields)
    have "b \<in> set xs" using b unfolding d(2) [symmetric] by force
    then show "br_RiskScore (field ?t) < br_RiskScore (peak ?t)" unfolding f pk using p(3) by blast
  qed
  ultimately show ?thesis using t d(1)
    by (intro exI [of _ ?t] exI [of _ before] exI [of _ peak] exI [of _ after]) simp
qed


theorem time_of_day_peak_witness:
  "\<exists>t. aggregateBucketRisk example_path [\<lparr>eb_EdgeID = 7, eb_TimeBucket = ''evening'', eb_RiskScore = f64_of_rat (3 / 4)\<rparr>]
     example_model = Some t \<and> br_RiskScore (Night t) \<le> 1"
proof -
  have "example_path \<noteq> []" by (simp add: example_path_def)
  moreover have "\<forall>b \<in> set [\<lparr>eb_EdgeID = 7, eb_TimeBucket = ''evening'', eb_RiskScore = f64_of_rat (3 / 4)\<rparr>].
      is_fin (eb_RiskScore b) \<and> 0 \<le> eb_RiskScore b \<and> eb_RiskScore b \<le> 1" by code_simp
  ultimately show ?thesis
    using time_of_day_peak [of example_path "[\<lparr>eb_EdgeID = 7, eb_TimeBucket = ''evening'', eb_RiskScore = f64_of_rat (3 / 4)\<rparr>]" example_model]
      example_path_valid f64_le_trans
    by (auto simp: bucket_fields_def)
qed

subsection \<open>Comparison with the fastest route\<close>

lemma f64_of_rat_nonpos: "q \<le> 0 \<Longrightarrow> f64_of_rat q \<le> 0"
  using f64_of_rat_mono [of q 0] by simp

lemma f64_scale_nonpos: "x \<le> 0 \<Longrightarrow> 0 < c \<Longrightarrow> Fin c * x \<le> 0" "x \<le> 0 \<Longrightarrow> 0 < c \<Longrightarrow> x * Fin c \<le> 0"
  "x \<le> 0 \<Longrightarrow> 0 < c \<Longrightarrow> x / Fin c \<le> 0"
  by (cases x; auto intro!: f64_of_rat_nonpos simp: mult_le_0_iff divide_le_0_iff)+

lemma round1_nonpos: assumes "x \<le> 0" shows "round1 x \<le> 0"
proof -
  have "math_Round y \<le> 0" if "y \<le> 0" for y
    using that by (cases y) (auto simp: round_half_away_def)
  moreover have "x * Fin 10 \<le> 0" using assms by (rule f64_scale_nonpos) simp
  ultimately have "math_Round (x * Fin 10) / Fin 10 \<le> 0" by (intro f64_scale_nonpos(3)) simp_all
  then show ?thesis by (simp add: round1_def lit_consts)
qed

lemma f64_sub_self: "is_fin x \<Longrightarrow> x - x = 0"
  by (auto elim!: is_finE)

lemma f64_sub_nonneg: "is_fin x \<Longrightarrow> is_fin y \<Longrightarrow> 0 \<le> y \<Longrightarrow> y \<le> x \<Longrightarrow> 0 \<le> x - y \<and> x - y \<le> x"
  by (auto elim!: is_finE simp: f64_of_rat_nonneg) (metis f64_of_rat_mono diff_le_eq le_add_same_cancel1 add.commute diff_conv_add_uminus less_eq_f64.simps(1))

text \<open>Against the fastest route, the risk reduction is at most 100 percent; it is not negative
  for a route no riskier than the fastest and not positive for one at least as risky. The
  fastest route compared with itself shows zeros.\<close>

theorem setComparisons_reduction:
  assumes "is_fin (RiskScore f)" "0 < RiskScore f" "RiskScore f \<le> 1"
    and "is_fin (RiskScore r)" "0 \<le> RiskScore r" "RiskScore r \<le> 1"
  shows "RiskReductionVsFastestPercent (setComparisons r f) \<le> f64_of_rat 100 \<and>
    (RiskScore r \<le> RiskScore f \<longrightarrow> 0 \<le> RiskReductionVsFastestPercent (setComparisons r f)) \<and>
    (RiskScore f \<le> RiskScore r \<longrightarrow> RiskReductionVsFastestPercent (setComparisons r f) \<le> 0) \<and>
    (is_fin (DistanceMeters f) \<and> is_fin (DurationMinutes f) \<longrightarrow>
       RiskReductionVsFastestPercent (setComparisons f f) = 0 \<and>
       ExtraDistanceVsFastestMeters (setComparisons f f) = 0 \<and> ExtraDurationVsFastestMinutes (setComparisons f f) = 0)"
proof -
  let ?f = "RiskScore f" and ?r = "RiskScore r"
  have red: "RiskReductionVsFastestPercent (setComparisons r f) = round1 (f64_of_rat 100 * (?f - ?r) / ?f)"
    using assms(2) by (simp add: setComparisons_def)
  obtain a where a: "?f = Fin a" "0 < a" "a \<le> 1" using assms(1-3) by (auto elim!: is_finE)
  obtain b where b: "?r = Fin b" "0 \<le> b" using assms(4,5) by (auto elim!: is_finE)
  have big: "f64_of_rat 100 * ?f \<noteq> PInf"
  proof -
    have "f64_of_rat 100 * ?f \<le> f64_of_rat 100 * 1"
      using assms(3) a by (intro f64_mult_mono) (auto simp: lit_consts)
    also have "\<dots> = Fin 100" by code_simp
    finally show ?thesis by auto
  qed
  have le: "0 \<le> round1 (f64_of_rat 100 * (?f - ?r) / ?f) \<and> round1 (f64_of_rat 100 * (?f - ?r) / ?f) \<le> f64_of_rat 100"
    if "?r \<le> ?f"
  proof -
    have "0 \<le> ?f - ?r" "?f - ?r \<le> ?f" using f64_sub_nonneg [OF assms(1,4,5) that] by auto
    from percent_bounds [OF this is_fin_ok [OF assms(1)] assms(2) big] show ?thesis by (simp add: round1_nonneg)
  qed
  have ge: "round1 (f64_of_rat 100 * (?f - ?r) / ?f) \<le> 0" if "?f \<le> ?r"
  proof -
    have "?f - ?r \<le> 0" using that a b by (auto intro: f64_of_rat_nonpos)
    then show ?thesis unfolding lit_consts a(1) using a(2) by (intro round1_nonpos f64_scale_nonpos) auto
  qed
  have "round1 (f64_of_rat 100 * (?f - ?r) / ?f) \<le> f64_of_rat 100"
  proof (cases "?r \<le> ?f")
    case False
    then have "?f \<le> ?r" using f64_linear a b by auto
    then show ?thesis using ge f64_le_trans [of _ 0 "f64_of_rat 100"] by simp
  qed (use le in blast)
  moreover have "f64_of_rat 100 * 0 / ?f = 0" by (simp add: lit_consts a zero_f64_def)
      (use a in \<open>simp add: zero_f64_def flip: zero_f64_def\<close>)
  ultimately show ?thesis using le ge red f64_sub_self assms(1,2)
    by (auto simp: setComparisons_def round_values)
qed

lemma aggregateRoute_scores:
  "RiskScore (aggregateRoute k p m) = round3 (blend (average (fsum (map (\<lambda>e. pe_LengthMeters e * pe_RiskScore e) (path_Edges p)))
     (fsum (map pe_LengthMeters (path_Edges p)))) (foldl math_Max 0 (map pe_RiskScore (path_Edges p))))"
  "RiskLevel (aggregateRoute k p m) = riskLevel (blend (average (fsum (map (\<lambda>e. pe_LengthMeters e * pe_RiskScore e) (path_Edges p)))
     (fsum (map pe_LengthMeters (path_Edges p)))) (foldl math_Max 0 (map pe_RiskScore (path_Edges p)))) m"
  "DistanceMeters (aggregateRoute k p m) = round1 (fsum (map pe_LengthMeters (path_Edges p)))"
  "Segments (aggregateRoute k p m) = map route_segment (path_Edges p)"
  by (simp_all add: aggregateRoute_unfold)

theorem setComparisons_reduction_witness:
  "RiskReductionVsFastestPercent (setComparisons
     (aggregateRoute ''safest'' \<lparr>path_Edges = [example_edge 120 (1 / 10)], path_Geometry = example_line\<rparr> example_model)
     (aggregateRoute ''fastest'' \<lparr>path_Edges = [example_edge 100 (9 / 10)], path_Geometry = example_line\<rparr> example_model))
   \<le> f64_of_rat 100"
proof -
  let ?r = "aggregateRoute ''safest'' \<lparr>path_Edges = [example_edge 120 (1 / 10)], path_Geometry = example_line\<rparr> example_model"
  let ?f = "aggregateRoute ''fastest'' \<lparr>path_Edges = [example_edge 100 (9 / 10)], path_Geometry = example_line\<rparr> example_model"
  have r: "RiskScore ?r = f64_of_rat (1 / 10)"
    unfolding aggregateRoute_scores RoutePath.simps by code_simp
  have f: "RiskScore ?f = f64_of_rat (9 / 10)"
    unfolding aggregateRoute_scores RoutePath.simps by code_simp
  have "is_fin (f64_of_rat (1 / 10))" "0 \<le> f64_of_rat (1 / 10)" "f64_of_rat (1 / 10) \<le> 1"
    "is_fin (f64_of_rat (9 / 10))" "0 < f64_of_rat (9 / 10)" "f64_of_rat (9 / 10) \<le> 1" by code_simp+
  then show ?thesis using setComparisons_reduction [of ?f ?r] unfolding r f by blast
qed

subsection \<open>Where the display departs from the documents\<close>

text \<open>The level of a route comes from the score before rounding: a route can show a score
  within the threshold for \<open>low\<close> together with the level \<open>moderate\<close>.\<close>

theorem displayed_score_not_level:
  "RiskScore (aggregateRoute ''fastest'' \<lparr>path_Edges = [example_edge 120 (3304 / 10000)], path_Geometry = example_line\<rparr> example_model)
     \<le> mv_LowMax example_model \<and>
   RiskLevel (aggregateRoute ''fastest'' \<lparr>path_Edges = [example_edge 120 (3304 / 10000)], path_Geometry = example_line\<rparr> example_model)
     = ''moderate''"
  unfolding aggregateRoute_scores RoutePath.simps by code_simp

text \<open>The lengths shown for the segments need not add up to the distance shown for the
  route, because each is rounded on its own.\<close>

theorem displayed_segments_not_distance:
  "fsum (map sg_LengthMeters (Segments (aggregateRoute ''fastest''
      \<lparr>path_Edges = [example_edge (1004 / 100) 0, example_edge (1004 / 100) 0], path_Geometry = example_line\<rparr> example_model)))
   < DistanceMeters (aggregateRoute ''fastest''
      \<lparr>path_Edges = [example_edge (1004 / 100) 0, example_edge (1004 / 100) 0], path_Geometry = example_line\<rparr> example_model)"
  unfolding aggregateRoute_scores RoutePath.simps by code_simp

end
