(* ===== verification/Ranges.thy ===== *)
theory Ranges
  imports RiskProperties FloatRoundtrip
begin

section \<open>Ranges of binary64 results\<close>

text \<open>
  \<open>spans k x\<close>: \<open>x\<close> is a finite value of the type of magnitude at most \<open>2 ^ k\<close>. Every operation of the aggregation
  keeps inside a range, so that none of its results is an infinity or not-a-number.
\<close>

definition spans :: "nat \<Rightarrow> f64 \<Rightarrow> bool" where
  "spans k x \<longleftrightarrow> (\<exists>q. x = Fin q \<and> f64_of_rat q = Fin q \<and> \<bar>q\<bar> \<le> 2 ^ k)"

lemma spans_fin: "spans k x \<Longrightarrow> is_fin x"
  by (auto simp: spans_def is_fin_def)

lemma spans_mono: "spans j x \<Longrightarrow> j \<le> k \<Longrightarrow> spans k x"
  unfolding spans_def by (elim exE conjE) (intro exI conjI, assumption+, rule order_trans [OF _ power_increasing], simp_all)

lemma two_pow_exact: "k \<le> 1000 \<Longrightarrow> f64_of_rat (2 ^ k) = Fin (2 ^ k)"
proof -
  assume k: "k \<le> 1000"
  have p: "(2 :: rat) ^ k = two_powi (int k)" by (simp add: two_powi_nonneg_int)
  have e: "exponent64 (two_powi (int k)) \<le> int k"
    using exponent64_cases [of "two_powi (int k)"] by (auto simp: abs_of_pos)
  have "round64 (two_powi (int k)) = two_powi (int k)"
    using round64_le_two_powi [of "two_powi (int k)" "int k"] round64_ge_two_powi [of "int k" "two_powi (int k)"] e
    by (intro antisym) simp_all
  moreover have "(2 :: rat) ^ k \<le> 2 ^ 1000" using k by (rule power_increasing) simp
  then have "(2 :: rat) ^ k < overflow64" by (rule order_le_less_trans) (simp add: overflow64_def)
  moreover have "- overflow64 < two_powi (int k)" using overflow64_pos two_powi_pos [of "int k"] by linarith
  ultimately show ?thesis unfolding p by (simp add: f64_of_rat_def Let_def)
qed

lemma spans_rat:
  assumes "\<bar>q\<bar> \<le> 2 ^ k" "k \<le> 1000"
  shows "spans k (f64_of_rat q)"
proof -
  have "f64_of_rat q \<le> Fin (2 ^ k)"
    using f64_of_rat_mono [of q "2 ^ k"] assms by (simp add: two_pow_exact)
  moreover have "Fin (- (2 ^ k)) \<le> f64_of_rat q"
    using f64_of_rat_mono [of "- (2 ^ k)" q] f64_of_rat_uminus [OF two_pow_exact [OF assms(2)]] assms(1) by simp
  ultimately show ?thesis
    by (cases "f64_of_rat q") (auto simp: spans_def dest: f64_of_rat_Fin)
qed

lemma spans_add: "spans k x \<Longrightarrow> spans k y \<Longrightarrow> k < 1000 \<Longrightarrow> spans (Suc k) (x + y)"
  and spans_diff: "spans k x \<Longrightarrow> spans k y \<Longrightarrow> k < 1000 \<Longrightarrow> spans (Suc k) (x - y)"
proof -
  assume "spans k x" "spans k y" "k < 1000"
  then obtain p q where xy: "x = Fin p" "y = Fin q" and b: "\<bar>p\<bar> \<le> 2 ^ k" "\<bar>q\<bar> \<le> 2 ^ k" by (auto simp: spans_def)
  have "\<bar>p + q\<bar> \<le> 2 ^ Suc k" "\<bar>p - q\<bar> \<le> 2 ^ Suc k" using b by auto
  then show "spans (Suc k) (x + y)" "spans (Suc k) (x - y)"
    unfolding xy using \<open>k < 1000\<close> spans_rat [of "p + q" "Suc k"] spans_rat [of "p - q" "Suc k"] by simp_all
qed

lemma spans_mult: "spans j x \<Longrightarrow> spans k y \<Longrightarrow> j + k \<le> 1000 \<Longrightarrow> spans (j + k) (x * y)"
proof -
  assume "spans j x" "spans k y" and l: "j + k \<le> 1000"
  then obtain p q where xy: "x = Fin p" "y = Fin q" and b: "\<bar>p\<bar> \<le> 2 ^ j" "\<bar>q\<bar> \<le> 2 ^ k" by (auto simp: spans_def)
  have "\<bar>p * q\<bar> \<le> 2 ^ (j + k)" unfolding abs_mult power_add using b by (intro mult_mono) simp_all
  then show ?thesis unfolding xy using spans_rat [OF _ l] by simp
qed

lemma spans_divide:
  assumes "spans j x" "Fin (1 / 2 ^ k) \<le> y" "is_fin y" "j + k \<le> 1000"
  shows "spans (j + k) (x / y)"
proof -
  obtain p q where xy: "x = Fin p" "y = Fin q" and b: "\<bar>p\<bar> \<le> 2 ^ j" "1 / 2 ^ k \<le> q"
    using assms(1-3) by (auto simp: spans_def elim!: is_finE)
  have q: "0 < q" using b(2) by (rule less_le_trans [rotated]) simp
  have "(2 :: rat) ^ j * 1 \<le> 2 ^ j * (2 ^ k * q)" using b(2) by (intro mult_left_mono) (simp_all add: field_simps)
  then have "\<bar>p\<bar> \<le> 2 ^ (j + k) * q" using b(1) unfolding power_add mult.assoc mult_1_right by (rule order_trans [rotated])
  then have "\<bar>p / q\<bar> \<le> 2 ^ (j + k)" using q by (simp add: field_simps)
  then show ?thesis unfolding xy using spans_rat [OF _ assms(4)] q by simp
qed

lemma spans_between: "0 \<le> x \<Longrightarrow> x \<le> y \<Longrightarrow> spans k y \<Longrightarrow> f64_ok x \<Longrightarrow> spans k x"
  by (cases x) (auto simp: spans_def f64_ok_def)

lemma spans_unit: "0 \<le> x \<Longrightarrow> x \<le> 1 \<Longrightarrow> f64_ok x \<Longrightarrow> spans 0 x"
  by (rule spans_between [of x 1]) (auto simp: spans_def one_f64_def f64_of_rat_1 [unfolded one_f64_def])

lemma spans_literals:
  "spans 4 (f64_of_rat 10)" "spans 10 (f64_of_rat 1000)" "spans 7 (f64_of_rat 100)" "spans 6 (f64_of_rat 60)"
  by (rule spans_rat; simp)+

lemma spans_round:
  assumes "spans k x" "k < 1000"
  shows "spans (Suc k) (math_Round x)"
proof -
  obtain q where x: "x = Fin q" and b: "\<bar>q\<bar> \<le> 2 ^ k" using assms by (auto simp: spans_def)
  have "\<bar>of_int (round_half_away q)\<bar> \<le> \<bar>q\<bar> + 1" using round_half_away_near [of q] by linarith
  also have "\<dots> \<le> 2 ^ k + 2 ^ k" using b by (intro add_mono) simp_all
  finally have "\<bar>of_int (round_half_away q)\<bar> \<le> (2 :: rat) ^ Suc k" by simp
  moreover have "f64_ok (math_Round x)" using assms by (intro math_Round_ok is_fin_ok spans_fin)
  ultimately show ?thesis by (auto simp: x spans_def f64_ok_def)
qed

lemma spans_round1: "spans k x \<Longrightarrow> k \<le> 900 \<Longrightarrow> spans (k + 5) (round1 x)"
  using spans_divide [OF spans_round [OF spans_mult [OF _ spans_literals(1)]], of k x 0 "f64_of_rat 10"] spans_fin [OF spans_literals(1)]
  by (simp add: round1_def lit_consts add.commute)

lemma spans_round3: "spans k x \<Longrightarrow> k \<le> 900 \<Longrightarrow> spans (k + 11) (round3 x)"
  using spans_divide [OF spans_round [OF spans_mult [OF _ spans_literals(2)]], of k x 0 "f64_of_rat 1000"] spans_fin [OF spans_literals(2)]
  by (simp add: round3_def lit_consts add.commute)

lemma spans_i64: "spans 63 (f64_of_i64 n)"
proof -
  have "\<bar>sint n\<bar> \<le> 2 ^ 63" using sint_range_size [of n] by (auto simp: word_size abs_le_iff)
  then have "\<bar>of_int (sint n)\<bar> \<le> (2 :: rat) ^ 63" by (metis of_int_abs of_int_le_iff of_int_numeral of_int_power)
  then show ?thesis unfolding f64_of_i64_def by (rule spans_rat) simp
qed

text \<open>A displayed score above zero is at least a thousandth.\<close>

lemma round3_positive:
  assumes "0 < round3 x"
  shows "Fin (1 / 2 ^ 10) \<le> round3 x"
proof (cases "math_Round (x * f64_of_rat 1000)")
  case (Fin r)
  then obtain q where "x * f64_of_rat 1000 = Fin q" by (cases "x * f64_of_rat 1000") auto
  then obtain n :: int where r: "r = of_int n" using Fin by auto
  have "round3 x = f64_of_rat (of_int n / 1000)" using Fin by (simp add: round3_def lit_consts r)
  moreover from this have "1 \<le> n" using assms f64_of_rat_nonpos [of "of_int n / 1000"] by (cases "1 \<le> n") (auto simp: less_f64_def)
  then have "(1 / 1000 :: rat) \<le> of_int n / 1000" by (simp add: divide_right_mono)
  then have "f64_of_rat (1 / 1000) \<le> f64_of_rat (of_int n / 1000)" by (rule f64_of_rat_mono)
  moreover have "Fin (1 / 2 ^ 10) \<le> f64_of_rat (1 / 1000)" by code_simp
  ultimately show ?thesis using f64_le_trans by metis
qed (use assms in \<open>auto simp: round3_def lit_consts less_f64_def\<close>)

end
