(* ===== verification/FiniteRoutes.thy ===== *)
theory FiniteRoutes
  imports Ranges ResponseJson
begin

section \<open>Every number of a route is finite\<close>

text \<open>
  \<open>modest_path\<close>: an edge is at most \<open>2 ^ 40\<close> meters, and so are the path and its seconds; points and geometry are numbers. Every number
  shown for such a path is then finite, and its route can be written as JSON.
\<close>

definition modest_path :: "RoutePath \<Rightarrow> bool" where
  "modest_path p \<longleftrightarrow> valid_path (path_Edges p) \<and>
     list_all (\<lambda>e. spans 40 (pe_LengthMeters e) \<and> is_fin (pe_PointLat e) \<and> is_fin (pe_PointLng e)) (path_Edges p) \<and>
     spans 40 (fsum (map pe_LengthMeters (path_Edges p))) \<and> spans 40 (fsum (map pe_DurationSeconds (path_Edges p))) \<and>
     list_all (list_all is_fin) (ls_Coordinates (path_Geometry p))"

definition modest_risks :: "EdgeBucketRisk list \<Rightarrow> bool" where
  "modest_risks bs \<longleftrightarrow> (\<forall>b\<in>set bs. is_fin (eb_RiskScore b) \<and> 0 \<le> eb_RiskScore b \<and> eb_RiskScore b \<le> 1)"

lemma fsum_ok: "f64_ok (fsum xs)"
  by (cases xs rule: rev_cases) (simp_all add: fsum_def)

lemma round_ok: "f64_ok (round1 x)" "f64_ok (round3 x)"
  by (simp_all add: round1_def round3_def)

lemma unit_shown: "0 \<le> x \<Longrightarrow> x \<le> 1 \<Longrightarrow> spans 0 (round3 x)"
  using round3_unit by (intro spans_unit round_ok) blast+

lemma divide_by: "spans j x \<Longrightarrow> Fin 1 \<le> y \<Longrightarrow> is_fin y \<Longrightarrow> j \<le> 1000 \<Longrightarrow> spans j (x / y)"
  using spans_divide [of j x 0 y] by simp

text \<open>The numbers of one route.\<close>

lemma route_numbers:
  fixes k :: string and m :: ModelVersion and p :: RoutePath
  defines "r \<equiv> aggregateRoute k p m" and "es \<equiv> path_Edges p"
  defines "t \<equiv> fsum (map pe_LengthMeters es)" and "h \<equiv> fsum (map pe_LengthMeters (filter (\<lambda>e. mv_ModerateMax m < pe_RiskScore e) es))"
    and "c \<equiv> foldl add_metrics (metrics agg_init) es"
    and "a \<equiv> average (fsum (map (\<lambda>e. pe_LengthMeters e * pe_RiskScore e) es)) (fsum (map pe_LengthMeters es))"
    and "x \<equiv> foldl math_Max 0 (map pe_RiskScore es)"
  shows "DistanceMeters r = round1 t" "DurationMinutes r = round1 (fsum (map pe_DurationSeconds es) / f64_of_rat 60)"
    "HighRiskEdgeMeters r = round1 h" "HighRiskEdgePercent r = round1 (if 0 < t then f64_of_rat 100 * h / t else 0)"
    "ArmedSharePercent r = round1 (if 0 <s cm_CrimeCount c
       then f64_of_rat 100 * f64_of_i64 (cm_ArmedCount c) / f64_of_i64 (cm_CrimeCount c) else 0)"
    "RiskScore r = round3 (blend a x)" "MaxEdgeRisk r = round3 x" "AvgEdgeRisk r = round3 a"
  unfolding assms by (simp_all add: aggregateRoute_unfold)

lemma armed_spans: "0 <s c \<Longrightarrow> spans 70 (f64_of_rat 100 * f64_of_i64 a / f64_of_i64 c)"
proof -
  assume "0 <s c"
  then have "1 \<le> sint c" by (simp add: word_sless_alt)
  then have "f64_of_rat 1 \<le> f64_of_i64 c" unfolding f64_of_i64_def by (intro f64_of_rat_mono) (simp del: of_int_sint)
  then have "Fin 1 \<le> f64_of_i64 c" by (simp add: one_f64_def)
  moreover have "spans 70 (f64_of_rat 100 * f64_of_i64 a)"
    using spans_mult [OF spans_literals(3) spans_i64 [of a]] by simp
  ultimately show ?thesis using spans_fin [OF spans_i64 [of c]] by (intro divide_by) simp_all
qed

lemma spans_zero: "spans k (round1 0)"
  using spans_mono [of 0 0 k] spans_unit [of 0] by (simp add: round_values)

lemma aggregateRoute_spans:
  fixes k :: string and m :: ModelVersion
  assumes "modest_path p"
  defines "r \<equiv> aggregateRoute k p m"
  shows "spans 45 (DistanceMeters r)" "spans 45 (DurationMinutes r)" "spans 45 (HighRiskEdgeMeters r)"
    "spans 7 (HighRiskEdgePercent r)" "spans 75 (ArmedSharePercent r)"
    "spans 0 (RiskScore r)" "spans 0 (MaxEdgeRisk r)" "spans 0 (AvgEdgeRisk r)"
proof -
  let ?es = "path_Edges p"
  define t where "t = fsum (map pe_LengthMeters ?es)"
  define h where "h = fsum (map pe_LengthMeters (filter (\<lambda>e. mv_ModerateMax m < pe_RiskScore e) ?es))"
  have v: "valid_path ?es" and len: "spans 40 t" and dur: "spans 40 (fsum (map pe_DurationSeconds ?es))"
    using assms(1) unfolding modest_path_def t_def by blast+
  note V = valid_pathD [OF v]
  have ok: "f64_ok t" "f64_ok h" unfolding t_def h_def by (rule fsum_ok)+
  have h: "0 \<le> h" "h \<le> t"
    using valid_edgeD(1) [OF V(1)] unfolding t_def h_def by (auto intro!: fsum_nonneg_map fsum_filter_le simp: list_all_iff)
  show "spans 45 (DistanceMeters r)" unfolding r_def route_numbers t_def [symmetric] using spans_round1 [OF len] by simp
  show "spans 45 (HighRiskEdgeMeters r)"
    unfolding r_def route_numbers h_def [symmetric] using spans_round1 [OF spans_between [OF h len ok(2)]] by simp
  have "spans 40 (fsum (map pe_DurationSeconds ?es) / f64_of_rat 60)"
    using dur spans_fin [OF spans_literals(4)] by (intro divide_by) (simp_all add: lit_consts)
  then show "spans 45 (DurationMinutes r)" unfolding r_def route_numbers by (drule_tac spans_round1) simp_all
  show "spans 0 (RiskScore r)" "spans 0 (MaxEdgeRisk r)" "spans 0 (AvgEdgeRisk r)"
    unfolding r_def route_numbers by (rule unit_shown; rule blended_route [OF v])+
  have "spans 7 (round1 (f64_of_rat 100 * h / t))" if "0 < t"
  proof -
    have "f64_of_rat 100 * t \<noteq> PInf" using v by (simp add: valid_path_def t_def)
    note P = percent_bounds [OF h ok(1) that this]
    show ?thesis by (rule spans_between [OF round1_nonneg [OF P(1)] P(2) spans_literals(3) round_ok(1)])
  qed
  then show "spans 7 (HighRiskEdgePercent r)"
    unfolding r_def route_numbers h_def [symmetric] t_def [symmetric] using spans_zero by simp
  have "spans 75 (round1 (f64_of_rat 100 * f64_of_i64 a / f64_of_i64 c))" if "0 <s c" for a c
    using spans_round1 [OF armed_spans [OF that]] by simp
  then show "spans 75 (ArmedSharePercent r)" unfolding r_def route_numbers using spans_zero by simp
qed

text \<open>The parts of a route.\<close>

lemma modest_edge:
  assumes "modest_path p" "e \<in> set (path_Edges p)"
  shows "is_fin (round3 (pe_RiskScore e))" "is_fin (round1 (pe_LengthMeters e))" "is_fin (pe_PointLat e)" "is_fin (pe_PointLng e)"
proof -
  have e: "valid_edge e" "spans 40 (pe_LengthMeters e)" and pt: "is_fin (pe_PointLat e)" "is_fin (pe_PointLng e)"
    using assms by (auto simp: modest_path_def valid_path_def list_all_iff)
  show "is_fin (pe_PointLat e)" "is_fin (pe_PointLng e)" using pt .
  show "is_fin (round3 (pe_RiskScore e))" using e(1) unit_shown spans_fin by (auto simp: valid_edge_def)
  show "is_fin (round1 (pe_LengthMeters e))" using spans_fin [OF spans_round1 [OF e(2)]] by simp
qed

lemma modest_segments: "modest_path p \<Longrightarrow> list_all finite_segment (map route_segment (path_Edges p))"
  using modest_edge by (simp add: list_all_iff finite_segment_def finite_point_def route_segment_def)

lemma modest_riskiest:
  assumes "modest_path p" "Riskiest (aggregateRoute k p m) = Some x"
  shows "finite_riskiest x"
proof -
  let ?es = "path_Edges p" and ?i = "riskiestIdx (agg_loop m (path_Edges p))"
  have i: "0 \<le> ?i" and x: "x = riskiest_segment m (?es ! nat ?i)"
    using assms(2) by (auto simp: aggregateRoute_unfold split: if_splits)
  have nn: "\<forall>e\<in>set ?es. pe_RiskScore e \<noteq> NaN"
    using assms(1) valid_edgeD(6) valid_pathD(1) unfolding modest_path_def by blast
  have "?es \<noteq> []" using i by (intro notI) simp
  then have "?es ! nat ?i \<in> set ?es" using riskiestIdx_first_max(2) [OF nn] by simp
  then show ?thesis
    using modest_edge [OF assms(1)] by (simp add: x finite_riskiest_def finite_point_def riskiest_segment_def)
qed

lemma modest_time_of_day:
  assumes "modest_path p" "modest_risks bs" "aggregateBucketRisk (path_Edges p) bs m = Some t"
  shows "finite_time_of_day t"
proof -
  have v: "valid_path (path_Edges p)" using assms(1) by (simp add: modest_path_def)
  have "is_fin (br_RiskScore (bucket_risk (bucket_scores bs) (path_Edges p) m b))" for b
    using blended_route(5,6) [OF rescore_valid [OF v assms(2) [unfolded modest_risks_def]], of b]
    by (auto simp: bucket_risk_as_route [where k = "[]" and g = example_line] aggregateRoute_unfold intro!: spans_fin [OF unit_shown])
  then show ?thesis using assms(3) by (auto simp: aggregateBucketRisk_def Let_def finite_time_of_day_def split: if_splits)
qed

text \<open>The route that is shown.\<close>

lemma finite_shown:
  assumes "modest_path p" "modest_path p'" "case tod of None \<Rightarrow> True | Some t \<Rightarrow> finite_time_of_day t"
  shows "finite_route ((setComparisons (aggregateRoute k p m) (aggregateRoute k' p' m))\<lparr>RouteTimeOfDayRisk := tod\<rparr>)"
proof -
  define r where "r = aggregateRoute k p m"
  define f where "f = aggregateRoute k' p' m"
  note R = aggregateRoute_spans [OF assms(1), of k m, folded r_def] and F = aggregateRoute_spans [OF assms(2), of k' m, folded f_def]
  have fin: "is_fin (round1 x)" if "spans k x" "k \<le> 900" for k x using spans_fin [OF spans_round1 [OF that]] .
  have extra: "is_fin (round1 (DistanceMeters r - DistanceMeters f))" "is_fin (round1 (DurationMinutes r - DurationMinutes f))"
    by (rule fin [OF spans_diff [OF R(1) F(1)]] fin [OF spans_diff [OF R(2) F(2)]]; simp)+
  have "is_fin (round1 (f64_of_rat 100 * (RiskScore f - RiskScore r) / RiskScore f))" if "0 < RiskScore f"
  proof (rule fin [of "8 + 10"])
    have "Fin (1 / 2 ^ 10) \<le> RiskScore f" using that round3_positive by (simp add: f_def route_numbers)
    then show "spans (8 + 10) (f64_of_rat 100 * (RiskScore f - RiskScore r) / RiskScore f)"
      using spans_mult [OF spans_literals(3) spans_diff [OF F(6) R(6)]] spans_fin [OF F(6)] by (intro spans_divide) simp_all
  qed simp
  then have "is_fin (RiskReductionVsFastestPercent (setComparisons r f))"
    by (simp add: setComparisons_def r_def aggregateRoute_unfold)
  moreover have "case Riskiest r of None \<Rightarrow> True | Some x \<Rightarrow> finite_riskiest x"
    using modest_riskiest [OF assms(1), of k m] by (auto simp: r_def split: option.split)
  moreover have "list_all finite_segment (Segments r)" using modest_segments [OF assms(1)] by (simp add: r_def aggregateRoute_unfold)
  moreover have "list_all (list_all is_fin) (ls_Coordinates (Geometry r))"
    using assms(1) by (simp add: r_def aggregateRoute_unfold modest_path_def)
  ultimately show ?thesis
    unfolding r_def [symmetric] f_def [symmetric]
    using R [THEN spans_fin] extra assms(3) by (simp add: finite_route_def setComparisons_def)
qed

end
