(* ===== verification/SafeRoutesProperties.thy ===== *)
theory SafeRoutesProperties
  imports SafeRoutesService RiskProperties FiniteRoutes
begin

section \<open>Correctness of the safe-routes service\<close>

text \<open>
  The contract between the service and its cache: what a request may return from the cache
  and what it may leave there; the cache never fails a request; which routes a fresh
  response holds; which candidate is the least safe one; the cache counters.
\<close>

subsection \<open>Calls that leave the cache alone\<close>

text \<open>\<open>quiet visible p\<close>: the call \<open>p\<close> makes no cache entry visible.\<close>

definition quiet :: "('s \<Rightarrow> string \<rightharpoonup> SafeRoutesResponse) \<Rightarrow> ('s, 'e, 'x) prog \<Rightarrow> bool" where
  "quiet visible p \<longleftrightarrow> (\<forall>s k r. visible (snd (p s)) k = Some r \<longrightarrow> visible s k = Some r)"

definition quiet_repo :: "('s \<Rightarrow> string \<rightharpoonup> SafeRoutesResponse) \<Rightarrow> 's Repository \<Rightarrow> bool" where
  "quiet_repo visible repo \<longleftrightarrow> quiet visible (repo_ActiveModel repo) \<and> quiet visible (repo_RouteProfiles repo) \<and>
     (\<forall>q. quiet visible (repo_SnapEndpoints repo q)) \<and> (\<forall>q. quiet visible (repo_FindRoute repo q)) \<and>
     (\<forall>q. quiet visible (repo_FindCandidateRoutes repo q)) \<and>
     (\<forall>es m w. quiet visible (repo_RouteRiskByBucket repo es m w))"

lemma quiet_ret: "quiet v (ret x)" and quiet_fail: "quiet v (fail e)"
  by (simp_all add: quiet_def ret_def fail_def)

lemma quiet_andThen:
  assumes "quiet v p" "\<And>x. quiet v (k x)"
  shows "quiet v (andThen p k)"
  unfolding quiet_def
proof (intro allI impI)
  fix s key r
  assume *: "v (snd (andThen p k s)) key = Some r"
  have "snd (andThen p k s) = snd (p s) \<or> (\<exists>x. snd (andThen p k s) = snd (k x (snd (p s))))"
    by (simp add: andThen_def split: prod.split sum.split) blast
  then have "v (snd (p s)) key = Some r" using * assms(2) unfolding quiet_def by metis
  then show "v s key = Some r" using assms(1) unfolding quiet_def by blast
qed

lemma quiet_if: "quiet v p \<Longrightarrow> quiet v q \<Longrightarrow> quiet v (if b then p else q)"
  by simp

lemma quiet_option: "quiet v p \<Longrightarrow> (\<And>x. quiet v (f x)) \<Longrightarrow> quiet v (case y of None \<Rightarrow> p | Some x \<Rightarrow> f x)"
  by (cases y) simp_all

lemma quiet_repoD:
  assumes "quiet_repo v repo"
  shows "quiet v (repo_ActiveModel repo)" "quiet v (repo_RouteProfiles repo)"
    "quiet v (repo_SnapEndpoints repo q)" "quiet v (repo_FindRoute repo rq)"
    "quiet v (repo_FindCandidateRoutes repo cr)" "quiet v (repo_RouteRiskByBucket repo es m w)"
  using assms unfolding quiet_repo_def by blast+

lemmas quiet_intros = quiet_ret quiet_fail quiet_andThen quiet_if quiet_option quiet_repoD

lemma quiet_keeps: "quiet v p \<Longrightarrow> entries_ok v P s \<Longrightarrow> entries_ok v P (snd (p s))"
  unfolding quiet_def entries_ok_def by blast

lemma quiet_timeOfDayRisk:
  assumes "quiet_repo v repo" shows "quiet v (timeOfDayRisk repo path model w)"
  unfolding timeOfDayRisk_def by (intro quiet_intros assms)

lemma quiet_leastSafeCandidate:
  assumes "quiet_repo v repo" shows "quiet v (leastSafeCandidate repo base fastest model)"
  unfolding leastSafeCandidate_def case_prod_beta by (intro quiet_intros quiet_timeOfDayRisk assms)

lemma quiet_profile_routes:
  assumes "quiet_repo v repo" shows "quiet v (profile_routes repo model profiles base names fastest routes)"
proof (induction names arbitrary: fastest routes)
  case (Cons name names)
  show ?case unfolding profile_routes.simps Let_def
    by (intro quiet_intros quiet_timeOfDayRisk assms Cons)
qed (simp add: quiet_ret)

lemma quiet_compute_routes:
  assumes "quiet_repo v repo" shows "quiet v (compute_routes repo q t model)"
  unfolding compute_routes_def Let_def case_prod_beta
  by (intro quiet_intros quiet_profile_routes quiet_leastSafeCandidate assms)

subsection \<open>What is in the cache, and what a request returns\<close>

text \<open>Every entry is the response to some request of the same key: same rounded endpoints, same
  context, same model.\<close>

definition stamped :: "string \<Rightarrow> SafeRoutesResponse \<Rightarrow> bool" where
  "stamped k r \<longleftrightarrow> (\<exists>q t m routes. valid_query q \<and>
     k = routeCacheKey q (hourToTimeBucket (Hour t)) (dateToWeekdayType t) (mv_ID m) \<and>
     r = repair_response (build_response q t m routes))"

definition produced :: "'s Repository \<Rightarrow> (string \<Rightarrow> SafeRoutesResponse \<Rightarrow> bool) \<Rightarrow> bool" where
  "produced repo P \<longleftrightarrow> (\<forall>q t m routes s s1 s2 s3. valid_query q \<and> repo_ActiveModel repo s = (Inr m, s1) \<and>
     compute_routes repo q t m s2 = (Inr routes, s3) \<and> finite_response (build_response q t m routes) \<longrightarrow>
     P (routeCacheKey q (hourToTimeBucket (Hour t)) (dateToWeekdayType t) (mv_ID m)) (repair_response (build_response q t m routes)))"

lemma produced_stamped: "produced repo stamped"
  unfolding produced_def stamped_def by blast

text \<open>A request that succeeds is answered by the entry of its key or by a fresh computation.\<close>

lemma SafeRoutes_Inr:
  assumes "SafeRoutes repo cache now zone q s = (Inr resp, s')"
  obtains m s1 where "valid_query q" "repo_ActiveModel repo s = (Inr m, s1)"
    and "let t = resolve_at (now s) zone q; key = routeCacheKey q (hourToTimeBucket (Hour t)) (dateToWeekdayType t) (mv_ID m) in
      (\<exists>r. cache_Get cache key s1 = (Inr (Some r), s') \<and> resp = r\<lparr>rr_FromCache := True\<rparr>) \<or>
      (\<exists>routes s2 s3. fst (cache_Get cache key s1) \<in> {Inr None} \<union> range Inl \<and> s2 = snd (cache_Get cache key s1) \<and>
         compute_routes repo q t m s2 = (Inr routes, s3) \<and> resp = build_response q t m routes \<and>
         s' = snd (cache_Set cache key resp routeCacheTTL s3))"
proof -
  from assms have v: "valid_query q" by (auto simp: SafeRoutes_def split: if_splits)
  with assms obtain m s1 where m: "repo_ActiveModel repo s = (Inr m, s1)"
    by (auto simp: SafeRoutes_def Let_def andThen_Inr)
  show thesis
    using assms v m
    by (intro that [OF v m])
      (auto simp: SafeRoutes_def Let_def andThen_def ret_def split: prod.splits sum.splits option.splits)
qed

subsection \<open>The key of a response\<close>

text \<open>Two coordinates a response may confuse: at most a hundred-thousandth of a degree apart.\<close>

definition near :: "f64 \<Rightarrow> f64 \<Rightarrow> bool" where
  "near x y \<longleftrightarrow> (case (x, y) of (Fin p, Fin q) \<Rightarrow> \<bar>p - q\<bar> \<le> 1 / 100000 | _ \<Rightarrow> False)"

lemma key_inject:
  assumes "CHR '':'' \<notin> set tb" "CHR '':'' \<notin> set tb'" "CHR '':'' \<notin> set wt" "CHR '':'' \<notin> set wt'"
    and "routeCacheKey q tb wt i = routeCacheKey q' tb' wt' i'"
  shows "fmt_5f (OriginLat q) = fmt_5f (OriginLat q')" "fmt_5f (OriginLng q) = fmt_5f (OriginLng q')"
    "fmt_5f (DestLat q) = fmt_5f (DestLat q')" "fmt_5f (DestLng q) = fmt_5f (DestLng q')"
    "tb = tb'" "wt = wt'" "i = i'"
proof -
  note S = split_at_first [of "CHR '':''"]
  have eq: "fmt_5f (OriginLat q) @ CHR '':'' # fmt_5f (OriginLng q) @ CHR '':'' # fmt_5f (DestLat q) @ CHR '':'' #
      fmt_5f (DestLng q) @ CHR '':'' # tb @ CHR '':'' # wt @ CHR '':'' # fmt_d i =
    fmt_5f (OriginLat q') @ CHR '':'' # fmt_5f (OriginLng q') @ CHR '':'' # fmt_5f (DestLat q') @ CHR '':'' #
      fmt_5f (DestLng q') @ CHR '':'' # tb' @ CHR '':'' # wt' @ CHR '':'' # fmt_d i'"
    using assms(5) unfolding routeCacheKey_def append_Cons append_Nil by simp
  note 1 = S [OF fmt_5f_no_colon fmt_5f_no_colon eq]
  note 2 = S [OF fmt_5f_no_colon fmt_5f_no_colon 1 [THEN conjunct2]]
  note 3 = S [OF fmt_5f_no_colon fmt_5f_no_colon 2 [THEN conjunct2]]
  note 4 = S [OF fmt_5f_no_colon fmt_5f_no_colon 3 [THEN conjunct2]]
  note 5 = S [OF assms(1,2) 4 [THEN conjunct2]]
  note 6 = S [OF assms(3,4) 5 [THEN conjunct2]]
  show "fmt_5f (OriginLat q) = fmt_5f (OriginLat q')" "fmt_5f (OriginLng q) = fmt_5f (OriginLng q')"
    "fmt_5f (DestLat q) = fmt_5f (DestLat q')" "fmt_5f (DestLng q) = fmt_5f (DestLng q')"
    "tb = tb'" "wt = wt'" using 1 2 3 4 5 6 by blast+
  show "i = i'" using 6 fmt_d_inject by blast
qed

lemma fmt_5f_near:
  assumes "x \<in> range Fin" "y \<in> range Fin" "fmt_5f x = fmt_5f y"
  shows "near x y"
proof -
  obtain p q where xy: "x = Fin p" "y = Fin q" using assms(1,2) by blast
  define m where "m = round_half_even (\<bar>p\<bar> * 100000)"
  define n where "n = round_half_even (\<bar>q\<bar> * 100000)"
  have nonneg: "0 \<le> m" "0 \<le> n"
    using round_half_even_mono [of 0 "\<bar>p\<bar> * 100000"] round_half_even_mono [of 0 "\<bar>q\<bar> * 100000"]
      round_half_even_int [of 0] unfolding m_def n_def by simp_all
  have r: "(p < 0 \<longleftrightarrow> q < 0) \<and> nat m = nat n"
    using fmt_5f_rounded assms(3) unfolding xy m_def n_def by blast
  then have "m = n" using nonneg by (simp add: nat_eq_iff)
  moreover have "\<bar>of_int m - \<bar>p\<bar> * 100000\<bar> \<le> 1 / 2" "\<bar>of_int n - \<bar>q\<bar> * 100000\<bar> \<le> 1 / 2"
    unfolding m_def n_def by (rule round_half_even_near)+
  ultimately have "\<bar>\<bar>p\<bar> * 100000 - \<bar>q\<bar> * 100000\<bar> \<le> 1" by linarith
  then have "\<bar>p - q\<bar> \<le> 1 / 100000" using r by (cases "p < 0") (simp_all add: abs_if field_simps split: if_splits)
  then show ?thesis by (simp add: near_def xy)
qed

lemma fin_between: "Fin a \<le> x \<Longrightarrow> x \<le> Fin b \<Longrightarrow> x \<in> range Fin"
  by (cases x) simp_all

lemma caba_bounds:
  "f64_of_rat (- 35) = Fin (- 35)" "f64_of_rat (- 34) = Fin (- 34)"
  "f64_of_rat (- 59) = Fin (- 59)" "f64_of_rat (- 58) = Fin (- 58)"
  by code_simp+

lemma valid_query_fin:
  assumes "valid_query q"
  shows "OriginLat q \<in> range Fin" "OriginLng q \<in> range Fin" "DestLat q \<in> range Fin" "DestLng q \<in> range Fin"
  using assms unfolding valid_query_def isValidCABACoordinates_def caba_bounds by (blast intro: fin_between)+

subsection \<open>Serving requests\<close>

text \<open>\<open>answers q t m resp\<close>: \<open>resp\<close> was computed for a request that shares with \<open>q\<close> the context,
  the model and, up to the rounding of the key, the endpoints.\<close>

definition answers :: "SafeRoutesQuery \<Rightarrow> go_time \<Rightarrow> ModelVersion \<Rightarrow> SafeRoutesResponse \<Rightarrow> bool" where
  "answers q t m resp \<longleftrightarrow>
     rr_TimeBucket resp = hourToTimeBucket (Hour t) \<and> rr_WeekdayType resp = dateToWeekdayType t \<and>
     mi_ID (rr_ModelVersion resp) = mv_ID m \<and>
     near (OriginLat q) (Lat (rr_Origin resp)) \<and> near (OriginLng q) (Lng (rr_Origin resp)) \<and>
     near (DestLat q) (Lat (rr_Destination resp)) \<and> near (DestLng q) (Lng (rr_Destination resp))"

lemma near_refl: "x \<in> range Fin \<Longrightarrow> near x x"
  by (auto simp: near_def)

lemma repair_context:
  "utf8_repair (hourToTimeBucket h) = hourToTimeBucket h" "utf8_repair (dateToWeekdayType t) = dateToWeekdayType t"
  by (auto simp: hourToTimeBucket_def dateToWeekdayType_def plain_name_def in_range_def intro!: utf8_repair_plain)

lemma stamped_answers:
  assumes "valid_query q" "stamped (routeCacheKey q (hourToTimeBucket (Hour t)) (dateToWeekdayType t) (mv_ID m)) r"
  shows "answers q t m (r\<lparr>rr_FromCache := b\<rparr>)"
proof -
  obtain q' t' m' routes where v: "valid_query q'"
    and k: "routeCacheKey q (hourToTimeBucket (Hour t)) (dateToWeekdayType t) (mv_ID m) =
      routeCacheKey q' (hourToTimeBucket (Hour t')) (dateToWeekdayType t') (mv_ID m')"
    and r: "r = repair_response (build_response q' t' m' routes)"
    using assms(2) unfolding stamped_def by blast
  note K = key_inject [OF context_no_colon(1) context_no_colon(1) context_no_colon(2) context_no_colon(2) k]
  show ?thesis
    using K fmt_5f_near [OF valid_query_fin(1) [OF assms(1)] valid_query_fin(1) [OF v]]
      fmt_5f_near [OF valid_query_fin(2) [OF assms(1)] valid_query_fin(2) [OF v]]
      fmt_5f_near [OF valid_query_fin(3) [OF assms(1)] valid_query_fin(3) [OF v]]
      fmt_5f_near [OF valid_query_fin(4) [OF assms(1)] valid_query_fin(4) [OF v]]
    by (simp add: answers_def r build_response_def repair_response_def repair_model_info_def repair_context)
qed

lemma fresh_answers: "valid_query q \<Longrightarrow> answers q t m (build_response q t m routes)"
  by (simp add: answers_def build_response_def near_refl valid_query_fin)

locale service_world = route_cache cache visible stored_response
  for cache :: "'s RouteCache" and visible :: "'s \<Rightarrow> string \<rightharpoonup> SafeRoutesResponse" +
  fixes repo :: "'s Repository"
  assumes quiet_repo: "quiet_repo visible repo"
begin

lemma response_cases:
  assumes ok: "entries_ok visible P s" and "SafeRoutes repo cache now zone q s = (Inr resp, s')"
    and t: "t = resolve_at (now s) zone q"
  obtains m s1 r where "valid_query q" "repo_ActiveModel repo s = (Inr m, s1)"
      "P (routeCacheKey q (hourToTimeBucket (Hour t)) (dateToWeekdayType t) (mv_ID m)) r" "resp = r\<lparr>rr_FromCache := True\<rparr>"
  | m s1 routes s2 s3 where "valid_query q" "repo_ActiveModel repo s = (Inr m, s1)"
      "compute_routes repo q t m s2 = (Inr routes, s3)" "resp = build_response q t m routes"
proof -
  obtain m s1 where v: "valid_query q" and m: "repo_ActiveModel repo s = (Inr m, s1)"
    and cases: "(\<exists>r. cache_Get cache (routeCacheKey q (hourToTimeBucket (Hour t)) (dateToWeekdayType t) (mv_ID m)) s1 = (Inr (Some r), s') \<and>
        resp = r\<lparr>rr_FromCache := True\<rparr>) \<or>
      (\<exists>routes s2 s3. compute_routes repo q t m s2 = (Inr routes, s3) \<and> resp = build_response q t m routes)"
    by (rule SafeRoutes_Inr [OF assms(2)]) (simp add: Let_def t, blast)
  have ok1: "entries_ok visible P s1"
    using quiet_keeps [OF quiet_repoD(1) [OF quiet_repo] ok] m by simp
  from cases show thesis
  proof
    assume "\<exists>r. cache_Get cache (routeCacheKey q (hourToTimeBucket (Hour t)) (dateToWeekdayType t) (mv_ID m)) s1 = (Inr (Some r), s') \<and>
        resp = r\<lparr>rr_FromCache := True\<rparr>"
    then show thesis using get_entry [OF ok1] that(1) [OF v m] by (metis fst_conv)
  qed (use that(2) [OF v m] in blast)
qed

lemma served:
  assumes ok: "entries_ok visible stamped s" and run: "SafeRoutes repo cache now zone q s = (Inr resp, s')"
  shows "\<exists>m. fst (repo_ActiveModel repo s) = Inr m \<and> answers q (resolve_at (now s) zone q) m resp"
  by (rule response_cases [OF ok run refl]) (use stamped_answers fresh_answers in auto)

lemma keeps_request:
  assumes ok: "entries_ok visible P s" and t: "t = resolve_at (now s) zone q"
    and P: "\<And>m s1 routes s2 s3. valid_query q \<Longrightarrow> repo_ActiveModel repo s = (Inr m, s1) \<Longrightarrow>
      compute_routes repo q t m s2 = (Inr routes, s3) \<Longrightarrow> finite_response (build_response q t m routes) \<Longrightarrow>
      fst (SafeRoutes repo cache now zone q s) = Inr (build_response q t m routes) \<Longrightarrow>
      P (routeCacheKey q (hourToTimeBucket (Hour t)) (dateToWeekdayType t) (mv_ID m)) (repair_response (build_response q t m routes))"
  shows "entries_ok visible P (snd (SafeRoutes repo cache now zone q s))"
proof (cases "valid_query q \<and> (\<exists>m. fst (repo_ActiveModel repo s) = Inr m)")
  case False
  then show ?thesis
    using ok quiet_keeps [OF quiet_repoD(1) [OF quiet_repo] ok]
    by (auto simp: SafeRoutes_def Let_def prog_run split: prod.split sum.split)
next
  case True
  then obtain m s1 where v: "valid_query q" and m: "repo_ActiveModel repo s = (Inr m, s1)"
    by (metis prod.collapse)
  define key where "key = routeCacheKey q (hourToTimeBucket (Hour t)) (dateToWeekdayType t) (mv_ID m)"
  define s2 where "s2 = snd (cache_Get cache key s1)"
  have "entries_ok visible P s1"
    using quiet_keeps [OF quiet_repoD(1) [OF quiet_repo] ok] m by simp
  then have ok2: "entries_ok visible P s2" unfolding s2_def by (rule get_keeps)
  obtain x s3 where c: "compute_routes repo q t m s2 = (x, s3)" by (cases "compute_routes repo q t m s2")
  have ok3: "entries_ok visible P s3"
    using quiet_keeps [OF quiet_compute_routes [OF quiet_repo] ok2] c by (metis snd_conv)
  have ok4: "entries_ok visible P (snd (cache_Set cache key (build_response q t m routes) routeCacheTTL s3))"
    if "x = Inr routes" "fst (SafeRoutes repo cache now zone q s) = Inr (build_response q t m routes)" for routes
  proof (rule set_keeps [OF ok3])
    fix r assume "stored_response (build_response q t m routes) = Some r"
    then have "finite_response (build_response q t m routes)" "r = repair_response (build_response q t m routes)"
      by (auto simp: stored_response_def split: if_splits)
    then show "P key r" using P [OF v m] c that unfolding key_def by blast
  qed
  have "snd (SafeRoutes repo cache now zone q s) \<in> {s2, s3} \<or>
      (\<exists>routes. x = Inr routes \<and> fst (SafeRoutes repo cache now zone q s) = Inr (build_response q t m routes) \<and>
         snd (SafeRoutes repo cache now zone q s) = snd (cache_Set cache key (build_response q t m routes) routeCacheTTL s3))"
    using v m c s2_def unfolding SafeRoutes_def Let_def t [symmetric] prog_run
    by (auto simp: key_def [symmetric] split: prod.split sum.split option.split)
  then show ?thesis using ok2 ok3 ok4 by auto
qed

lemma keeps:
  assumes "entries_ok visible P s" "produced repo P"
  shows "entries_ok visible P (snd (SafeRoutes repo cache now zone q s))"
  using assms(2) unfolding produced_def by (intro keeps_request [OF assms(1) refl]) blast

end

lemma quiet_repo_nothing: "quiet_repo (\<lambda>s. Map.empty) repo"
  by (simp add: quiet_repo_def quiet_def)

interpretation disabled: service_world NoopRouteCache "\<lambda>s. Map.empty" repo for repo
  by unfold_locales (rule quiet_repo_nothing)

lemma quiet_on_fst: "quiet (\<lambda>w. v (snd w)) (on_fst p)"
  by (auto simp: quiet_def on_fst_def split: prod.splits)

lemma quiet_repo_fst: "quiet_repo (\<lambda>w. v (snd w)) (repo_fst repo)"
  unfolding quiet_repo_def lifted_ops by (simp add: quiet_on_fst)

lemma on_fst_if: "on_fst (if b then p else p') = (if b then on_fst p else on_fst p')"
  and on_fst_option: "on_fst (case y of None \<Rightarrow> p | Some x \<Rightarrow> f x) = (case y of None \<Rightarrow> on_fst p | Some x \<Rightarrow> on_fst (f x))"
  by (simp_all split: option.split)

lemmas on_fst_lift = on_fst_option on_fst_if on_fst_andThen on_fst_ret on_fst_fail lifted_ops

lemma timeOfDayRisk_fst: "timeOfDayRisk (repo_fst repo) path m w = on_fst (timeOfDayRisk repo path m w)"
  by (simp add: timeOfDayRisk_def on_fst_if fun_eq_iff)

lemma leastSafeCandidate_fst: "leastSafeCandidate (repo_fst repo) b f m = on_fst (leastSafeCandidate repo b f m)"
  unfolding leastSafeCandidate_def case_prod_beta on_fst_lift timeOfDayRisk_fst ..

lemma profile_routes_fst:
  "profile_routes (repo_fst repo) m ps b names f routes = on_fst (profile_routes repo m ps b names f routes)"
  by (induction names arbitrary: f routes) (simp_all add: Let_def timeOfDayRisk_fst)

lemma compute_routes_fst: "compute_routes (repo_fst repo) q t m = on_fst (compute_routes repo q t m)"
  unfolding compute_routes_def Let_def case_prod_beta on_fst_lift profile_routes_fst leastSafeCandidate_fst ..

lemma on_fst_eq: "on_fst p w = (x, w') \<longleftrightarrow> p (fst w) = (x, fst w') \<and> snd w' = snd w"
  by (cases w') (auto simp: on_fst_def split: prod.split)

lemma produced_fst: "produced repo P \<Longrightarrow> produced (repo_fst repo) P"
  unfolding produced_def compute_routes_fst lifted_ops on_fst_eq by blast

lemma on_snd_eq: "on_snd p w = (x, w') \<longleftrightarrow> p (snd w) = (x, snd w') \<and> fst w' = fst w"
  by (cases w') (auto simp: on_snd_def split: prod.split)

context redis_server begin

lemma world: "service_world (cache_snd (RedisRouteCache client)) (\<lambda>w. redis_visible stored (snd w)) (repo_fst repo)"
  by unfold_locales
    (auto simp: on_snd_eq quiet_repo_fst intro: redis.get_sound redis.get_no_new dest: redis.set_only)

end

text \<open>The service over the database \<open>'w\<close> and the Redis cache.\<close>

definition redis_service :: "'w Repository \<Rightarrow> 'r redis \<Rightarrow> ('w \<Rightarrow> go_time) \<Rightarrow> location \<Rightarrow> SafeRoutesQuery \<Rightarrow>
    ('w \<times> 'r redis_cache, saferoutes_error, SafeRoutesResponse) prog" where
  "redis_service repo client now zone =
     SafeRoutes (repo_fst repo) (cache_snd (RedisRouteCache client)) (\<lambda>w. now (fst w)) zone"

text \<open>
  The states a deployment goes through: it starts with an empty cache; a request runs to its
  end; in between anything may happen to the database, the clock and the counters, and
  cache entries may expire.
\<close>

inductive serving :: "'w Repository \<Rightarrow> 'r redis \<Rightarrow> ('r \<Rightarrow> string \<rightharpoonup> string) \<Rightarrow> ('w \<Rightarrow> go_time) \<Rightarrow> location \<Rightarrow>
    'w \<times> 'r redis_cache \<Rightarrow> bool"
  for repo client stored now zone where
  start: "stored (server c) = Map.empty \<Longrightarrow> serving repo client stored now zone (w, c)"
| request: "serving repo client stored now zone s \<Longrightarrow>
    serving repo client stored now zone (snd (redis_service repo client now zone q s))"
| environment: "serving repo client stored now zone (w, c) \<Longrightarrow>
    stored (server c') \<subseteq>\<^sub>m stored (server c) \<Longrightarrow> serving repo client stored now zone (w', c')"

lemma serving_entries:
  assumes "redis_server client stored" "serving repo client stored now zone s"
    and P: "produced repo P"
  shows "entries_ok (\<lambda>w. redis_visible stored (snd w)) P s"
  using assms(2)
proof induction
  case (start c w)
  then show ?case by (simp add: entries_ok_def redis_visible_def)
next
  case (request s q)
  then show ?case
    unfolding redis_service_def by (intro service_world.keeps [OF redis_server.world [OF assms(1)]] produced_fst P)
next
  case (environment w c c' w')
  have "stored (server c) k = Some v" if "stored (server c') k = Some v" for k v
    using environment(2) that unfolding map_le_def by (metis domI)
  then have mono: "redis_visible stored c' k = Some r \<Longrightarrow> redis_visible stored c k = Some r" for k r
    using redis_visible_mono [of stored c' c k r] by blast
  show ?case using environment(3) mono unfolding entries_ok_def snd_conv by blast
qed

text \<open>C1. Whatever requests were served before, however the database and the clock changed and
  entries expired, a response (cached or fresh) names the model that is active at the
  request, the time bucket and weekday type of the request's instant, and endpoints within a
  hundred-thousandth of a degree of the requested ones: no context or model ever sees an
  answer computed for another.\<close>

theorem served_answer:
  assumes "redis_server client stored" "serving repo client stored now zone s"
    and "redis_service repo client now zone q s = (Inr resp, s')"
  shows "\<exists>m. fst (repo_ActiveModel repo (fst s)) = Inr m \<and> answers q (resolve_at (now (fst s)) zone q) m resp"
  using service_world.served [OF redis_server.world [OF assms(1)] serving_entries [OF assms(1,2) produced_stamped]
      assms(3) [unfolded redis_service_def]]
  by (simp add: on_fst_def split: prod.splits)

subsection \<open>A concrete deployment\<close>

text \<open>A database of constants, an in-memory Redis, one that is down: the inputs on which the theorems of this theory are applied.\<close>

record routing_data =
  rd_ActiveModel :: "saferoutes_error goerr + ModelVersion"
  rd_RouteProfiles :: "saferoutes_error goerr + (string \<rightharpoonup> RouteProfile)"
  rd_SnapEndpoints :: "SafeRoutesQuery \<Rightarrow> saferoutes_error goerr + SnapResult"
  rd_FindRoute :: "RouteRequest \<Rightarrow> saferoutes_error goerr + RoutePath"
  rd_FindCandidateRoutes :: "CandidateRouteRequest \<Rightarrow> saferoutes_error goerr + RoutePath list"
  rd_RouteRiskByBucket :: "i64 list \<Rightarrow> i64 \<Rightarrow> string \<Rightarrow> saferoutes_error goerr + EdgeBucketRisk list"

text \<open>A repository that answers from fixed data and changes nothing.\<close>

definition reader :: "routing_data \<Rightarrow> 's Repository" where
  "reader d = \<lparr>repo_ActiveModel = Pair (rd_ActiveModel d), repo_RouteProfiles = Pair (rd_RouteProfiles d),
     repo_SnapEndpoints = (\<lambda>q. Pair (rd_SnapEndpoints d q)), repo_FindRoute = (\<lambda>q. Pair (rd_FindRoute d q)),
     repo_FindCandidateRoutes = (\<lambda>q. Pair (rd_FindCandidateRoutes d q)),
     repo_RouteRiskByBucket = (\<lambda>es m w. Pair (rd_RouteRiskByBucket d es m w))\<rparr>"

definition example_profiles :: "string \<rightharpoonup> RouteProfile" where
  "example_profiles = [''fastest'' \<mapsto> \<lparr>rp_Name = ''fastest'', rp_SafetyMultiplier = 0, rp_MaxDetourRatio = 1\<rparr>,
     ''balanced'' \<mapsto> \<lparr>rp_Name = ''balanced'', rp_SafetyMultiplier = f64_of_rat 2, rp_MaxDetourRatio = f64_of_rat (3 / 2)\<rparr>,
     ''safest'' \<mapsto> \<lparr>rp_Name = ''safest'', rp_SafetyMultiplier = f64_of_rat 6, rp_MaxDetourRatio = f64_of_rat 2\<rparr>]"

definition example_data :: routing_data where
  "example_data = \<lparr>rd_ActiveModel = Inr example_model, rd_RouteProfiles = Inr example_profiles,
     rd_SnapEndpoints = (\<lambda>q. Inr \<lparr>sn_OriginNodeID = 1, sn_OriginDistance = f64_of_rat 20, sn_DestNodeID = 2, sn_DestDistance = 0\<rparr>),
     rd_FindRoute = (\<lambda>rq. Inr \<lparr>path_Edges = example_path, path_Geometry = example_line\<rparr>),
     rd_FindCandidateRoutes = (\<lambda>cr. Inr []), rd_RouteRiskByBucket = (\<lambda>es m w. Inr [])\<rparr>"

definition example_time :: go_time where
  "example_time = \<lparr>unixSec = 1782590400, nsec = 0, utcOffset = - 10800\<rparr>"

definition example_query :: SafeRoutesQuery where
  "example_query = \<lparr>OriginLat = Fin (- 69 / 2), OriginLng = Fin (- 117 / 2), DestLat = Fin (- 277 / 8),
     DestLng = Fin (- 117 / 2), At = example_time\<rparr>"

definition mem_redis :: "(string \<rightharpoonup> string) redis" where
  "mem_redis = \<lparr>redis_get = (\<lambda>k m. (case m k of None \<Rightarrow> Inl RedisNil | Some v \<Rightarrow> Inr v, m)),
     redis_set = (\<lambda>k v ttl m. (None, m(k \<mapsto> v)))\<rparr>"

definition redis_down :: "unit redis" where
  "redis_down = \<lparr>redis_get = (\<lambda>k m. (Inl (RedisFailure ''connection refused''), m)),
     redis_set = (\<lambda>k v ttl m. (Some (RedisFailure ''connection refused''), m))\<rparr>"

interpretation mem: redis_server mem_redis "\<lambda>m. m"
  by unfold_locales (auto simp: mem_redis_def split: option.splits if_splits)

lemma example_valid: "valid_query example_query"
  by code_simp

lemma example_at: "resolve_at n z example_query = example_time"
  by (simp add: resolve_at_def example_query_def example_time_def IsZero_def)

lemma example_profiles_complete: "missing_profile example_profiles = None"
  by (simp add: missing_profile_def profile_names_def example_profiles_def)

definition example_routes :: "SafeRoute list" where
  "example_routes =
     (let p = \<lparr>path_Edges = example_path, path_Geometry = example_line\<rparr>;
          tod = aggregateBucketRisk example_path [] example_model;
          fastest = aggregateRoute ''fastest'' p example_model
      in map (\<lambda>k. (setComparisons (aggregateRoute k p example_model) fastest)\<lparr>RouteTimeOfDayRisk := tod\<rparr>) profile_names)"

lemma snap_limits: "\<not> maxSnapToGraphMeters < f64_of_rat 20" "\<not> maxSnapToGraphMeters < 0"
  by code_simp+

lemma example_compute:
  "compute_routes (reader example_data) example_query example_time example_model s = (Inr example_routes, s)"
  by (simp add: compute_routes_def reader_def example_data_def prog_run example_profiles_complete snap_limits
    base_request_def profile_names_def Let_def timeOfDayRisk_def example_path_def leastSafeCandidate_def
    candidate_request_def worst_candidate_def example_routes_def)

text \<open>The second of two equal requests is answered from the cache.\<close>

definition example_response :: SafeRoutesResponse where
  "example_response = build_response example_query example_time example_model example_routes"

definition cached_response :: SafeRoutesResponse where
  "cached_response = (repair_response example_response)\<lparr>rr_FromCache := True\<rparr>"

lemma example_modest: "modest_path \<lparr>path_Edges = example_path, path_Geometry = example_line\<rparr>"
proof -
  have edge: "spans 10 (pe_LengthMeters e) \<and> spans 10 (pe_DurationSeconds e) \<and> is_fin (pe_PointLat e) \<and> is_fin (pe_PointLng e)"
    if "e \<in> set example_path" for e
    using that spans_fin [OF spans_rat [of "- 346 / 10" 10]] spans_fin [OF spans_rat [of "- 584 / 10" 10]]
    by (auto simp: example_path_def example_edge_def intro!: spans_rat)
  have "spans 10 (0 :: f64)" using spans_mono [OF spans_unit [of 0]] by simp
  then have "spans 13 (fsum (map f example_path))" if "\<And>e. e \<in> set example_path \<Longrightarrow> spans 10 (f e)" for f
    using that spans_add [of 12] spans_add [of 11] spans_add [of 10] spans_mono [of 10 _ 11] spans_mono [of 10 _ 12]
    by (simp add: example_path_def fsum_def)
  then show ?thesis
    using edge spans_mono [of 10 _ 40] spans_mono [of 13 _ 40]
    by (simp add: modest_path_def example_path_valid list_all_iff example_line_def)
qed

lemma example_stored: "\<exists>raw. MarshalResponse example_response = Inr raw \<and> UnmarshalResponse raw = Inr (repair_response example_response)"
proof -
  have "finite_time_of_day t" if "aggregateBucketRisk example_path [] example_model = Some t" for t
    using modest_time_of_day [OF example_modest, of "[]"] that by (simp add: modest_risks_def)
  then have "case aggregateBucketRisk example_path [] example_model of None \<Rightarrow> True | Some t \<Rightarrow> finite_time_of_day t"
    by (simp split: option.split)
  then have "list_all finite_route example_routes"
    by (simp add: example_routes_def Let_def list_all_iff finite_shown [OF example_modest example_modest])
  moreover have "is_fin (OriginLat example_query)" "is_fin (OriginLng example_query)" "is_fin (DestLat example_query)" "is_fin (DestLng example_query)"
    by code_simp+
  ultimately have "finite_response example_response"
    by (simp add: finite_response_def example_response_def build_response_def finite_point_def)
  then obtain v where "enc_response example_response = Some v" using finite_written by (metis not_None_eq)
  then have "MarshalResponse example_response = Inr (json_text v)" by (simp add: MarshalResponse_def)
  then show ?thesis using response_decode_encode by blast
qed

definition example_service :: "SafeRoutesQuery \<Rightarrow> (unit \<times> (string \<rightharpoonup> string) redis_cache, saferoutes_error, SafeRoutesResponse) prog" where
  "example_service = redis_service (reader example_data) mem_redis (\<lambda>w. zero_time) (\<lambda>_. - 10800)"

lemma example_run:
  "fst (example_service example_query ((), NewRedisRouteCache Map.empty)) = Inr example_response"
  "fst (example_service example_query (snd (example_service example_query ((), NewRedisRouteCache Map.empty)))) =
     Inr cached_response"
proof -
  define key where "key = routeCacheKey example_query (hourToTimeBucket (Hour example_time)) (dateToWeekdayType example_time) 1"
  define c :: "(string \<rightharpoonup> string) redis_cache" where "c = NewRedisRouteCache Map.empty"
  have am: "on_fst (repo_ActiveModel (reader example_data)) s = (Inr example_model, s)" for s :: "unit \<times> (string \<rightharpoonup> string) redis_cache"
    by (cases s) (simp add: on_fst_def reader_def example_data_def)
  have id: "mv_ID example_model = 1" by (simp add: example_model_def)
  have cmp: "on_fst (compute_routes (reader example_data) example_query example_time example_model) s = (Inr example_routes, s)"
    for s :: "unit \<times> (string \<rightharpoonup> string) redis_cache"
    by (cases s) (simp add: compute_routes_fst on_fst_def example_compute)
  have fc: "build_response example_query example_time example_model example_routes = example_response"
    by (simp add: example_response_def)
  obtain raw where raw: "MarshalResponse example_response = Inr raw" "UnmarshalResponse raw = Inr (repair_response example_response)"
    using example_stored by blast
  have one: "example_service example_query ((), c) =
      (Inr example_response, (), (add_set (add_miss c))\<lparr>server := [key \<mapsto> raw]\<rparr>)"
    unfolding example_service_def redis_service_def SafeRoutes_def Let_def example_at
    by (simp add: example_valid andThen_def am cmp compute_routes_fst id key_def [symmetric] fc on_snd_def RedisRouteCache_def redis_Get_def
      redis_Set_def mem_redis_def raw cached_response_def ret_def c_def NewRedisRouteCache_def add_miss_def add_set_def)
  then show "fst (example_service example_query ((), NewRedisRouteCache Map.empty)) = Inr example_response"
    by (simp add: c_def)
  have "fst (example_service example_query ((), c\<lparr>server := [key \<mapsto> raw]\<rparr>)) = Inr cached_response" for c
    unfolding example_service_def redis_service_def SafeRoutes_def Let_def example_at
    by (simp add: example_valid andThen_def am cmp compute_routes_fst id key_def [symmetric] fc on_snd_def RedisRouteCache_def redis_Get_def
      mem_redis_def raw cached_response_def ret_def)
  then show "fst (example_service example_query (snd (example_service example_query ((), NewRedisRouteCache Map.empty)))) =
     Inr cached_response"
    by (simp add: one [unfolded c_def] c_def)
qed

lemma example_hit:
  defines "s \<equiv> snd (example_service example_query ((), NewRedisRouteCache Map.empty))"
  shows "serving (reader example_data) mem_redis (\<lambda>m. m) (\<lambda>w. zero_time) (\<lambda>_. - 10800) s \<and>
    (\<exists>s'. redis_service (reader example_data) mem_redis (\<lambda>w. zero_time) (\<lambda>_. - 10800)
      example_query s = (Inr cached_response, s'))"
proof
  show "serving (reader example_data) mem_redis (\<lambda>m. m) (\<lambda>w. zero_time) (\<lambda>_. - 10800) s"
    unfolding s_def example_service_def
    by (intro serving.request serving.start) (simp add: NewRedisRouteCache_def)
  show "\<exists>s'. redis_service (reader example_data) mem_redis (\<lambda>w. zero_time) (\<lambda>_. - 10800)
      example_query s = (Inr cached_response, s')"
    using example_run(2) unfolding s_def example_service_def by (metis prod.collapse)
qed

theorem served_answer_witness:
  "answers example_query example_time example_model cached_response"
proof -
  note E = example_hit [THEN conjunct1]
  obtain s' where R: "redis_service (reader example_data) mem_redis (\<lambda>w. zero_time) (\<lambda>_. - 10800)
      example_query (snd (example_service example_query ((), NewRedisRouteCache Map.empty))) = (Inr cached_response, s')"
    using example_hit by blast
  from served_answer [OF mem.redis_server_axioms E R] show ?thesis
    by (auto simp: reader_def example_data_def example_at)
qed

subsection \<open>The cache never fails a request\<close>

text \<open>C28. With a cache whose lookups never return an entry, whether they miss or fail and
  whatever its stores do, every request has the outcome and the effect on the database that
  it has with the cache switched off.\<close>

theorem cache_fail_open:
  assumes "\<forall>k c. case fst (cache_Get cache k c) of Inr (Some r) \<Rightarrow> False | _ \<Rightarrow> True"
  shows "fst (SafeRoutes (repo_fst repo) (cache_snd cache) (\<lambda>w. now (fst w)) zone q (a, c)) =
      fst (SafeRoutes repo NoopRouteCache now zone q a) \<and>
    fst (snd (SafeRoutes (repo_fst repo) (cache_snd cache) (\<lambda>w. now (fst w)) zone q (a, c))) =
      snd (SafeRoutes repo NoopRouteCache now zone q a)"
proof -
  have get: "case x of Inl e \<Rightarrow> True | Inr y \<Rightarrow> y = None" if "cache_Get cache k c = (x, c')" for k c x c'
    using assms [rule_format, of k c] that by (auto split: sum.splits option.splits)
  show ?thesis
    unfolding SafeRoutes_def Let_def compute_routes_fst lifted_ops
    by (auto simp: prog_run on_fst_def on_snd_def NoopRouteCache_def split: prod.split sum.split option.split dest!: get)
qed

theorem cache_fail_open_witness:
  "fst (redis_service (reader example_data) redis_down (\<lambda>w. zero_time) (\<lambda>_. - 10800) example_query ((), NewRedisRouteCache ())) =
   fst (SafeRoutes (reader example_data) NoopRouteCache (\<lambda>w. zero_time) (\<lambda>_. - 10800) example_query ())"
  unfolding redis_service_def
  by (rule cache_fail_open [THEN conjunct1]) (simp add: RedisRouteCache_def redis_Get_def redis_down_def)

subsection \<open>Cached routes are the routes a fresh computation would give\<close>

lemma reader_ops:
  "repo_ActiveModel (reader d) = Pair (rd_ActiveModel d)" "repo_RouteProfiles (reader d) = Pair (rd_RouteProfiles d)"
  "repo_SnapEndpoints (reader d) q = Pair (rd_SnapEndpoints d q)" "repo_FindRoute (reader d) rq = Pair (rd_FindRoute d rq)"
  "repo_FindCandidateRoutes (reader d) cr = Pair (rd_FindCandidateRoutes d cr)"
  "repo_RouteRiskByBucket (reader d) es m w = Pair (rd_RouteRiskByBucket d es m w)"
  by (simp_all add: reader_def)

text \<open>\<open>agree p p'\<close>: the calls \<open>p\<close> and \<open>p'\<close>, in worlds of any two types, change nothing and have
  the same outcome in every state.\<close>

definition agree :: "('s, 'e, 'x) prog \<Rightarrow> ('u, 'e, 'x) prog \<Rightarrow> bool" where
  "agree p p' \<longleftrightarrow> (\<exists>x. (\<forall>s. p s = (x, s)) \<and> (\<forall>u. p' u = (x, u)))"

lemma agree_base: "agree (Pair x) (Pair x)" "agree (ret y) (ret y)" "agree (fail e) (fail e)"
  by (auto simp: agree_def ret_def fail_def)

lemma agree_andThen:
  assumes "agree p p'" "\<And>x. agree (k x) (k' x)"
  shows "agree (andThen p k) (andThen p' k')"
proof -
  obtain x where x: "\<forall>s. p s = (x, s)" "\<forall>u. p' u = (x, u)" using assms(1) unfolding agree_def by blast
  show ?thesis
  proof (cases x)
    case (Inl e)
    then show ?thesis using x by (simp add: agree_def andThen_def)
  next
    case (Inr y)
    then show ?thesis using x assms(2) [of y] by (simp add: agree_def andThen_def)
  qed
qed

lemma agree_if: "agree p p' \<Longrightarrow> agree r r' \<Longrightarrow> agree (if b then p else r) (if b then p' else r')"
  by simp

lemma agree_option: "agree p p' \<Longrightarrow> (\<And>x. agree (f x) (f' x)) \<Longrightarrow>
    agree (case y of None \<Rightarrow> p | Some x \<Rightarrow> f x) (case y of None \<Rightarrow> p' | Some x \<Rightarrow> f' x)"
  by (cases y) simp_all

lemmas agree_intros = agree_base agree_andThen agree_if agree_option

lemma agree_timeOfDayRisk: "agree (timeOfDayRisk (reader d) p m w) (timeOfDayRisk (reader d) p m w)"
  unfolding timeOfDayRisk_def reader_ops by (intro agree_intros)

lemma agree_leastSafeCandidate: "agree (leastSafeCandidate (reader d) b f m) (leastSafeCandidate (reader d) b f m)"
  unfolding leastSafeCandidate_def reader_ops case_prod_beta by (intro agree_intros agree_timeOfDayRisk)

lemma agree_profile_routes:
  "agree (profile_routes (reader d) m ps b names f routes) (profile_routes (reader d) m ps b names f routes)"
proof (induction names arbitrary: f routes)
  case (Cons name names)
  show ?case unfolding profile_routes.simps reader_ops Let_def by (intro agree_intros agree_timeOfDayRisk Cons)
qed (simp add: agree_base)

lemma agree_compute_routes: "agree (compute_routes (reader d) q t m) (compute_routes (reader d) q t m)"
  unfolding compute_routes_def reader_ops Let_def case_prod_beta
  by (intro agree_intros agree_profile_routes agree_leastSafeCandidate)

text \<open>The routes of a query, for fixed data.\<close>

definition fresh_routes :: "routing_data \<Rightarrow> SafeRoutesQuery \<Rightarrow> go_time \<Rightarrow> ModelVersion \<Rightarrow> saferoutes_error goerr + SafeRoute list" where
  "fresh_routes d q t m = fst (compute_routes (reader d) q t m ())"

lemma compute_fresh: "compute_routes (reader d) q t m (s :: 's) = (fresh_routes d q t m, s)"
proof -
  have "agree (compute_routes (reader d) q t m :: ('s, saferoutes_error, SafeRoute list) prog)
      (compute_routes (reader d) q t m :: (unit, saferoutes_error, SafeRoute list) prog)"
    by (rule agree_compute_routes)
  then show ?thesis by (auto simp: agree_def fresh_routes_def)
qed

lemma fresh_context:
  assumes "hourToTimeBucket (Hour t) = hourToTimeBucket (Hour t')" "dateToWeekdayType t = dateToWeekdayType t'"
  shows "fresh_routes d q t m = fresh_routes d q t' m"
  unfolding fresh_routes_def compute_routes_def assms ..

definition computed :: "routing_data \<Rightarrow> string \<Rightarrow> SafeRoutesResponse \<Rightarrow> bool" where
  "computed d k r \<longleftrightarrow> (\<exists>q t m. valid_query q \<and> rd_ActiveModel d = Inr m \<and>
     k = routeCacheKey q (hourToTimeBucket (Hour t)) (dateToWeekdayType t) (mv_ID m) \<and>
     (\<exists>routes. fresh_routes d q t m = Inr routes \<and> rr_Routes r = map repair_route routes))"

lemma produced_computed: "produced (reader d) (computed d)"
proof -
  have "computed d (routeCacheKey q (hourToTimeBucket (Hour t)) (dateToWeekdayType t) (mv_ID m)) (repair_response (build_response q t m routes))"
    if "valid_query q" "rd_ActiveModel d = Inr m" "fresh_routes d q t m = Inr routes" for q t m routes
    unfolding computed_def using that by (intro exI [of _ q] exI [of _ t] exI [of _ m]) (simp add: build_response_def repair_response_def)
  then show ?thesis unfolding produced_def reader_ops compute_fresh by simp
qed

text \<open>C9. While the routing data does not change, every response, cached or fresh, holds exactly the
  routes that the computation gives for some request whose endpoints are written alike with five
  decimals, as the key writes them, and so are at most a hundred-thousandth of a degree away, at the instant of the request being answered: caching is invisible up to the
  rounding of the key and the repair of strings that are not UTF-8, which a response from the cache went through as JSON.\<close>

theorem cache_transparent:
  assumes "redis_server client stored" "serving (reader d) client stored now zone s"
    and "redis_service (reader d) client now zone q s = (Inr resp, s')"
  shows "\<exists>m q' routes. rd_ActiveModel d = Inr m \<and> valid_query q' \<and>
    fmt_5f (OriginLat q) = fmt_5f (OriginLat q') \<and> fmt_5f (OriginLng q) = fmt_5f (OriginLng q') \<and>
    fmt_5f (DestLat q) = fmt_5f (DestLat q') \<and> fmt_5f (DestLng q) = fmt_5f (DestLng q') \<and>
    near (OriginLat q) (OriginLat q') \<and> near (OriginLng q) (OriginLng q') \<and>
    near (DestLat q) (DestLat q') \<and> near (DestLng q) (DestLng q') \<and>
    fresh_routes d q' (resolve_at (now (fst s)) zone q) m = Inr routes \<and>
    rr_Routes resp = (if rr_FromCache resp then map repair_route routes else routes)"
proof -
  note W = redis_server.world [OF assms(1)]
  have ok: "entries_ok (\<lambda>w. redis_visible stored (snd w)) (computed d) s"
    by (rule serving_entries [OF assms(1,2) produced_computed])
  define t where "t = resolve_at (now (fst s)) zone q"
  note F = valid_query_fin
  from service_world.response_cases [OF W ok assms(3) [unfolded redis_service_def] t_def]
  show ?thesis
  proof cases
    case (1 m s1 r)
    then have m: "rd_ActiveModel d = Inr m" by (auto simp: reader_ops on_fst_def)
    obtain q' t' m' routes where p: "valid_query q'" "rd_ActiveModel d = Inr m'" "fresh_routes d q' t' m' = Inr routes"
        "rr_Routes r = map repair_route routes"
      and k: "routeCacheKey q (hourToTimeBucket (Hour t)) (dateToWeekdayType t) (mv_ID m) =
        routeCacheKey q' (hourToTimeBucket (Hour t')) (dateToWeekdayType t') (mv_ID m')"
      using 1(3) unfolding computed_def by blast
    note K = key_inject [OF context_no_colon(1) context_no_colon(1) context_no_colon(2) context_no_colon(2) k]
    have "fresh_routes d q' t m = Inr routes"
      using p m fresh_context [OF K(5,6)] by simp
    moreover have "rr_Routes resp = (if rr_FromCache resp then map repair_route routes else routes)" using p(4) by (simp add: 1(4))
    moreover have "near (OriginLat q) (OriginLat q')" "near (OriginLng q) (OriginLng q')"
      "near (DestLat q) (DestLat q')" "near (DestLng q) (DestLng q')"
      using fmt_5f_near [OF F(1) [OF 1(1)] F(1) [OF p(1)] K(1)] fmt_5f_near [OF F(2) [OF 1(1)] F(2) [OF p(1)] K(2)]
        fmt_5f_near [OF F(3) [OF 1(1)] F(3) [OF p(1)] K(3)] fmt_5f_near [OF F(4) [OF 1(1)] F(4) [OF p(1)] K(4)] by blast+
    ultimately show ?thesis using m p(1) K(1-4) unfolding t_def by blast
  next
    case (2 m s1 routes s2 s3)
    then have "fresh_routes d q t m = Inr routes" "rd_ActiveModel d = Inr m"
        "rr_Routes resp = (if rr_FromCache resp then map repair_route routes else routes)"
      by (auto simp: compute_routes_fst on_fst_def compute_fresh build_response_def reader_ops)
    then show ?thesis using 2(1) F [OF 2(1)] near_refl unfolding t_def by blast
  qed
qed

theorem cache_transparent_witness:
  "\<exists>q'. near (OriginLat example_query) (OriginLat q') \<and>
     (\<exists>routes. fresh_routes example_data q' example_time example_model = Inr routes \<and> rr_Routes cached_response = map repair_route routes)"
proof -
  note E = example_hit [THEN conjunct1]
  obtain s' where R: "redis_service (reader example_data) mem_redis (\<lambda>w. zero_time) (\<lambda>_. - 10800)
      example_query (snd (example_service example_query ((), NewRedisRouteCache Map.empty))) = (Inr cached_response, s')"
    using example_hit by blast
  have d: "rd_ActiveModel example_data = Inr example_model" "rr_FromCache cached_response"
    by (simp_all add: example_data_def cached_response_def)
  from cache_transparent [OF mem.redis_server_axioms E R] show ?thesis
    unfolding d example_at by (elim exE conjE) (intro exI conjI, assumption, simp_all add: d)
qed

subsection \<open>The routes of a fresh response\<close>

text \<open>How a route is shown next to the fastest one.\<close>

definition shown :: "string \<Rightarrow> RoutePath \<Rightarrow> ModelVersion \<Rightarrow> SafeRoute \<Rightarrow> TimeOfDayRisk option \<Rightarrow> SafeRoute" where
  "shown k path m fastest tod = (setComparisons (aggregateRoute k path m) fastest)\<lparr>RouteTimeOfDayRisk := tod\<rparr>"

lemma setComparisons_tod: "setComparisons (r\<lparr>RouteTimeOfDayRisk := tod\<rparr>) f = (setComparisons r f)\<lparr>RouteTimeOfDayRisk := tod\<rparr>"
  by (simp add: setComparisons_def)

lemma worst_candidate_source:
  "worst_candidate f m paths = Some (r, p) \<Longrightarrow> p \<in> set paths \<and> r = aggregateRoute ''least_safe_candidate'' p m \<and> \<not> beyond_detour f r"
  unfolding worst_candidate_def
  by (induction paths arbitrary: r p rule: rev_induct)
    (auto simp: worst_step_def Let_def split: option.splits if_splits)

lemma missing_profile_None: "missing_profile ps = None \<Longrightarrow> k \<in> set profile_names \<Longrightarrow> ps k \<noteq> None"
  by (auto simp: missing_profile_def find_None_iff)

text \<open>The calls of a computation, in their order.\<close>

lemma profile_routes_ConsE:
  assumes "profile_routes repo m ps base (k # names) f rs s = (Inr r, s')"
  obtains path tod t u f1 where "repo_FindRoute repo (profile_request ps base k) s = (Inr path, t)"
    and "timeOfDayRisk repo path m (rq_WeekdayType base) t = (Inr tod, u)"
    and "f1 = (if k = ''fastest'' then aggregateRoute k path m else f)"
    and "profile_routes repo m ps base names f1 (rs @ [shown k path m f1 tod]) u = (Inr r, s')"
  using assms unfolding profile_routes.simps andThen_Inr Let_def shown_def by blast

lemma leastSafeCandidate_calls:
  assumes "leastSafeCandidate repo base f m s = (Inr c, s')"
  shows "\<exists>candidates t. repo_FindCandidateRoutes repo (candidate_request base) s = (Inr candidates, t) \<and>
    (case worst_candidate f m candidates of
       None \<Rightarrow> c = None \<and> s' = t
     | Some (r, p) \<Rightarrow> p \<in> set candidates \<and> r = aggregateRoute ''least_safe_candidate'' p m \<and> \<not> beyond_detour f r \<and>
         (\<exists>tod. timeOfDayRisk repo p m (rq_WeekdayType base) t = (Inr tod, s') \<and> c = Some (shown ''least_safe_candidate'' p m f tod)))"
proof -
  obtain candidates t where fc: "repo_FindCandidateRoutes repo (candidate_request base) s = (Inr candidates, t)"
    and rest: "(case worst_candidate f m candidates of None \<Rightarrow> ret None
      | Some (worst, worstPath) \<Rightarrow> andThen (timeOfDayRisk repo worstPath m (rq_WeekdayType base))
          (\<lambda>tod. ret (Some (setComparisons (worst\<lparr>RouteTimeOfDayRisk := tod\<rparr>) f)))) t = (Inr c, s')"
    using assms unfolding leastSafeCandidate_def by (auto simp: andThen_Inr)
  show ?thesis
  proof (cases "worst_candidate f m candidates")
    case None
    then show ?thesis using fc rest by (auto simp: ret_def)
  next
    case (Some w)
    obtain r p where w: "w = (r, p)" by (cases w)
    note src = worst_candidate_source [OF Some [unfolded w]]
    obtain tod where "timeOfDayRisk repo p m (rq_WeekdayType base) t = (Inr tod, s')"
        "c = Some (setComparisons (r\<lparr>RouteTimeOfDayRisk := tod\<rparr>) f)"
      using rest by (auto simp: Some w andThen_Inr ret_def)
    then show ?thesis using fc src Some w by (auto simp: shown_def setComparisons_tod)
  qed
qed

lemma compute_routes_calls:
  assumes "compute_routes repo q t m s = (Inr routes, s')"
    and "tb = hourToTimeBucket (Hour t)" "wt = dateToWeekdayType t"
  obtains profiles snap s1 s2 s3 s4 s5 s6 s7 s8 path_f path_b path_s tod_f tod_b tod_s candidate
  where "repo_RouteProfiles repo s = (Inr profiles, s1)" "missing_profile profiles = None"
    and "repo_SnapEndpoints repo q s1 = (Inr snap, s2)"
    and "\<not> maxSnapToGraphMeters < sn_OriginDistance snap" "\<not> maxSnapToGraphMeters < sn_DestDistance snap"
    and "repo_FindRoute repo (profile_request profiles (base_request snap m tb wt) ''fastest'') s2 = (Inr path_f, s3)"
    and "timeOfDayRisk repo path_f m wt s3 = (Inr tod_f, s4)"
    and "repo_FindRoute repo (profile_request profiles (base_request snap m tb wt) ''balanced'') s4 = (Inr path_b, s5)"
    and "timeOfDayRisk repo path_b m wt s5 = (Inr tod_b, s6)"
    and "repo_FindRoute repo (profile_request profiles (base_request snap m tb wt) ''safest'') s6 = (Inr path_s, s7)"
    and "timeOfDayRisk repo path_s m wt s7 = (Inr tod_s, s8)"
    and "leastSafeCandidate repo (base_request snap m tb wt) (aggregateRoute ''fastest'' path_f m) m s8 = (Inr candidate, s')"
    and "routes = [shown ''fastest'' path_f m (aggregateRoute ''fastest'' path_f m) tod_f,
      shown ''balanced'' path_b m (aggregateRoute ''fastest'' path_f m) tod_b,
      shown ''safest'' path_s m (aggregateRoute ''fastest'' path_f m) tod_s] @ (case candidate of None \<Rightarrow> [] | Some r \<Rightarrow> [r])"
proof -
  obtain profiles snap fastest rs c s1 s2 s8 where ps: "repo_RouteProfiles repo s = (Inr profiles, s1)" "missing_profile profiles = None"
    and snap: "repo_SnapEndpoints repo q s1 = (Inr snap, s2)"
      "\<not> maxSnapToGraphMeters < sn_OriginDistance snap" "\<not> maxSnapToGraphMeters < sn_DestDistance snap"
    and rs: "profile_routes repo m profiles (base_request snap m tb wt) profile_names zero_route [] s2 = (Inr (fastest, rs), s8)"
    and c: "leastSafeCandidate repo (base_request snap m tb wt) fastest m s8 = (Inr c, s')"
    and routes: "routes = (case c of None \<Rightarrow> rs | Some r \<Rightarrow> rs @ [r])"
    using assms(1) unfolding compute_routes_def Let_def assms(2,3)
    by (auto simp: andThen_Inr split: option.splits if_splits)
  let ?b = "base_request snap m tb wt"
  have wt: "rq_WeekdayType ?b = wt" by (simp add: base_request_def)
  note steps = profile_routes_ConsE [where base = ?b and ps = profiles and m = m, unfolded wt]
  obtain path_f tod_f s3 s4 where f: "repo_FindRoute repo (profile_request profiles ?b ''fastest'') s2 = (Inr path_f, s3)"
      "timeOfDayRisk repo path_f m wt s3 = (Inr tod_f, s4)"
    and rest: "profile_routes repo m profiles ?b [''balanced'', ''safest''] (aggregateRoute ''fastest'' path_f m)
      [shown ''fastest'' path_f m (aggregateRoute ''fastest'' path_f m) tod_f] s4 = (Inr (fastest, rs), s8)"
    by (rule steps [OF rs [unfolded profile_names_def]]) simp
  obtain path_b tod_b s5 s6 where b: "repo_FindRoute repo (profile_request profiles ?b ''balanced'') s4 = (Inr path_b, s5)"
      "timeOfDayRisk repo path_b m wt s5 = (Inr tod_b, s6)"
    and rest: "profile_routes repo m profiles ?b [''safest''] (aggregateRoute ''fastest'' path_f m)
      [shown ''fastest'' path_f m (aggregateRoute ''fastest'' path_f m) tod_f,
       shown ''balanced'' path_b m (aggregateRoute ''fastest'' path_f m) tod_b] s6 = (Inr (fastest, rs), s8)"
    by (rule steps [OF rest]) simp
  obtain path_s tod_s s7 where last: "repo_FindRoute repo (profile_request profiles ?b ''safest'') s6 = (Inr path_s, s7)"
      "timeOfDayRisk repo path_s m wt s7 = (Inr tod_s, s8)"
    and out: "fastest = aggregateRoute ''fastest'' path_f m"
      "rs = [shown ''fastest'' path_f m fastest tod_f, shown ''balanced'' path_b m fastest tod_b, shown ''safest'' path_s m fastest tod_s]"
    by (rule steps [OF rest], rule that) (auto simp: ret_def)
  show thesis
    by (rule that [OF ps snap f b last c [unfolded out(1)]]) (simp add: routes out split: option.split)
qed

text \<open>The calls of a request that is not answered from the cache, each in the state the one before it left.\<close>

lemma fresh_calls:
  assumes "SafeRoutes repo cache now zone q s = (Inr resp, s')" "\<not> rr_FromCache resp"
    and "t = resolve_at (now s) zone q" "tb = hourToTimeBucket (Hour t)" "wt = dateToWeekdayType t"
  obtains m profiles snap s1 s2 s3 s4 s5 s6 s7 s8 s9 s10 s11 s12 path_f path_b path_s tod_f tod_b tod_s candidates extra
  where "repo_ActiveModel repo s = (Inr m, s1)" "s2 = snd (cache_Get cache (routeCacheKey q tb wt (mv_ID m)) s1)"
    and "repo_RouteProfiles repo s2 = (Inr profiles, s3)" "\<forall>k \<in> set profile_names. profiles k \<noteq> None"
    and "repo_SnapEndpoints repo q s3 = (Inr snap, s4)"
    and "\<not> f64_of_rat 150 < sn_OriginDistance snap" "\<not> f64_of_rat 150 < sn_DestDistance snap"
    and "repo_FindRoute repo (profile_request profiles (base_request snap m tb wt) ''fastest'') s4 = (Inr path_f, s5)"
    and "timeOfDayRisk repo path_f m wt s5 = (Inr tod_f, s6)"
    and "repo_FindRoute repo (profile_request profiles (base_request snap m tb wt) ''balanced'') s6 = (Inr path_b, s7)"
    and "timeOfDayRisk repo path_b m wt s7 = (Inr tod_b, s8)"
    and "repo_FindRoute repo (profile_request profiles (base_request snap m tb wt) ''safest'') s8 = (Inr path_s, s9)"
    and "timeOfDayRisk repo path_s m wt s9 = (Inr tod_s, s10)"
    and "repo_FindCandidateRoutes repo (candidate_request (base_request snap m tb wt)) s10 = (Inr candidates, s11)"
    and "case worst_candidate (aggregateRoute ''fastest'' path_f m) m candidates of
        None \<Rightarrow> extra = [] \<and> s12 = s11
      | Some (r, p) \<Rightarrow> p \<in> set candidates \<and> r = aggregateRoute ''least_safe_candidate'' p m \<and>
          \<not> beyond_detour (aggregateRoute ''fastest'' path_f m) r \<and>
          (\<exists>tod. timeOfDayRisk repo p m wt s11 = (Inr tod, s12) \<and>
             extra = [shown ''least_safe_candidate'' p m (aggregateRoute ''fastest'' path_f m) tod])"
    and "resp = build_response q t m
      ([shown ''fastest'' path_f m (aggregateRoute ''fastest'' path_f m) tod_f,
        shown ''balanced'' path_b m (aggregateRoute ''fastest'' path_f m) tod_b,
        shown ''safest'' path_s m (aggregateRoute ''fastest'' path_f m) tod_s] @ extra)"
    and "s' = snd (cache_Set cache (routeCacheKey q tb wt (mv_ID m)) resp routeCacheTTL s12)"
proof -
  obtain m s1 where m: "repo_ActiveModel repo s = (Inr m, s1)"
    and run: "let t = resolve_at (now s) zone q; key = routeCacheKey q (hourToTimeBucket (Hour t)) (dateToWeekdayType t) (mv_ID m) in
      (\<exists>r. cache_Get cache key s1 = (Inr (Some r), s') \<and> resp = r\<lparr>rr_FromCache := True\<rparr>) \<or>
      (\<exists>routes s2 s3. fst (cache_Get cache key s1) \<in> {Inr None} \<union> range Inl \<and> s2 = snd (cache_Get cache key s1) \<and>
         compute_routes repo q t m s2 = (Inr routes, s3) \<and> resp = build_response q t m routes \<and>
         s' = snd (cache_Set cache key resp routeCacheTTL s3))"
    by (rule SafeRoutes_Inr [OF assms(1)])
  define s2 where "s2 = snd (cache_Get cache (routeCacheKey q tb wt (mv_ID m)) s1)"
  obtain routes s12 where c: "compute_routes repo q t m s2 = (Inr routes, s12)"
    and out: "resp = build_response q t m routes" "s' = snd (cache_Set cache (routeCacheKey q tb wt (mv_ID m)) resp routeCacheTTL s12)"
    using run assms(2) unfolding Let_def assms(3) [symmetric] assms(4,5) [symmetric] s2_def by auto
  note limit = maxSnapToGraphMeters_def
  obtain profiles snap s3 s4 s5 s6 s7 s8 s9 s10 path_f path_b path_s tod_f tod_b tod_s candidate
    where ps: "repo_RouteProfiles repo s2 = (Inr profiles, s3)" "missing_profile profiles = None"
      and snap: "repo_SnapEndpoints repo q s3 = (Inr snap, s4)"
        "\<not> maxSnapToGraphMeters < sn_OriginDistance snap" "\<not> maxSnapToGraphMeters < sn_DestDistance snap"
      and f: "repo_FindRoute repo (profile_request profiles (base_request snap m tb wt) ''fastest'') s4 = (Inr path_f, s5)"
        "timeOfDayRisk repo path_f m wt s5 = (Inr tod_f, s6)"
      and b: "repo_FindRoute repo (profile_request profiles (base_request snap m tb wt) ''balanced'') s6 = (Inr path_b, s7)"
        "timeOfDayRisk repo path_b m wt s7 = (Inr tod_b, s8)"
      and last: "repo_FindRoute repo (profile_request profiles (base_request snap m tb wt) ''safest'') s8 = (Inr path_s, s9)"
        "timeOfDayRisk repo path_s m wt s9 = (Inr tod_s, s10)"
      and lsc: "leastSafeCandidate repo (base_request snap m tb wt) (aggregateRoute ''fastest'' path_f m) m s10 = (Inr candidate, s12)"
      and routes: "routes = [shown ''fastest'' path_f m (aggregateRoute ''fastest'' path_f m) tod_f,
        shown ''balanced'' path_b m (aggregateRoute ''fastest'' path_f m) tod_b,
        shown ''safest'' path_s m (aggregateRoute ''fastest'' path_f m) tod_s] @ (case candidate of None \<Rightarrow> [] | Some r \<Rightarrow> [r])"
    by (rule compute_routes_calls [OF c assms(4,5)])
  have wt: "rq_WeekdayType (base_request snap m tb wt) = wt" by (simp add: base_request_def)
  obtain candidates s11 where fc: "repo_FindCandidateRoutes repo (candidate_request (base_request snap m tb wt)) s10 = (Inr candidates, s11)"
    and extra: "case worst_candidate (aggregateRoute ''fastest'' path_f m) m candidates of
        None \<Rightarrow> candidate = None \<and> s12 = s11
      | Some (r, p) \<Rightarrow> p \<in> set candidates \<and> r = aggregateRoute ''least_safe_candidate'' p m \<and>
          \<not> beyond_detour (aggregateRoute ''fastest'' path_f m) r \<and>
          (\<exists>tod. timeOfDayRisk repo p m wt s11 = (Inr tod, s12) \<and>
             candidate = Some (shown ''least_safe_candidate'' p m (aggregateRoute ''fastest'' path_f m) tod))"
    using leastSafeCandidate_calls [OF lsc] unfolding wt by blast
  have "case worst_candidate (aggregateRoute ''fastest'' path_f m) m candidates of
        None \<Rightarrow> (case candidate of None \<Rightarrow> [] | Some r \<Rightarrow> [r]) = [] \<and> s12 = s11
      | Some (r, p) \<Rightarrow> p \<in> set candidates \<and> r = aggregateRoute ''least_safe_candidate'' p m \<and>
          \<not> beyond_detour (aggregateRoute ''fastest'' path_f m) r \<and>
          (\<exists>tod. timeOfDayRisk repo p m wt s11 = (Inr tod, s12) \<and>
             (case candidate of None \<Rightarrow> [] | Some r \<Rightarrow> [r]) = [shown ''least_safe_candidate'' p m (aggregateRoute ''fastest'' path_f m) tod])"
    using extra by (auto split: option.splits)
  moreover have "\<forall>k \<in> set profile_names. profiles k \<noteq> None" using missing_profile_None [OF ps(2)] by blast
  ultimately show thesis
    using that [OF m s2_def ps(1) _ snap [unfolded limit] f b last fc _ out(1) [unfolded routes] out(2)] by blast
qed

definition found :: "'s Repository \<Rightarrow> RouteRequest \<Rightarrow> RoutePath \<Rightarrow> bool" where
  "found repo rq path \<longleftrightarrow> (\<exists>s s'. repo_FindRoute repo rq s = (Inr path, s'))"

lemma fresh_routes:
  assumes "SafeRoutes repo cache now zone q s = (Inr resp, s')" "\<not> rr_FromCache resp"
  obtains m profiles snap paths tods extra where
    "mv_ID m = mi_ID (rr_ModelVersion resp)" "\<exists>s1 s2. repo_RouteProfiles repo s1 = (Inr profiles, s2)"
    "\<exists>s1 s2. repo_SnapEndpoints repo q s1 = (Inr snap, s2)"
    "\<not> f64_of_rat 150 < sn_OriginDistance snap" "\<not> f64_of_rat 150 < sn_DestDistance snap"
    "\<forall>k \<in> set profile_names. profiles k \<noteq> None \<and>
       found repo (profile_request profiles (base_request snap m (rr_TimeBucket resp) (rr_WeekdayType resp)) k) (paths k)"
    "rr_Routes resp = map (\<lambda>k. shown k (paths k) m (aggregateRoute ''fastest'' (paths ''fastest'') m) (tods k)) profile_names @ extra"
proof (rule fresh_calls [OF assms refl refl refl], goal_cases)
  case (1 m profiles snap s1 s2 s3 s4 s5 s6 s7 s8 s9 s10 s11 s12 path_f path_b path_s tod_f tod_b tod_s candidates extra)
  let ?paths = "(\<lambda>_. path_s)(''fastest'' := path_f, ''balanced'' := path_b)"
  let ?tods = "(\<lambda>_. tod_s)(''fastest'' := tod_f, ''balanced'' := tod_b)"
  have ctx: "rr_TimeBucket resp = hourToTimeBucket (Hour (resolve_at (now s) zone q))"
    "rr_WeekdayType resp = dateToWeekdayType (resolve_at (now s) zone q)"
    using 1 by (simp_all add: build_response_def)
  show thesis
    by (rule that [of m profiles snap ?paths ?tods extra])
      (use 1 in \<open>auto simp: ctx found_def profile_names_def build_response_def\<close>)
qed

text \<open>C6. A response that is not from the cache was made by these calls of the repository, each in the state the one before it left: the
  active model, which it names; the profiles, all three of them; the nearest nodes, each within 150 meters; for \<open>fastest\<close>, \<open>balanced\<close> and
  \<open>safest\<close>, in this order, the path between these nodes for that profile's own safety multiplier, in the context and the model of the
  response, and its risk by time of day; ten candidates in the same context. Its routes are these three paths, each aggregated with that
  model and compared with the fastest, and after them the worst candidate within the detour bound, if there is one. It is then
  offered to the cache under the key of the request.\<close>

theorem fresh_response_routes:
  assumes "SafeRoutes repo cache now zone q s = (Inr resp, s')" "\<not> rr_FromCache resp"
    and "t = resolve_at (now s) zone q" "tb = hourToTimeBucket (Hour t)" "wt = dateToWeekdayType t"
  shows "\<exists>m profiles snap s1 s2 s3 s4 s5 s6 s7 s8 s9 s10 s11 s12 path_f path_b path_s tod_f tod_b tod_s candidates extra fastest request.
    repo_ActiveModel repo s = (Inr m, s1) \<and> s2 = snd (cache_Get cache (routeCacheKey q tb wt (mv_ID m)) s1) \<and>
    repo_RouteProfiles repo s2 = (Inr profiles, s3) \<and>
    profiles ''fastest'' \<noteq> None \<and> profiles ''balanced'' \<noteq> None \<and> profiles ''safest'' \<noteq> None \<and>
    repo_SnapEndpoints repo q s3 = (Inr snap, s4) \<and>
    \<not> f64_of_rat 150 < sn_OriginDistance snap \<and> \<not> f64_of_rat 150 < sn_DestDistance snap \<and>
    request = (\<lambda>k. \<lparr>rq_FromNodeID = sn_OriginNodeID snap, rq_ToNodeID = sn_DestNodeID snap, rq_ModelVersionID = mv_ID m,
      rq_TimeBucket = tb, rq_WeekdayType = wt, rq_SafetyMultiplier = rp_SafetyMultiplier (the (profiles k))\<rparr>) \<and>
    repo_FindRoute repo (request ''fastest'') s4 = (Inr path_f, s5) \<and> timeOfDayRisk repo path_f m wt s5 = (Inr tod_f, s6) \<and>
    repo_FindRoute repo (request ''balanced'') s6 = (Inr path_b, s7) \<and> timeOfDayRisk repo path_b m wt s7 = (Inr tod_b, s8) \<and>
    repo_FindRoute repo (request ''safest'') s8 = (Inr path_s, s9) \<and> timeOfDayRisk repo path_s m wt s9 = (Inr tod_s, s10) \<and>
    repo_FindCandidateRoutes repo \<lparr>cr_FromNodeID = sn_OriginNodeID snap, cr_ToNodeID = sn_DestNodeID snap,
      cr_ModelVersionID = mv_ID m, cr_TimeBucket = tb, cr_WeekdayType = wt, cr_K = 10\<rparr> s10 = (Inr candidates, s11) \<and>
    fastest = aggregateRoute ''fastest'' path_f m \<and>
    rr_Routes resp = [shown ''fastest'' path_f m fastest tod_f, shown ''balanced'' path_b m fastest tod_b,
      shown ''safest'' path_s m fastest tod_s] @ extra \<and>
    (case worst_candidate fastest m candidates of
       None \<Rightarrow> extra = [] \<and> s12 = s11
     | Some (r, p) \<Rightarrow> p \<in> set candidates \<and> r = aggregateRoute ''least_safe_candidate'' p m \<and> \<not> beyond_detour fastest r \<and>
         (\<exists>tod. timeOfDayRisk repo p m wt s11 = (Inr tod, s12) \<and> extra = [shown ''least_safe_candidate'' p m fastest tod])) \<and>
    rr_TimeBucket resp = tb \<and> rr_WeekdayType resp = wt \<and> rr_Datetime resp = Format_RFC3339 t \<and>
    rr_ModelVersion resp = \<lparr>mi_ID = mv_ID m, mi_Name = mv_Name m, mi_Type = mv_Type m, mi_TrainUntil = mv_TrainUntil m\<rparr> \<and>
    rr_Origin resp = \<lparr>Lat = OriginLat q, Lng = OriginLng q\<rparr> \<and> rr_Destination resp = \<lparr>Lat = DestLat q, Lng = DestLng q\<rparr> \<and>
    s' = snd (cache_Set cache (routeCacheKey q tb wt (mv_ID m)) resp routeCacheTTL s12)"
proof (rule fresh_calls [OF assms], goal_cases)
  case (1 m profiles snap s1 s2 s3 s4 s5 s6 s7 s8 s9 s10 s11 s12 path_f path_b path_s tod_f tod_b tod_s candidates extra)
  have some: "profiles ''fastest'' \<noteq> None" "profiles ''balanced'' \<noteq> None" "profiles ''safest'' \<noteq> None"
    using 1(4) by (simp_all add: profile_names_def)
  define request where "request = (\<lambda>k. \<lparr>rq_FromNodeID = sn_OriginNodeID snap, rq_ToNodeID = sn_DestNodeID snap, rq_ModelVersionID = mv_ID m,
      rq_TimeBucket = tb, rq_WeekdayType = wt, rq_SafetyMultiplier = rp_SafetyMultiplier (the (profiles k))\<rparr>)"
  have rq: "profile_request profiles (base_request snap m tb wt) k = request k" if "profiles k \<noteq> None" for k
    using that by (auto simp: profile_request_def base_request_def request_def)
  have cr: "candidate_request (base_request snap m tb wt) = \<lparr>cr_FromNodeID = sn_OriginNodeID snap, cr_ToNodeID = sn_DestNodeID snap,
      cr_ModelVersionID = mv_ID m, cr_TimeBucket = tb, cr_WeekdayType = wt, cr_K = 10\<rparr>"
    by (simp add: candidate_request_def base_request_def leastSafeCandidateK_def)
  have resp: "rr_TimeBucket resp = tb" "rr_WeekdayType resp = wt" "rr_Datetime resp = Format_RFC3339 t"
    "rr_ModelVersion resp = \<lparr>mi_ID = mv_ID m, mi_Name = mv_Name m, mi_Type = mv_Type m, mi_TrainUntil = mv_TrainUntil m\<rparr>"
    "rr_Origin resp = \<lparr>Lat = OriginLat q, Lng = OriginLng q\<rparr>" "rr_Destination resp = \<lparr>Lat = DestLat q, Lng = DestLng q\<rparr>"
    "rr_Routes resp = [shown ''fastest'' path_f m (aggregateRoute ''fastest'' path_f m) tod_f,
        shown ''balanced'' path_b m (aggregateRoute ''fastest'' path_f m) tod_b,
        shown ''safest'' path_s m (aggregateRoute ''fastest'' path_f m) tod_s] @ extra"
    using 1(16) by (simp_all add: build_response_def assms(4,5))
  show ?case
    by (intro exI conjI)
      (fact 1(1) 1(2) 1(3) some 1(5-7) request_def 1(8) [unfolded rq [OF some(1)]] 1(9) 1(10) [unfolded rq [OF some(2)]] 1(11)
        1(12) [unfolded rq [OF some(3)]] 1(13) 1(14) [unfolded cr] refl resp(7) 1(15) resp(1-6) 1(17))+
qed

theorem fresh_response_routes_witness:
  "\<exists>profiles path_f path_b path_s tod_f tod_b tod_s m extra.
     repo_RouteProfiles (reader example_data) () = (Inr profiles, ()) \<and>
     rr_Routes example_response = [shown ''fastest'' path_f m (aggregateRoute ''fastest'' path_f m) tod_f,
       shown ''balanced'' path_b m (aggregateRoute ''fastest'' path_f m) tod_b,
       shown ''safest'' path_s m (aggregateRoute ''fastest'' path_f m) tod_s] @ extra"
proof -
  have run: "SafeRoutes (reader example_data) NoopRouteCache (\<lambda>_. zero_time) (\<lambda>_. 0) example_query () = (Inr example_response, ())"
    unfolding SafeRoutes_def Let_def example_at
    by (simp add: example_valid prog_run NoopRouteCache_def reader_ops example_compute example_response_def)
      (simp add: example_data_def example_compute [unfolded example_data_def] example_response_def build_response_def)
  have "\<not> rr_FromCache example_response" by (simp add: example_response_def build_response_def)
  from fresh_response_routes [OF run this refl refl refl] show ?thesis
    by (elim exE conjE) (intro exI conjI, (simp; fail)+)
qed

subsection \<open>The least safe candidate\<close>

definition best_candidate :: "SafeRoute \<Rightarrow> ModelVersion \<Rightarrow> RoutePath list \<Rightarrow> (SafeRoute \<times> RoutePath) option \<Rightarrow> bool" where
  "best_candidate f m paths w \<longleftrightarrow>
     (case w of
        None \<Rightarrow> \<forall>p \<in> set paths. beyond_detour f (aggregateRoute ''least_safe_candidate'' p m)
      | Some (r, p) \<Rightarrow> r = aggregateRoute ''least_safe_candidate'' p m \<and> \<not> beyond_detour f r \<and>
          (\<forall>p' \<in> set paths. beyond_detour f (aggregateRoute ''least_safe_candidate'' p' m) \<or>
             RiskScore (aggregateRoute ''least_safe_candidate'' p' m) \<le> RiskScore r) \<and>
          (\<exists>before after. paths = before @ p # after \<and>
             (\<forall>p' \<in> set before. beyond_detour f (aggregateRoute ''least_safe_candidate'' p' m) \<or>
                RiskScore (aggregateRoute ''least_safe_candidate'' p' m) < RiskScore r)))"

lemma candidate_score_number: "valid_path (path_Edges p) \<Longrightarrow> RiskScore (aggregateRoute k p m) \<noteq> NaN"
  using blended_route(5,6) [of "path_Edges p"] round3_unit f64_le_not_NaN unfolding aggregateRoute_scores by blast

lemma best_skip:
  assumes "best_candidate f m ps w" "beyond_detour f (aggregateRoute ''least_safe_candidate'' p m) \<or>
    (\<exists>r q. w = Some (r, q) \<and> RiskScore (aggregateRoute ''least_safe_candidate'' p m) \<le> RiskScore r)"
  shows "best_candidate f m (ps @ [p]) w"
proof (cases w)
  case (Some rq)
  obtain r q where rq: "rq = (r, q)" by (cases rq)
  obtain before after where "ps = before @ q # after"
    "\<forall>p' \<in> set before. beyond_detour f (aggregateRoute ''least_safe_candidate'' p' m) \<or>
       RiskScore (aggregateRoute ''least_safe_candidate'' p' m) < RiskScore r"
    using assms(1) by (auto simp: best_candidate_def Some rq)
  then have "\<exists>before after. ps @ [p] = before @ q # after \<and> (\<forall>p' \<in> set before.
      beyond_detour f (aggregateRoute ''least_safe_candidate'' p' m) \<or> RiskScore (aggregateRoute ''least_safe_candidate'' p' m) < RiskScore r)"
    by (intro exI [of _ before] exI [of _ "after @ [p]"]) simp
  then show ?thesis using assms unfolding best_candidate_def Some rq option.case prod.case by auto
qed (use assms in \<open>auto simp: best_candidate_def\<close>)

lemma best_take:
  assumes "\<forall>p' \<in> set ps. beyond_detour f (aggregateRoute ''least_safe_candidate'' p' m) \<or>
      RiskScore (aggregateRoute ''least_safe_candidate'' p' m) < RiskScore r"
    and "r = aggregateRoute ''least_safe_candidate'' p m" "\<not> beyond_detour f r" "RiskScore r \<noteq> NaN"
  shows "best_candidate f m (ps @ [p]) (Some (r, p))"
  using assms f64_less_imp_le unfolding best_candidate_def option.case prod.case
  by (intro conjI exI [of _ ps] exI [of _ "[]"]) auto

lemma best_step:
  assumes "best_candidate f m ps w" "\<forall>p \<in> set (ps @ [p]). valid_path (path_Edges p)"
  shows "best_candidate f m (ps @ [p]) (worst_step f m w p)"
proof (cases w)
  case None
  have ps: "\<forall>p' \<in> set ps. beyond_detour f (aggregateRoute ''least_safe_candidate'' p' m)"
    using assms(1) by (simp add: best_candidate_def None)
  show ?thesis
  proof (cases "beyond_detour f (aggregateRoute ''least_safe_candidate'' p m)")
    case True
    then show ?thesis using ps by (simp add: worst_step_def best_candidate_def None)
  next
    case False
    then have "worst_step f m w p = Some (aggregateRoute ''least_safe_candidate'' p m, p)" by (simp add: worst_step_def None)
    then show ?thesis using False ps assms(2) candidate_score_number by (auto intro!: best_take)
  qed
next
  case (Some rq)
  obtain r q where w: "w = Some (r, q)" using Some by (cases rq) auto
  let ?new = "aggregateRoute ''least_safe_candidate'' p m"
  have I: "r = aggregateRoute ''least_safe_candidate'' q m" "q \<in> set ps"
    "\<forall>p' \<in> set ps. beyond_detour f (aggregateRoute ''least_safe_candidate'' p' m) \<or> RiskScore (aggregateRoute ''least_safe_candidate'' p' m) \<le> RiskScore r"
    using assms(1) by (auto simp: best_candidate_def w)
  have number: "RiskScore ?new \<noteq> NaN" "RiskScore r \<noteq> NaN" using assms(2) I candidate_score_number by auto
  show ?thesis
  proof (cases "beyond_detour f ?new \<or> \<not> RiskScore r < RiskScore ?new")
    case True
    then have "worst_step f m w p = w" by (auto simp: worst_step_def Let_def w)
    then show ?thesis using assms(1) True number f64_not_less w by (auto intro!: best_skip)
  next
    case False
    then have "worst_step f m w p = Some (?new, p)" by (simp add: worst_step_def Let_def w)
    moreover have "\<forall>p' \<in> set ps. beyond_detour f (aggregateRoute ''least_safe_candidate'' p' m) \<or>
        RiskScore (aggregateRoute ''least_safe_candidate'' p' m) < RiskScore ?new"
      using I(3) False f64_le_less_trans by blast
    ultimately show ?thesis using False number by (auto intro!: best_take)
  qed
qed

lemma best_worst_candidate: "\<forall>p \<in> set paths. valid_path (path_Edges p) \<Longrightarrow> best_candidate f m paths (worst_candidate f m paths)"
  unfolding worst_candidate_def by (induction paths rule: rev_induct) (auto simp: best_candidate_def [of f m "[]"] intro!: best_step)

text \<open>C29. The candidate shown is, among the paths within the detour bound, the first of highest
  displayed risk; there is none only if every path is beyond the bound.\<close>

theorem least_safe_candidate_max:
  assumes "\<forall>p \<in> set paths. valid_path (path_Edges p)"
  shows "case worst_candidate f m paths of
      None \<Rightarrow> \<forall>p \<in> set paths. beyond_detour f (aggregateRoute ''least_safe_candidate'' p m)
    | Some (r, p) \<Rightarrow> r = aggregateRoute ''least_safe_candidate'' p m \<and> \<not> beyond_detour f r \<and>
        (\<forall>p' \<in> set paths. beyond_detour f (aggregateRoute ''least_safe_candidate'' p' m) \<or>
           RiskScore (aggregateRoute ''least_safe_candidate'' p' m) \<le> RiskScore r) \<and>
        (\<exists>before after. paths = before @ p # after \<and>
           (\<forall>p' \<in> set before. beyond_detour f (aggregateRoute ''least_safe_candidate'' p' m) \<or>
              RiskScore (aggregateRoute ''least_safe_candidate'' p' m) < RiskScore r))"
  using best_worst_candidate [OF assms] unfolding best_candidate_def .

theorem least_safe_candidate_max_witness:
  "case worst_candidate (aggregateRoute ''fastest'' \<lparr>path_Edges = example_path, path_Geometry = example_line\<rparr> example_model) example_model
      [\<lparr>path_Edges = example_path, path_Geometry = example_line\<rparr>] of
     None \<Rightarrow> True | Some (r, p) \<Rightarrow> r = aggregateRoute ''least_safe_candidate'' p example_model"
  using least_safe_candidate_max [of "[\<lparr>path_Edges = example_path, path_Geometry = example_line\<rparr>]"
      "aggregateRoute ''fastest'' \<lparr>path_Edges = example_path, path_Geometry = example_line\<rparr> example_model" example_model]
    example_path_valid
  by (auto split: option.splits)

end
