(* ===== verification/CacheCounters.thy ===== *)
theory CacheCounters
  imports SafeRoutesProperties
begin

section \<open>The counters of the Redis cache\<close>

text \<open>
  What any run of lookups and stores adds to the counters of \<open>cache_redis.go\<close>, and what
  \<open>Stats\<close> may therefore report.
\<close>

datatype cache_op = OpGet string | OpSet string SafeRoutesResponse int

fun run_cache :: "'r redis \<Rightarrow> cache_op list \<Rightarrow> 'r redis_cache \<Rightarrow> 'r redis_cache" where
  "run_cache client [] c = c"
| "run_cache client (OpGet k # ops) c = run_cache client ops (snd (redis_Get client k c))"
| "run_cache client (OpSet k r ttl # ops) c = run_cache client ops (snd (redis_Set client k r ttl c))"

definition gets :: "cache_op list \<Rightarrow> nat" where
  "gets ops = length (filter (\<lambda>op. case op of OpGet _ \<Rightarrow> True | _ \<Rightarrow> False) ops)"

text \<open>What a run adds to the counters: one hit or one miss per lookup, one set or one error per
  store, and one more error for each of some of the misses.\<close>

definition advance :: "nat \<Rightarrow> nat \<Rightarrow> nat \<Rightarrow> nat \<Rightarrow> 'r redis_cache \<Rightarrow> 'r redis_cache \<Rightarrow> bool" where
  "advance h m e n c c' \<longleftrightarrow> hits c' = hits c + of_nat h \<and> misses c' = misses c + of_nat m \<and>
     errors c' = errors c + of_nat e \<and> sets c' = sets c + of_nat n"

lemmas counter_defs = add_hit_def add_miss_def add_error_def add_set_def

lemma redis_Get_advance:
  "\<exists>h m e. advance h m e 0 c (snd (redis_Get client k c)) \<and> h + m = 1 \<and> e \<le> m"
proof -
  have "advance 1 0 0 0 c c' \<or> advance 0 1 0 0 c c' \<or> advance 0 1 1 0 c c'" if "c' = snd (redis_Get client k c)" for c'
    unfolding that redis_Get_def Let_def
    by (auto simp: counter_defs advance_def split: prod.split sum.split redis_error.split)
  then show ?thesis by (metis add.left_neutral add.right_neutral le0 le_refl)
qed

lemma redis_Set_advance:
  "\<exists>e n. advance 0 0 e n c (snd (redis_Set client k r ttl c)) \<and> e + n = 1"
proof -
  have "advance 0 0 0 1 c c' \<or> advance 0 0 1 0 c c'" if "c' = snd (redis_Set client k r ttl c)" for c'
    unfolding that redis_Set_def
    by (auto simp: counter_defs advance_def split: prod.split sum.split option.split)
  then show ?thesis by (metis add.left_neutral add.right_neutral)
qed

lemma advance_trans: "advance h m e n c c' \<Longrightarrow> advance h' m' e' n' c' c'' \<Longrightarrow> advance (h + h') (m + m') (e + e') (n + n') c c''"
  by (simp add: advance_def)

lemma run_advance:
  "\<exists>h m e n f. advance h m e n c (run_cache client ops c) \<and> h + m = gets ops \<and>
     e + n = (length ops - gets ops) + f \<and> f \<le> m"
proof (induction ops arbitrary: c)
  case Nil
  then show ?case by (auto simp: advance_def gets_def intro!: exI [of _ 0])
next
  case (Cons op ops)
  have le: "gets ops \<le> length ops" by (simp add: gets_def)
  show ?case
  proof (cases op)
    case (OpGet k)
    obtain h m e where 1: "advance h m e 0 c (snd (redis_Get client k c))" "h + m = 1" "e \<le> m"
      using redis_Get_advance by blast
    obtain h' m' e' n' f' where 2: "advance h' m' e' n' (snd (redis_Get client k c)) (run_cache client (op # ops) c)"
      "h' + m' = gets ops" "e' + n' = (length ops - gets ops) + f'" "f' \<le> m'"
      using Cons OpGet by force
    have "gets (op # ops) = gets ops + 1" by (simp add: gets_def OpGet)
    then show ?thesis
      using advance_trans [OF 1(1) 2(1)] 1(2,3) 2(2,3,4) le
      by (intro exI [of _ "h + h'"] exI [of _ "m + m'"] exI [of _ "e + e'"] exI [of _ n'] exI [of _ "e + f'"]) simp
  next
    case (OpSet k r ttl)
    obtain e n where 1: "advance 0 0 e n c (snd (redis_Set client k r ttl c))" "e + n = 1"
      using redis_Set_advance by blast
    obtain h' m' e' n' f' where 2: "advance h' m' e' n' (snd (redis_Set client k r ttl c)) (run_cache client (op # ops) c)"
      "h' + m' = gets ops" "e' + n' = (length ops - gets ops) + f'" "f' \<le> m'"
      using Cons OpSet by force
    have "gets (op # ops) = gets ops" by (simp add: gets_def OpSet)
    then show ?thesis
      using advance_trans [OF 1(1) 2(1)] 1(2) 2(2,3,4) le
      by (intro exI [of _ h'] exI [of _ m'] exI [of _ "e + e'"] exI [of _ "n + n'"] exI [of _ f']) simp
  qed
qed

lemma f64_of_i64_mono: "0 \<le> sint a \<Longrightarrow> sint a \<le> sint b \<Longrightarrow> 0 \<le> f64_of_i64 a \<and> f64_of_i64 a \<le> f64_of_i64 b \<and> f64_of_i64 b \<noteq> PInf"
proof -
  assume ab: "0 \<le> sint a" "sint a \<le> sint b"
  have "(of_int (sint b) :: rat) \<le> of_int 9223372036854775808"
    unfolding of_int_le_iff using sint_lt [of b] by simp
  then have "f64_of_rat (of_int (sint b)) \<le> f64_of_rat 9223372036854775808"
    by (intro f64_of_rat_mono) (simp only: of_int_numeral)
  also have "f64_of_rat 9223372036854775808 = Fin 9223372036854775808" by code_simp
  finally have "f64_of_i64 b \<noteq> PInf" by (auto simp: f64_of_i64_def)
  moreover have "(0 :: rat) \<le> of_int (sint a)" "(of_int (sint a) :: rat) \<le> of_int (sint b)"
    unfolding of_int_0_le_iff of_int_le_iff using ab by simp_all
  ultimately show ?thesis unfolding f64_of_i64_def using f64_of_rat_nonneg f64_of_rat_mono by blast
qed

lemma f64_of_i64_pos: "0 < sint a \<Longrightarrow> 0 < f64_of_i64 a"
proof -
  assume "0 < sint a"
  then have "(of_int 1 :: rat) \<le> of_int (sint a)" unfolding of_int_le_iff by simp
  then have "f64_of_rat 1 \<le> f64_of_i64 a" unfolding f64_of_i64_def by (intro f64_of_rat_mono) (simp only: of_int_1)
  then show "0 < f64_of_i64 a" by (cases "f64_of_i64 a") (auto simp: lit_consts less_f64_def zero_f64_def one_f64_def)
qed

text \<open>C30. Over any run of fewer than \<open>2 ^ 63\<close> operations on a new cache, hits and misses add up
  to the lookups, sets and errors account for every store and every failed lookup, and the
  reported hit rate lies between 0 and 1.\<close>

theorem cache_stats_consistent:
  assumes "length ops < 2 ^ 63" and "c = run_cache client ops (NewRedisRouteCache sv)"
  shows "sint (cs_Hits (Stats c)) + sint (cs_Misses (Stats c)) = int (gets ops) \<and>
    int (length ops - gets ops) \<le> sint (cs_Sets (Stats c)) + sint (cs_Errors (Stats c)) \<and>
    sint (cs_Sets (Stats c)) + sint (cs_Errors (Stats c)) \<le> int (length ops - gets ops) + sint (cs_Misses (Stats c)) \<and>
    0 \<le> cs_HitRate (Stats c) \<and> cs_HitRate (Stats c) \<le> 1"
proof -
  obtain h m e n f where a: "advance h m e n (NewRedisRouteCache sv) c" and g: "h + m = gets ops"
    and sn: "e + n = (length ops - gets ops) + f" "f \<le> m"
    using run_advance [of "NewRedisRouteCache sv" client ops] assms(2) by auto
  have len: "gets ops \<le> length ops" by (simp add: gets_def)
  have small: "sint (of_nat k :: i64) = int k" if "k \<le> length ops" for k
    using assms(1) that by (simp add: sint_uint unsigned_of_nat take_bit_nat_eq_self signed_take_bit_int_eq_self_iff)
  have c: "sint (hits c) = int h" "sint (misses c) = int m" "sint (errors c) = int e" "sint (sets c) = int n"
    "sint (hits c + misses c) = int (h + m)"
    using a g sn len small [of h] small [of m] small [of e] small [of n] small [of "h + m"]
    by (simp_all add: advance_def NewRedisRouteCache_def flip: of_nat_add)
  have pos: "0 <s hits c + misses c \<longleftrightarrow> 0 < sint (hits c + misses c)"
    by (simp add: word_sless_alt)
  have "average (f64_of_i64 (hits c)) (f64_of_i64 (hits c + misses c)) = 0" if "sint (hits c + misses c) = 0"
    using that by (simp add: f64_of_i64_def average_def less_f64_def)
  then have "cs_HitRate (Stats c) = average (f64_of_i64 (hits c)) (f64_of_i64 (hits c + misses c))"
    using f64_of_i64_pos pos c(5) by (auto simp: Stats_def average_def)
  then show ?thesis
    using c g sn average_unit f64_of_i64_mono [of "hits c" "hits c + misses c"] by (simp add: Stats_def)
qed

theorem cache_stats_consistent_witness:
  "cs_HitRate (Stats (run_cache mem_redis
      [OpGet ''k'', OpSet ''k'' example_response routeCacheTTL, OpGet ''k''] (NewRedisRouteCache Map.empty))) \<le> 1"
  using cache_stats_consistent [of "[OpGet ''k'', OpSet ''k'' example_response routeCacheTTL, OpGet ''k'']" _ mem_redis
      Map.empty, OF _ refl] by simp

end
