(* ===== verification/PgRows.thy ===== *)
theory PgRows
  imports Prelude
begin

section \<open>Reading database rows\<close>

text \<open>
  The shape of every repository method. \<open>QueryRow(...).Scan(...)\<close> gives \<open>pgx.ErrNoRows\<close>,
  another error, or the scanned values of one row. \<open>Query(...)\<close> fails or gives the rows,
  each of which may fail to scan, and an error that ends the iteration
  (\<open>rows.Err()\<close>). The driver and the server are parameters of the models; their results
  have these types.
\<close>

datatype pgx_error = ErrNoRows | PgxError string

fun pgx_text :: "pgx_error \<Rightarrow> string" where
  "pgx_text ErrNoRows = ''no rows in result set''"
| "pgx_text (PgxError m) = m"

type_synonym 'row pg_rows = "string + (string + 'row) list \<times> string option"

fun scan_rows :: "(string \<Rightarrow> 'e goerr) \<Rightarrow> ('row \<Rightarrow> 'acc \<Rightarrow> 'e goerr + 'acc) \<Rightarrow> (string + 'row) list \<Rightarrow> 'acc \<Rightarrow> 'e goerr + 'acc" where
  "scan_rows scanErr step [] acc = Inr acc"
| "scan_rows scanErr step (Inl e # rows) acc = Inl (scanErr e)"
| "scan_rows scanErr step (Inr r # rows) acc =
     (case step r acc of Inl e \<Rightarrow> Inl e | Inr acc \<Rightarrow> scan_rows scanErr step rows acc)"

definition read_rows :: "string \<Rightarrow> string \<Rightarrow> ('row \<Rightarrow> 'acc \<Rightarrow> 'e goerr + 'acc) \<Rightarrow> 'acc \<Rightarrow> 'row pg_rows \<Rightarrow> 'e goerr + 'acc" where
  "read_rows queryMsg scanMsg step acc res =
     (case res of
        Inl e \<Rightarrow> Inl (Wrap queryMsg (Opaque e))
      | Inr (rows, err) \<Rightarrow>
          (case scan_rows (\<lambda>e. Wrap scanMsg (Opaque e)) step rows acc of
             Inl e \<Rightarrow> Inl e
           | Inr acc \<Rightarrow> (case err of None \<Rightarrow> Inr acc | Some e \<Rightarrow> Inl (Wrap queryMsg (Opaque e)))))"

text \<open>A clean result: every row scans and the iteration ends without an error.\<close>

definition all_rows :: "'row list \<Rightarrow> 'row pg_rows" where
  "all_rows rs = Inr (map Inr rs, None)"

lemma scan_rows_total: "scan_rows se (\<lambda>r acc. Inr (f r acc)) (map Inr rs) acc = Inr (fold f rs acc)"
  by (induction rs arbitrary: acc) simp_all

lemma read_rows_all: "read_rows q sc (\<lambda>r acc. Inr (f r acc)) acc (all_rows rs) = Inr (fold f rs acc)"
  by (simp add: read_rows_def all_rows_def scan_rows_total)

lemma fold_snoc_map: "fold (\<lambda>r acc. acc @ [f r]) rs acc = acc @ map f rs"
  by (induction rs arbitrary: acc) simp_all

lemma scan_rows_no_sentinel:
  "(\<And>r acc e. step r acc = Inl e \<Longrightarrow> \<not> errors_Is e t) \<Longrightarrow> (\<And>e. \<not> errors_Is (se e) t) \<Longrightarrow>
    scan_rows se step rows acc = Inl e \<Longrightarrow> \<not> errors_Is e t"
  by (induction se step rows acc rule: scan_rows.induct) (auto split: sum.splits)

lemma read_rows_no_sentinel:
  "(\<And>r acc e. step r acc = Inl e \<Longrightarrow> \<not> errors_Is e t) \<Longrightarrow>
    read_rows q sc step acc res = Inl e \<Longrightarrow> \<not> errors_Is e t"
  using scan_rows_no_sentinel [of step t "\<lambda>e. Wrap sc (Opaque e)"]
  by (fastforce simp: read_rows_def split: sum.splits option.splits)

end
