(* ===== verification/SafeRoutesRepository.thy ===== *)
theory SafeRoutesRepository
  imports SafeRoutesApi PgRows
begin

section \<open>The PostgreSQL repository\<close>

text \<open>
  \<open>internal/saferoutes/repository.go\<close>, the Go side of it: which statement is sent with which
  arguments, how its result becomes a value or an error. The statements themselves run in
  PostgreSQL with PostGIS and pgRouting: \<open>'s routing_db\<close> gives the scanned result of each. The
  cost statement that is interpolated into a path query is a value of \<open>inner_cost\<close>, with
  the numbers and strings that \<open>fmt.Sprintf\<close> puts into it.
\<close>

datatype inner_cost = DistanceCostInner | RiskCostInner f64 i64 string string

record 's routing_db =
  q_ActiveModel :: "'s \<Rightarrow> (pgx_error + (i64 \<times> string \<times> string \<times> string \<times> f64 \<times> f64)) \<times> 's"
  q_RouteProfiles :: "'s \<Rightarrow> (string \<times> f64 \<times> f64) pg_rows \<times> 's"
  q_Snap :: "f64 \<Rightarrow> f64 \<Rightarrow> f64 \<Rightarrow> f64 \<Rightarrow> 's \<Rightarrow> (pgx_error + (i64 option \<times> f64 option \<times> i64 option \<times> f64 option)) \<times> 's"
  q_Route :: "inner_cost \<Rightarrow> i64 \<Rightarrow> i64 \<Rightarrow> i64 \<Rightarrow> string \<Rightarrow> string \<Rightarrow> 's \<Rightarrow> (pgx_error + (int \<times> string option \<times> string)) \<times> 's"
  q_Ksp :: "inner_cost \<Rightarrow> i64 \<Rightarrow> i64 \<Rightarrow> int \<Rightarrow> i64 \<Rightarrow> string \<Rightarrow> string \<Rightarrow> 's \<Rightarrow> (int \<times> string option \<times> string) pg_rows \<times> 's"
  q_RiskByBucket :: "i64 list \<Rightarrow> i64 \<Rightarrow> string \<Rightarrow> 's \<Rightarrow> (i64 \<times> string \<times> f64) pg_rows \<times> 's"

record path_codec =
  unmarshal_geom :: "string \<Rightarrow> string + GeoJSONLineString"
  unmarshal_edges :: "string \<Rightarrow> string + PathEdge list"

definition pg_ActiveModel :: "'s routing_db \<Rightarrow> ('s, saferoutes_error, ModelVersion) prog" where
  "pg_ActiveModel db s =
     (case q_ActiveModel db s of
        (Inl ErrNoRows, s) \<Rightarrow> fail (Sentinel ErrNoActiveModel) s
      | (Inl (PgxError e), s) \<Rightarrow> fail (Wrap ''saferoutes: active model'' (Opaque e)) s
      | (Inr (i, name, type, trainUntil, lowMax, moderateMax), s) \<Rightarrow>
          ret \<lparr>mv_ID = i, mv_Name = name, mv_Type = type, mv_TrainUntil = trainUntil,
               mv_LowMax = lowMax, mv_ModerateMax = moderateMax\<rparr> s)"

definition pg_RouteProfiles :: "'s routing_db \<Rightarrow> ('s, saferoutes_error, string \<rightharpoonup> RouteProfile) prog" where
  "pg_RouteProfiles db s =
     (case q_RouteProfiles db s of (res, s) \<Rightarrow>
        (read_rows ''saferoutes: route profiles'' ''saferoutes: scan route profile''
          (\<lambda>(name, mult, detour) profiles.
             Inr (profiles(name \<mapsto> \<lparr>rp_Name = name, rp_SafetyMultiplier = mult, rp_MaxDetourRatio = detour\<rparr>)))
          Map.empty res, s))"

text \<open>A node without its distance would be dereferenced as a nil pointer; the router answers a
  panic like any other error.\<close>

definition pg_SnapEndpoints :: "'s routing_db \<Rightarrow> SafeRoutesQuery \<Rightarrow> ('s, saferoutes_error, SnapResult) prog" where
  "pg_SnapEndpoints db query s =
     (case q_Snap db (OriginLng query) (OriginLat query) (DestLng query) (DestLat query) s of
        (Inl e, s) \<Rightarrow> fail (Wrap ''saferoutes: snap endpoints'' (Opaque (pgx_text e))) s
      | (Inr (originNode, originDist, destNode, destDist), s) \<Rightarrow>
          (case (originNode, destNode) of
             (Some on, Some dn) \<Rightarrow>
               (case (originDist, destDist) of
                  (Some od, Some dd) \<Rightarrow>
                    ret \<lparr>sn_OriginNodeID = on, sn_OriginDistance = od, sn_DestNodeID = dn, sn_DestDistance = dd\<rparr> s
                | _ \<Rightarrow> fail (Opaque ''panic: nil pointer dereference'') s)
           | _ \<Rightarrow> fail (Sentinel ErrPointOutsideGraph) s))"

definition decodeRoutePath :: "path_codec \<Rightarrow> string \<Rightarrow> string \<Rightarrow> saferoutes_error goerr + RoutePath" where
  "decodeRoutePath json geomJSON edgesJSON =
     (case unmarshal_geom json geomJSON of
        Inl e \<Rightarrow> Inl (Wrap ''saferoutes: decode route geometry'' (Opaque e))
      | Inr geom \<Rightarrow>
          if ls_Type geom \<noteq> ''LineString''
          then Inl (Opaque (''saferoutes: unexpected route geometry type '' @ ls_Type geom))
          else case unmarshal_edges json edgesJSON of
              Inl e \<Rightarrow> Inl (Wrap ''saferoutes: decode route edges'' (Opaque e))
            | Inr edges \<Rightarrow> Inr \<lparr>path_Edges = edges, path_Geometry = geom\<rparr>)"

definition route_cost :: "RouteRequest \<Rightarrow> inner_cost" where
  "route_cost req =
     (if 0 < rq_SafetyMultiplier req
      then RiskCostInner (rq_SafetyMultiplier req) (rq_ModelVersionID req) (rq_TimeBucket req) (rq_WeekdayType req)
      else DistanceCostInner)"

definition pg_FindRoute :: "'s routing_db \<Rightarrow> path_codec \<Rightarrow> RouteRequest \<Rightarrow> ('s, saferoutes_error, RoutePath) prog" where
  "pg_FindRoute db json req s =
     (case validateContext (rq_TimeBucket req) (rq_WeekdayType req) of
        Some err \<Rightarrow> fail err s
      | None \<Rightarrow>
          (case q_Route db (route_cost req) (rq_FromNodeID req) (rq_ToNodeID req) (rq_ModelVersionID req)
                  (rq_TimeBucket req) (rq_WeekdayType req) s of
             (Inl e, s) \<Rightarrow> fail (Wrap ''saferoutes: find route'' (Opaque (pgx_text e))) s
           | (Inr (edgeCount, geomJSON, edgesJSON), s) \<Rightarrow>
               (case geomJSON of
                  None \<Rightarrow> fail (Sentinel ErrNoRoute) s
                | Some geom \<Rightarrow>
                    if edgeCount = 0 then fail (Sentinel ErrNoRoute) s
                    else (decodeRoutePath json geom edgesJSON, s))))"

definition candidate_row :: "path_codec \<Rightarrow> int \<times> string option \<times> string \<Rightarrow> RoutePath list \<Rightarrow> saferoutes_error goerr + RoutePath list" where
  "candidate_row json = (\<lambda>(pathID, geomJSON, edgesJSON) paths.
     case geomJSON of
       None \<Rightarrow> Inr paths
     | Some geom \<Rightarrow> (case decodeRoutePath json geom edgesJSON of Inl e \<Rightarrow> Inl e | Inr path \<Rightarrow> Inr (paths @ [path])))"

definition pg_FindCandidateRoutes :: "'s routing_db \<Rightarrow> path_codec \<Rightarrow> CandidateRouteRequest \<Rightarrow> ('s, saferoutes_error, RoutePath list) prog" where
  "pg_FindCandidateRoutes db json req s =
     (case validateContext (cr_TimeBucket req) (cr_WeekdayType req) of
        Some err \<Rightarrow> fail err s
      | None \<Rightarrow>
          (case q_Ksp db DistanceCostInner (cr_FromNodeID req) (cr_ToNodeID req) (cr_K req) (cr_ModelVersionID req)
                  (cr_TimeBucket req) (cr_WeekdayType req) s of (res, s) \<Rightarrow>
             (read_rows ''saferoutes: find candidate routes'' ''saferoutes: scan candidate route'' (candidate_row json) [] res, s)))"

definition pg_RouteRiskByBucket :: "'s routing_db \<Rightarrow> i64 list \<Rightarrow> i64 \<Rightarrow> string \<Rightarrow> ('s, saferoutes_error, EdgeBucketRisk list) prog" where
  "pg_RouteRiskByBucket db edgeIDs modelVersionID weekdayType s =
     (case q_RiskByBucket db edgeIDs modelVersionID weekdayType s of (res, s) \<Rightarrow>
        (read_rows ''saferoutes: route risk by bucket'' ''saferoutes: scan bucket risk''
          (\<lambda>(edge, bucket, risk) out. Inr (out @ [\<lparr>eb_EdgeID = edge, eb_TimeBucket = bucket, eb_RiskScore = risk\<rparr>])) [] res, s))"

definition PostgresRepository :: "'s routing_db \<Rightarrow> path_codec \<Rightarrow> 's Repository" where
  "PostgresRepository db json = \<lparr>repo_ActiveModel = pg_ActiveModel db, repo_RouteProfiles = pg_RouteProfiles db,
     repo_SnapEndpoints = pg_SnapEndpoints db, repo_FindRoute = pg_FindRoute db json,
     repo_FindCandidateRoutes = pg_FindCandidateRoutes db json, repo_RouteRiskByBucket = pg_RouteRiskByBucket db\<rparr>"

end
