(* ===== verification/Httpx.thy ===== *)
theory Httpx
  imports Prelude
begin

section \<open>HTTP responses\<close>

text \<open>
  \<open>internal/httpx/response.go\<close>. A response is its status, the headers a handler set and a
  body: an encoded value of the endpoint's payload type, the error object, or the plain
  text \<open>http.Error\<close> writes. Whether \<open>json.Encoder\<close> accepts a payload is a parameter; the
  error object is two strings and always encodes.
\<close>

datatype SameSite = SameSiteLaxMode | SameSiteStrictMode | SameSiteNoneMode

record cookie =
  ck_Name :: string
  ck_Value :: string
  ck_Path :: string
  ck_HttpOnly :: bool
  ck_Secure :: bool
  ck_SameSite :: SameSite
  ck_MaxAge :: int

datatype header = Header string string | SetCookie cookie

datatype 'p http_body = Json 'p | ErrorJson string string | PlainText string | NoBody

record 'p http_response =
  hr_Status :: nat
  hr_Headers :: "header list"
  hr_Body :: "'p http_body"

definition WriteJSON :: "('p \<Rightarrow> bool) \<Rightarrow> header list \<Rightarrow> nat \<Rightarrow> 'p \<Rightarrow> 'p http_response" where
  "WriteJSON encodable headers status payload =
     (if \<not> encodable payload
      then \<lparr>hr_Status = 500, hr_Headers = headers @ [Header ''Content-Type'' ''text/plain; charset=utf-8'', Header ''X-Content-Type-Options'' ''nosniff''],
            hr_Body = PlainText (''internal server error'' @ [CHR 0x0A])\<rparr>
      else \<lparr>hr_Status = status, hr_Headers = headers @ [Header ''Content-Type'' ''application/json''],
            hr_Body = Json payload\<rparr>)"

definition WriteError :: "nat \<Rightarrow> string \<Rightarrow> string \<Rightarrow> 'p http_response" where
  "WriteError status code message =
     \<lparr>hr_Status = status, hr_Headers = [Header ''Content-Type'' ''application/json''], hr_Body = ErrorJson code message\<rparr>"

definition WriteInvalidRequest :: "string \<Rightarrow> 'p http_response" where
  "WriteInvalidRequest message = WriteError 400 ''invalid_request'' message"

definition WriteInternalError :: "string \<Rightarrow> 'p http_response" where
  "WriteInternalError message = WriteError 500 ''internal_error'' message"

lemma status_simps [simp]:
  "hr_Status (WriteError n c m) = n" "hr_Status (WriteInvalidRequest m) = 400" "hr_Status (WriteInternalError m) = 500"
  "hr_Status (WriteJSON enc hs n p) = (if enc p then n else 500)"
  by (simp_all add: WriteError_def WriteInvalidRequest_def WriteInternalError_def WriteJSON_def)

lemma body_simps [simp]:
  "hr_Body (WriteError n c m) = ErrorJson c m" "hr_Body (WriteInvalidRequest m) = ErrorJson ''invalid_request'' m"
  "hr_Body (WriteInternalError m) = ErrorJson ''internal_error'' m"
  "hr_Body (WriteJSON enc hs n p) = (if enc p then Json p else PlainText (''internal server error'' @ [CHR 0x0A]))"
  by (simp_all add: WriteError_def WriteInvalidRequest_def WriteInternalError_def WriteJSON_def)

end
