(* ===== verification/ErrorSets.thy ===== *)
theory ErrorSets
  imports Prelude
begin

section \<open>Which sentinel errors a call can return\<close>

text \<open>
  Handlers choose the HTTP status with \<open>errors.Is\<close>, so what matters of a call is the set of sentinel
  errors it can return.
\<close>

text \<open>\<open>raises p S\<close>: the sentinel errors \<open>p\<close> can return are in \<open>S\<close>.\<close>

definition raises :: "('s, 'e, 'x) prog \<Rightarrow> 'e set \<Rightarrow> bool" where
  "raises p S \<longleftrightarrow> (\<forall>s e s' t. p s = (Inl e, s') \<longrightarrow> errors_Is e t \<longrightarrow> t \<in> S)"

lemma raises_base: "raises (ret x) S" "raises (fail (Opaque m)) S" "e \<in> S \<Longrightarrow> raises (fail (Sentinel e)) S"
  by (auto simp: raises_def)

lemma raises_mono: "raises p S \<Longrightarrow> S \<subseteq> T \<Longrightarrow> raises p T"
  unfolding raises_def by blast

lemma raises_andThen: "raises p S \<Longrightarrow> (\<And>x. raises (k x) S) \<Longrightarrow> raises (andThen p k) S"
  unfolding raises_def andThen_Inl by blast

lemma raises_if: "raises p S \<Longrightarrow> raises q S \<Longrightarrow> raises (if b then p else q) S"
  by simp

lemma raises_option: "raises p S \<Longrightarrow> (\<And>x. raises (f x) S) \<Longrightarrow> raises (case y of None \<Rightarrow> p | Some x \<Rightarrow> f x) S"
  by (cases y) simp_all

lemmas raises_intros = raises_base raises_andThen raises_if raises_option

text \<open>\<open>raised p s t\<close>: started in \<open>s\<close>, the call \<open>p\<close> fails with the sentinel error \<open>t\<close>.\<close>

definition raised :: "('s, 'e, 'x) prog \<Rightarrow> 's \<Rightarrow> 'e \<Rightarrow> bool" where
  "raised p s t \<longleftrightarrow> (\<exists>e s'. p s = (Inl e, s') \<and> errors_Is e t)"

lemma raised_base: "\<not> raised (ret x) s t" "raised (fail e) s t \<longleftrightarrow> errors_Is e t"
  by (simp_all add: raised_def ret_def fail_def)

lemma raised_andThen: "raised (andThen p k) s t \<longleftrightarrow> raised p s t \<or> (\<exists>x s1. p s = (Inr x, s1) \<and> raised (k x) s1 t)"
  unfolding raised_def andThen_Inl by blast

lemma raised_if: "raised (if b then p else q) s t \<longleftrightarrow> (if b then raised p s t else raised q s t)"
  by simp

lemma raised_option:
  "raised (case y of None \<Rightarrow> p | Some x \<Rightarrow> f x) s t \<longleftrightarrow> (case y of None \<Rightarrow> raised p s t | Some x \<Rightarrow> raised (f x) s t)"
  by (cases y) simp_all

lemmas raised_simps = raised_base raised_andThen raised_if raised_option

lemma raises_not_raised: "raises p S \<Longrightarrow> t \<notin> S \<Longrightarrow> \<not> raised p s t"
  unfolding raises_def raised_def by blast

end
