(* ===== verification/TimeParse.thy ===== *)
theory TimeParse
  imports GoTime "HOL-Library.Monad_Syntax"
begin

section \<open>Reading RFC 3339 times\<close>

text \<open>
  \<open>time.Parse(time.RFC3339, _)\<close>: the general parser on the layout \<open>2006-01-02T15:04:05Z07:00\<close>. It takes a
  one-digit hour, a fraction after the seconds that the layout does not have, after a point or a comma, and
  offsets up to 24 hours and 60 minutes. The fast path of the library accepts fewer texts and
  gives the same times. The result carries the offset of the text.
\<close>

definition two_digits :: "string \<Rightarrow> (nat \<times> string) option" where
  "two_digits s = (case s of
     a # b # t \<Rightarrow> if is_digit a \<and> is_digit b then Some (10 * char_digit a + char_digit b, t) else None
   | _ \<Rightarrow> None)"

definition one_or_two_digits :: "string \<Rightarrow> (nat \<times> string) option" where
  "one_or_two_digits s = (case two_digits s of
     Some r \<Rightarrow> Some r
   | None \<Rightarrow> (case s of a # t \<Rightarrow> if is_digit a then Some (char_digit a, t) else None | [] \<Rightarrow> None))"

definition four_digits :: "string \<Rightarrow> (nat \<times> string) option" where
  "four_digits s = do { (a, s) \<leftarrow> two_digits s; (b, s) \<leftarrow> two_digits s; Some (100 * a + b, s) }"

definition skip :: "char \<Rightarrow> string \<Rightarrow> string option" where
  "skip c s = (case s of a # t \<Rightarrow> if a = c then Some t else None | [] \<Rightarrow> None)"

definition require :: "bool \<Rightarrow> unit option" where
  "require b = (if b then Some () else None)"

definition daysIn :: "int \<Rightarrow> int \<Rightarrow> int" where
  "daysIn m year =
     (if m = 2 then (if year mod 4 = 0 \<and> (year mod 100 \<noteq> 0 \<or> year mod 400 = 0) then 29 else 28)
      else if m \<in> {4, 6, 9, 11} then 30 else 31)"

definition fraction :: "string \<Rightarrow> int \<times> string" where
  "fraction s = (case s of
     c # d # t \<Rightarrow>
       if (c = CHR ''.'' \<or> c = CHR '','') \<and> is_digit d
       then let ds = take 9 (takeWhile is_digit (d # t))
            in (int (undec ds) * 10 ^ (9 - length ds), dropWhile is_digit (d # t))
       else (0, s)
   | _ \<Rightarrow> (0, s))"

definition zone_offset :: "string \<Rightarrow> (int \<times> string) option" where
  "zone_offset s = (case s of
     [] \<Rightarrow> None
   | c # t \<Rightarrow>
       if c = CHR ''Z'' then Some (0, t)
       else if c = CHR ''+'' \<or> c = CHR ''-'' then
         do { (hr, t) \<leftarrow> two_digits t; t \<leftarrow> skip CHR '':'' t; (mm, t) \<leftarrow> two_digits t;
              require (hr \<le> 24 \<and> mm \<le> 60);
              Some ((if c = CHR ''-'' then - 1 else 1) * (int hr * 60 + int mm) * 60, t) }
       else None)"

definition Parse_RFC3339 :: "string \<Rightarrow> go_time option" where
  "Parse_RFC3339 s = do {
     (year, s) \<leftarrow> four_digits s;
     s \<leftarrow> skip CHR ''-'' s;
     (month, s) \<leftarrow> two_digits s;
     s \<leftarrow> skip CHR ''-'' s;
     (day, s) \<leftarrow> two_digits s;
     s \<leftarrow> skip CHR ''T'' s;
     (hour, s) \<leftarrow> one_or_two_digits s;
     s \<leftarrow> skip CHR '':'' s;
     (minute, s) \<leftarrow> two_digits s;
     s \<leftarrow> skip CHR '':'' s;
     (sec, s) \<leftarrow> two_digits s;
     let (ns, s) = fraction s;
     (offset, s) \<leftarrow> zone_offset s;
     require (s = [] \<and> 1 \<le> month \<and> month \<le> 12 \<and> hour < 24 \<and> minute < 60 \<and> sec < 60 \<and>
       1 \<le> day \<and> int day \<le> daysIn (int month) (int year));
     Some \<lparr>unixSec = day_of_date (int year, int month, int day) * 86400
         + int hour * 3600 + int minute * 60 + int sec - offset,
       nsec = ns, utcOffset = offset\<rparr> }"

lemma leap_year:
  fixes c q era :: int
  assumes "year = 100 * c + 4 * q + y + era * 400 + 1" "y = 3" "0 \<le> q" "q < 25" "q < 24 \<or> c = 3"
  shows "year mod 4 = 0 \<and> (year mod 100 \<noteq> 0 \<or> year mod 400 = 0)"
proof (cases "q < 24")
  case True
  have "year = 4 * (25 * c + q + 100 * era + 1)" using assms(1,2) by simp
  moreover have "year mod 100 = (4 * q + 4) mod 100"
    using assms(1,2) mod_mult_self2 [of "4 * q + 4" 100 "c + 4 * era"] by (simp add: algebra_simps)
  ultimately show ?thesis using True assms(3) by simp
next
  case False
  then have "year = 400 * (era + 1)" using assms by simp
  then show ?thesis by simp
qed

lemma date_of_day_valid:
  assumes "date_of_day n = (year, m, d)"
  shows "1 \<le> m" "m \<le> 12" "1 \<le> d" "d \<le> daysIn m year"
proof -
  define era doe where "era = (n + 719468) div 146097" and "doe = (n + 719468) mod 146097"
  define c where "c = min 3 (doe div 36524)"
  define doc where "doc = doe - 36524 * c"
  define q doq where "q = doc div 1461" and "doq = doc mod 1461"
  define y where "y = min 3 (doq div 365)"
  define doy where "doy = doq - 365 * y"
  define mp where "mp = (5 * doy + 2) div 153"
  have doe: "0 \<le> doe" "doe \<le> 4 * 36524" unfolding doe_def using pos_mod_bound [of 146097 "n + 719468"] by simp_all
  have C: "0 \<le> c" "c \<le> 3" "0 \<le> doc" "doc \<le> 36524"
    using min_div_bounds [OF doe(1) _ doe(2)] unfolding c_def doc_def by simp_all
  have q: "doc = 1461 * q + doq" "0 \<le> doq" "doq \<le> 4 * 365" "0 \<le> q" "q < 25"
    unfolding q_def doq_def using C(3,4) pos_mod_bound [of 1461 doc] by (simp_all add: pos_imp_zdiv_nonneg_iff)
  have Y: "0 \<le> y" "y \<le> 3" "0 \<le> doy" "doy \<le> 365"
    using min_div_bounds [OF q(2) _ q(3)] unfolding y_def doy_def by simp_all
  have mp: "0 \<le> mp" "mp < 12" unfolding mp_def using Y(3,4) by linarith+
  have eq: "year = 100 * c + 4 * q + y + era * 400 + (if m \<le> 2 then 1 else 0)" "m = (if mp < 10 then mp + 3 else mp - 9)"
      "d = doy - (153 * mp + 2) div 5 + 1"
    using assms unfolding date_of_day_def Let_def era_def [symmetric] doe_def [symmetric] c_def [symmetric] doc_def [symmetric]
      q_def [symmetric] doq_def [symmetric] y_def [symmetric] doy_def [symmetric] mp_def [symmetric] by auto
  show "1 \<le> m" "m \<le> 12" using eq mp by auto
  have mpd: "153 * mp \<le> 5 * doy + 2" "5 * doy + 2 < 153 * mp + 153"
    unfolding mp_def by linarith+
  then show "1 \<le> d" using eq(3) by linarith
  show "d \<le> daysIn m year"
  proof (cases "mp = 11")
    case True
    then have m: "m = 2" and d: "d = doy - 336" "doy \<le> 365" and yr: "year = 100 * c + 4 * q + y + era * 400 + 1"
      using eq mpd Y by simp_all
    show ?thesis
    proof (cases "doy = 365")
      case False
      then show ?thesis using m d by (simp add: daysIn_def)
    next
      case 365: True
      have "y = 3"
      proof (rule ccontr)
        assume "y \<noteq> 3"
        then have "y = doq div 365" unfolding y_def by linarith
        then have "doy < 365" unfolding doy_def by linarith
        then show False using 365 by simp
      qed
      then have y: "y = 3" "doq = 1460" using 365 doy_def by linarith+
      have "q < 24 \<or> c = 3"
      proof (rule ccontr)
        assume "\<not> (q < 24 \<or> c = 3)"
        then have "q = 24" "c < 3" using q(5) C(2) by linarith+
        then have "c = doe div 36524" unfolding c_def by linarith
        then have "doc < 36524" unfolding doc_def by linarith
        then show False using q(1) y(2) \<open>q = 24\<close> by linarith
      qed
      then have "year mod 4 = 0 \<and> (year mod 100 \<noteq> 0 \<or> year mod 400 = 0)"
        using q(4,5) by (intro leap_year [OF yr y(1)])
      then show ?thesis using m d by (simp add: daysIn_def)
    qed
  next
    case False
    then have "mp = 0 \<or> mp = 1 \<or> mp = 2 \<or> mp = 3 \<or> mp = 4 \<or> mp = 5 \<or> mp = 6 \<or> mp = 7 \<or> mp = 8 \<or> mp = 9 \<or> mp = 10"
      using mp by presburger
    then show ?thesis using mpd eq by (elim disjE) (simp_all add: daysIn_def)
  qed
qed


subsection \<open>Reading what was written\<close>

lemma two_digits_pad [simp]: "two_digits (dec_pad 2 n @ s) = Some (n mod 100, s)"
proof -
  have "n mod (10 * 10) = 10 * (n div 10 mod 10) + n mod 10" by (rule mod_mult2_eq)
  then show ?thesis by (simp add: two_digits_def numeral_2_eq_2)
qed

lemma dec_pad_split: "dec_pad (v + w) n = dec_pad v (n div 10 ^ w) @ dec_pad w n"
  by (induction w arbitrary: n) (simp_all add: div_mult2_eq)

lemma four_digits_pad [simp]: "four_digits (dec_pad 4 n @ s) = Some (n mod 10000, s)"
proof -
  have "dec_pad 4 n = dec_pad 2 (n div 100) @ dec_pad 2 n" using dec_pad_split [of 2 2 n] by simp
  moreover have "n mod (100 * 100) = 100 * (n div 100 mod 100) + n mod 100" by (rule mod_mult2_eq)
  ultimately show ?thesis by (simp add: four_digits_def)
qed

lemma one_or_two_digits_pad [simp]: "one_or_two_digits (dec_pad 2 n @ s) = Some (n mod 100, s)"
  by (simp add: one_or_two_digits_def)

lemma skip_Cons [simp]: "skip c (c # s) = Some s"
  by (simp add: skip_def)

lemma dec_pad_0: "dec_pad w 0 = replicate w CHR ''0''"
proof -
  have "char_of (of_char CHR ''0'' :: nat) = CHR ''0''" by (rule char_of_char)
  then have "digit_char 0 = CHR ''0''" by (simp add: digit_char_def)
  then show ?thesis by (induction w) (simp_all add: replicate_append_same)
qed

lemma dec_pad_dec: "n < 10 ^ w \<Longrightarrow> 0 < w \<Longrightarrow> replicate (w - length (dec n)) CHR ''0'' @ dec n = dec_pad w n"
proof (induction w arbitrary: n)
  case (Suc w)
  show ?case
  proof (cases "n < 10")
    case True
    then show ?thesis using Suc.prems by (subst (1 2) dec.simps) (simp add: dec_pad_0)
  next
    case False
    then have "n div 10 < 10 ^ w" "0 < w" using Suc.prems by (auto simp: less_mult_imp_div_less) (cases w; simp)
    then show ?thesis using Suc.IH [of "n div 10"] False by (subst (1 2) dec.simps) simp
  qed
qed simp

lemma pad_year_4: "0 \<le> y \<Longrightarrow> y < 10000 \<Longrightarrow> pad_year y = dec_pad 4 (nat y)"
  using dec_pad_dec [of "nat y" 4] by (simp add: pad_year_def Let_def nat_less_iff)

lemma fraction_none: "(\<And>c t. s = c # t \<Longrightarrow> c \<noteq> CHR ''.'' \<and> c \<noteq> CHR '','') \<Longrightarrow> fraction s = (0, s)"
  by (auto simp: fraction_def split: list.split)

lemma zone_offset_format:
  assumes "off mod 60 = 0" "\<bar>off\<bar> < 25 * 3600"
  shows "zone_offset (format_offset off) = Some (off, [])"
    "fraction (format_offset off) = (0, format_offset off)"
proof -
  define zone where "zone = nat (\<bar>off\<bar> div 60)"
  have z: "int zone * 60 = \<bar>off\<bar>" unfolding zone_def using assms(1) by (auto simp: abs_if zmod_zminus1_eq_if split: if_splits)
  then have b: "zone div 60 \<le> 24" "zone div 60 < 100" using assms(2) by linarith+
  have sum: "int (zone div 60) * 60 + int (zone mod 60) = int zone" by presburger
  have big: "off \<noteq> 0 \<Longrightarrow> 60 \<le> \<bar>off\<bar>" using z by (cases zone) auto
  have "zone mod 60 mod 100 = zone mod 60" by simp
  then show "zone_offset (format_offset off) = Some (off, [])"
    using two_digits_pad [of "zone mod 60" "[]"] z b sum big
    by (auto simp: format_offset_def zone_offset_def zone_def [symmetric] Let_def require_def)
  show "fraction (format_offset off) = (0, format_offset off)"
    by (rule fraction_none) (auto simp: format_offset_def Let_def split: if_splits)
qed

lemma clock_decomposition:
  "wall t = civil_day t * 86400 + Hour t * 3600 + Minute t * 60 + Second t"
  "0 \<le> Minute t" "Minute t < 60" "0 \<le> Second t" "Second t < 60"
proof -
  define w where "w = wall t"
  have "w mod 86400 mod 3600 = w mod 3600" "w mod 3600 mod 60 = w mod 60" by (simp_all add: mod_mod_cancel)
  then show "wall t = civil_day t * 86400 + Hour t * 3600 + Minute t * 60 + Second t"
    using div_mult_mod_eq [of w 86400] div_mult_mod_eq [of "w mod 86400" 3600] div_mult_mod_eq [of "w mod 3600" 60]
    unfolding civil_day_def Hour_def Minute_def Second_def w_def [symmetric] by linarith
  show "0 \<le> Minute t" "Minute t < 60" "0 \<le> Second t" "Second t < 60"
    using pos_mod_bound [of 3600 w] pos_mod_sign [of 3600 w] unfolding Minute_def Second_def w_def [symmetric] by linarith+
qed

theorem Parse_Format:
  assumes "date_of_day (civil_day t) = (year, m, d)" "0 \<le> year" "year < 10000"
    "utcOffset t mod 60 = 0" "\<bar>utcOffset t\<bar> < 25 * 3600"
  shows "Parse_RFC3339 (Format_RFC3339 t) = Some (t\<lparr>nsec := 0\<rparr>)"
proof -
  note v = date_of_day_valid [OF assms(1)]
  note c = clock_decomposition [of t] Hour_range [of t]
  have "daysIn m year \<le> 31" by (simp add: daysIn_def)
  then have d: "d < 100" using v(4) by simp
  have day: "day_of_date (year, m, d) = civil_day t" using day_of_date_of_day assms(1) by metis
  note z = zone_offset_format [OF assms(4,5)]
  have unix: "unixSec t = civil_day t * 86400 + Hour t * 3600 + Minute t * 60 + Second t - utcOffset t"
    using c(1) unfolding wall_def by simp
  have req: "1 \<le> nat m \<and> nat m \<le> 12 \<and> nat (Hour t) < 24 \<and> nat (Minute t) < 60 \<and> nat (Second t) < 60 \<and> 1 \<le> nat d"
    using v(1-3) c(2-7) by (simp add: nat_less_iff nat_le_iff le_nat_iff)
  have m: "nat year mod 10000 = nat year" "nat m mod 100 = nat m" "nat d mod 100 = nat d" "nat (Hour t) mod 100 = nat (Hour t)"
      "nat (Minute t) mod 100 = nat (Minute t)" "nat (Second t) mod 100 = nat (Second t)"
    using assms(2,3) v(2) d c(2-7) by (simp_all add: nat_less_iff)
  have i: "int (nat year) = year" "int (nat m) = m" "int (nat d) = d" "int (nat (Hour t)) = Hour t"
      "int (nat (Minute t)) = Minute t" "int (nat (Second t)) = Second t"
    using assms(2) v(1,3) c(2-7) by simp_all
  have "Format_RFC3339 t = dec_pad 4 (nat year) @ ''-'' @ dec_pad 2 (nat m) @ ''-'' @ dec_pad 2 (nat d) @ ''T'' @
      dec_pad 2 (nat (Hour t)) @ '':'' @ dec_pad 2 (nat (Minute t)) @ '':'' @ dec_pad 2 (nat (Second t)) @ format_offset (utcOffset t)"
    by (simp add: Format_RFC3339_def assms(1) pad_year_4 assms(2,3))
  then have parse: "Parse_RFC3339 (Format_RFC3339 t) = do {
      require (1 \<le> nat m \<and> nat m \<le> 12 \<and> nat (Hour t) < 24 \<and> nat (Minute t) < 60 \<and> nat (Second t) < 60 \<and>
        1 \<le> nat d \<and> d \<le> daysIn m year);
      Some \<lparr>unixSec = civil_day t * 86400 + Hour t * 3600 + Minute t * 60 + Second t - utcOffset t,
        nsec = 0, utcOffset = utcOffset t\<rparr> }"
    by (simp only: Parse_RFC3339_def append.simps four_digits_pad two_digits_pad one_or_two_digits_pad skip_Cons
        Option.bind.bind_lunit prod.case m z i day Let_def simp_thms)
  show ?thesis unfolding parse using req v(4) by (simp only: require_def simp_thms if_True Option.bind.bind_lunit) (simp add: unix)
qed

end
