(* ===== verification/SafeRoutesHandler.thy ===== *)
theory SafeRoutesHandler
  imports SafeRoutesRepository SafeRoutesService Httpx ErrorSets GoNumbers TimeParse
begin

section \<open>The endpoint\<close>

text \<open>
  \<open>internal/saferoutes/handler.go\<close>. A request is what \<open>url.Values.Get\<close> answers for each
  parameter. The JSON encoder's verdict on a response is a parameter.
\<close>

definition parseSafeRoutesQuery :: "(string \<Rightarrow> string) \<Rightarrow> SafeRoutesQuery option" where
  "parseSafeRoutesQuery get =
     (case ParseFloat (get ''origin_lat'') of None \<Rightarrow> None | Some originLat \<Rightarrow>
      case ParseFloat (get ''origin_lng'') of None \<Rightarrow> None | Some originLng \<Rightarrow>
      case ParseFloat (get ''dest_lat'') of None \<Rightarrow> None | Some destLat \<Rightarrow>
      case ParseFloat (get ''dest_lng'') of None \<Rightarrow> None | Some destLng \<Rightarrow>
        let query = \<lparr>OriginLat = originLat, OriginLng = originLng, DestLat = destLat, DestLng = destLng, At = zero_time\<rparr> in
        if get ''datetime'' = [] then Some query
        else map_option (\<lambda>moment. query\<lparr>At := moment\<rparr>) (Parse_RFC3339 (get ''datetime'')))"

definition safe_routes_error_response :: "saferoutes_error goerr \<Rightarrow> 'p http_response" where
  "safe_routes_error_response err =
     (if errors_Is err ErrInvalidCoordinates then
        WriteInvalidRequest ''endpoints must be distinct and within CABA''
      else if errors_Is err ErrPointOutsideGraph then
        WriteError 400 ''origin_or_destination_outside_walkable_graph''
          ''origin or destination is too far from the walkable road network''
      else if errors_Is err ErrNoRoute then
        WriteError 404 ''route_not_found'' ''no walkable route between the points''
      else if errors_Is err ErrNoActiveModel then
        WriteError 503 ''risk_model_unavailable'' ''no active risk model is available''
      else WriteInternalError ''could not compute safe routes'')"

definition GetSafeRoutes :: "(SafeRoutesResponse \<Rightarrow> bool) \<Rightarrow>
    (SafeRoutesQuery \<Rightarrow> ('s, saferoutes_error, SafeRoutesResponse) prog) \<Rightarrow> (string \<Rightarrow> string) \<Rightarrow> 's \<Rightarrow> SafeRoutesResponse http_response \<times> 's" where
  "GetSafeRoutes encodable service get s =
     (case parseSafeRoutesQuery get of
        None \<Rightarrow> (WriteInvalidRequest
          ''origin_lat, origin_lng, dest_lat and dest_lng are required CABA coordinates; datetime, if present, must be RFC3339'', s)
      | Some query \<Rightarrow>
          (case service query s of
             (Inl err, s) \<Rightarrow> (safe_routes_error_response err, s)
           | (Inr response, s) \<Rightarrow>
               (WriteJSON encodable [Header ''X-Cache'' (if rr_FromCache response then ''hit'' else ''miss'')] 200 response, s)))"

subsection \<open>Where each error comes from\<close>

lemma raises_read_rows:
  assumes "\<And>r acc e t. step r acc = Inl e \<Longrightarrow> \<not> errors_Is e t"
  shows "raises (\<lambda>s. case q s of (res, s) \<Rightarrow> (read_rows m1 m2 step acc res, s)) {}"
  unfolding raises_def using read_rows_no_sentinel [of step _ m1 m2 acc] assms by (auto split: prod.splits)

lemma raises_pg_RouteProfiles: "raises (pg_RouteProfiles db) {}"
  unfolding pg_RouteProfiles_def [abs_def] by (rule raises_read_rows) auto

lemma decodeRoutePath_no_sentinel: "decodeRoutePath json g es = Inl e \<Longrightarrow> \<forall>t. \<not> errors_Is e t"
  by (auto simp: decodeRoutePath_def split: sum.splits if_splits)

lemma validateContext_no_sentinel: "validateContext b w = Some e \<Longrightarrow> \<forall>t. \<not> errors_Is e t"
  by (auto simp: validateContext_def split: if_splits)

lemma candidate_row_no_sentinel: "candidate_row json r acc = Inl e \<Longrightarrow> \<not> errors_Is e t"
  by (cases r) (auto simp: candidate_row_def split: option.splits sum.splits dest: decodeRoutePath_no_sentinel)

lemma raises_pg_FindCandidateRoutes: "raises (pg_FindCandidateRoutes db json cr) {}"
proof (cases "validateContext (cr_TimeBucket cr) (cr_WeekdayType cr) :: saferoutes_error goerr option")
  case None
  show ?thesis unfolding pg_FindCandidateRoutes_def [abs_def] None option.case
    by (rule raises_read_rows) (rule candidate_row_no_sentinel)
next
  case (Some e)
  then show ?thesis using validateContext_no_sentinel [OF Some]
    by (auto simp: raises_def pg_FindCandidateRoutes_def)
qed

lemma raises_pg_RouteRiskByBucket: "raises (pg_RouteRiskByBucket db es m w) {}"
  unfolding pg_RouteRiskByBucket_def [abs_def] by (rule raises_read_rows) auto

lemma Postgres_ops:
  "repo_ActiveModel (PostgresRepository db json) = pg_ActiveModel db" "repo_RouteProfiles (PostgresRepository db json) = pg_RouteProfiles db"
  "repo_SnapEndpoints (PostgresRepository db json) = pg_SnapEndpoints db" "repo_FindRoute (PostgresRepository db json) = pg_FindRoute db json"
  "repo_FindCandidateRoutes (PostgresRepository db json) = pg_FindCandidateRoutes db json"
  "repo_RouteRiskByBucket (PostgresRepository db json) = pg_RouteRiskByBucket db"
  by (simp_all add: PostgresRepository_def)

lemma raises_timeOfDayRisk: "raises (timeOfDayRisk (PostgresRepository db json) p m w) {}"
  unfolding timeOfDayRisk_def Postgres_ops by (intro raises_intros raises_pg_RouteRiskByBucket)

lemma raises_leastSafeCandidate: "raises (leastSafeCandidate (PostgresRepository db json) b f m) {}"
  unfolding leastSafeCandidate_def case_prod_beta Postgres_ops
  by (intro raises_intros raises_pg_FindCandidateRoutes raises_timeOfDayRisk)

lemma never_raised:
  "\<not> raised (pg_RouteProfiles db) s e" "\<not> raised (timeOfDayRisk (PostgresRepository db json) p m w) s e"
  "\<not> raised (leastSafeCandidate (PostgresRepository db json) b f m) s e"
  by (rule raises_not_raised [OF raises_pg_RouteProfiles] raises_not_raised [OF raises_timeOfDayRisk]
      raises_not_raised [OF raises_leastSafeCandidate], simp)+

lemma raised_pg_ActiveModel: "raised (pg_ActiveModel db) s e \<longleftrightarrow> e = ErrNoActiveModel \<and> fst (q_ActiveModel db s) = Inl ErrNoRows"
  by (auto simp: raised_def pg_ActiveModel_def split: prod.splits sum.splits pgx_error.splits)

lemma raised_pg_SnapEndpoints: "raised (pg_SnapEndpoints db q) s e \<longleftrightarrow> e = ErrPointOutsideGraph \<and>
    (\<exists>on od dn dd. fst (q_Snap db (OriginLng q) (OriginLat q) (DestLng q) (DestLat q) s) = Inr (on, od, dn, dd) \<and> (on = None \<or> dn = None))"
  by (auto simp: raised_def pg_SnapEndpoints_def split: prod.splits sum.splits option.splits)

lemma raised_pg_FindRoute:
  assumes "validateContext (rq_TimeBucket rq) (rq_WeekdayType rq) = (None :: saferoutes_error goerr option)"
  shows "raised (pg_FindRoute db json rq) s e \<longleftrightarrow> e = ErrNoRoute \<and>
    (\<exists>n g es. fst (q_Route db (route_cost rq) (rq_FromNodeID rq) (rq_ToNodeID rq) (rq_ModelVersionID rq) (rq_TimeBucket rq)
       (rq_WeekdayType rq) s) = Inr (n, g, es) \<and> (g = None \<or> n = 0))"
  using assms by (auto simp: raised_def pg_FindRoute_def split: prod.splits sum.splits option.splits dest: decodeRoutePath_no_sentinel)

end
