(* ===== verification/HandlerProperties.thy ===== *)
theory HandlerProperties
  imports SafeRoutesHandler SafeRoutesProperties
begin

section \<open>Correctness of the endpoint\<close>

text \<open>Which status a safe-routes request gets, and what may reach the text of an SQL statement.\<close>

subsection \<open>Status codes\<close>















definition example_get :: "string \<Rightarrow> string" where
  "example_get k = (if k = ''origin_lat'' then ''-34.5'' else if k = ''dest_lat'' then ''-34.625''
     else if k = ''origin_lng'' \<or> k = ''dest_lng'' then ''-58.5'' else if k = ''datetime'' then ''2026-06-27T17:00:00-03:00'' else [])"

text \<open>A database without an active model and without routes.\<close>

definition empty_db :: "unit routing_db" where
  "empty_db = \<lparr>q_ActiveModel = Pair (Inl ErrNoRows), q_RouteProfiles = Pair (all_rows []),
     q_Snap = (\<lambda>a b c d. Pair (Inr (None, None, None, None))), q_Route = (\<lambda>i a b m t w. Pair (Inr (0, None, ''[]''))),
     q_Ksp = (\<lambda>i a b k m t w. Pair (all_rows [])), q_RiskByBucket = (\<lambda>es m w. Pair (all_rows []))\<rparr>"

definition failing_codec :: path_codec where
  "failing_codec = \<lparr>unmarshal_geom = (\<lambda>s. Inl ''unexpected end of JSON input''), unmarshal_edges = (\<lambda>s. Inl ''unexpected end of JSON input'')\<rparr>"

lemma example_texts:
  "ParseFloat [] = None"
  "ParseFloat ''-34.5'' = Some (Fin (- 69 / 2))" "ParseFloat ''-34.625'' = Some (Fin (- 277 / 8))"
  "ParseFloat ''-58.5'' = Some (Fin (- 117 / 2))"
  "Parse_RFC3339 ''2026-06-27T17:00:00-03:00'' = Some \<lparr>unixSec = 1782590400, nsec = 0, utcOffset = - 10800\<rparr>"
  by code_simp+

lemma example_parse: "parseSafeRoutesQuery example_get = Some example_query"
  using example_texts by (simp add: parseSafeRoutesQuery_def example_get_def Let_def example_query_def example_time_def)

text \<open>What the theorem says of a database without a model, and of one in which no node is near.\<close>

lemma safe_routes_status_examples:
  "hr_Status (fst (GetSafeRoutes (\<lambda>r. True)
     (SafeRoutes (PostgresRepository empty_db failing_codec) NoopRouteCache (\<lambda>s. zero_time) (\<lambda>_. 0)) example_get ())) = 503"
  "hr_Status (fst (GetSafeRoutes (\<lambda>r. True)
     (SafeRoutes (PostgresRepository empty_db failing_codec) NoopRouteCache (\<lambda>s. zero_time) (\<lambda>_. 0)) (\<lambda>k. []) ())) = 400"
proof -
  show "hr_Status (fst (GetSafeRoutes (\<lambda>r. True)
     (SafeRoutes (PostgresRepository empty_db failing_codec) NoopRouteCache (\<lambda>s. zero_time) (\<lambda>_. 0)) example_get ())) = 503"
    using example_parse example_valid
    by (simp add: GetSafeRoutes_def SafeRoutes_def Let_def andThen_def Postgres_ops pg_ActiveModel_def empty_db_def fail_def
      safe_routes_error_response_def)
qed (simp add: GetSafeRoutes_def parseSafeRoutesQuery_def example_texts)

subsection \<open>What reaches the SQL text\<close>

text \<open>The statements the repository is meant to send: any cost statement has its two strings from
  the whitelist.\<close>

definition whitelisted :: "inner_cost \<Rightarrow> bool" where
  "whitelisted c = (case c of DistanceCostInner \<Rightarrow> True | RiskCostInner mult model bucket weekday \<Rightarrow>
     0 < mult \<and> validTimeBuckets bucket \<and> validWeekdayTypes weekday)"

text \<open>C15. The SQL text is built from whitelisted strings only: two databases that answer the
  whitelisted statements alike cannot be told apart through \<open>FindRoute\<close> and
  \<open>FindCandidateRoutes\<close>, whatever they would do with any other statement.\<close>

theorem sql_from_whitelist:
  assumes "\<forall>c. whitelisted c \<longrightarrow> q_Route db c = q_Route db' c \<and> q_Ksp db c = q_Ksp db' c"
  shows "pg_FindRoute db json rq s = pg_FindRoute db' json rq s \<and>
    pg_FindCandidateRoutes db json cr s = pg_FindCandidateRoutes db' json cr s"
proof
  have "q_Ksp db DistanceCostInner = q_Ksp db' DistanceCostInner" using assms by (simp add: whitelisted_def)
  then show "pg_FindCandidateRoutes db json cr s = pg_FindCandidateRoutes db' json cr s"
    by (simp add: pg_FindCandidateRoutes_def split: option.split)
  show "pg_FindRoute db json rq s = pg_FindRoute db' json rq s"
  proof (cases "validateContext (rq_TimeBucket rq) (rq_WeekdayType rq) :: saferoutes_error goerr option")
    case None
    then have "whitelisted (route_cost rq)"
      by (auto simp: whitelisted_def route_cost_def validateContext_def split: if_splits)
    then have "q_Route db (route_cost rq) = q_Route db' (route_cost rq)" using assms by blast
    then show ?thesis by (simp add: pg_FindRoute_def None)
  qed (simp add: pg_FindRoute_def)
qed

theorem sql_from_whitelist_witness:
  "pg_FindRoute empty_db failing_codec \<lparr>rq_FromNodeID = 1, rq_ToNodeID = 2, rq_ModelVersionID = 1,
      rq_TimeBucket = ''x'' @ [CHR 0x27], rq_WeekdayType = ''weekday'', rq_SafetyMultiplier = 1\<rparr> () =
   pg_FindRoute (empty_db\<lparr>q_Route := (\<lambda>c. if whitelisted c then q_Route empty_db c else (\<lambda>a b m t w s. (Inl (PgxError ''injected''), s)))\<rparr>)
     failing_codec \<lparr>rq_FromNodeID = 1, rq_ToNodeID = 2, rq_ModelVersionID = 1,
      rq_TimeBucket = ''x'' @ [CHR 0x27], rq_WeekdayType = ''weekday'', rq_SafetyMultiplier = 1\<rparr> ()"
  by (rule sql_from_whitelist [THEN conjunct1]) simp

end
