(* ===== verification/NetAddr.thy ===== *)
theory NetAddr
  imports GoText
begin

section \<open>Network addresses\<close>

text \<open>
  What the handlers use of \<open>net\<close> and \<open>net/netip\<close> to find the client: \<open>SplitHostPort\<close>,
  \<open>netip.ParseAddr\<close>, and \<open>net.ParseIP\<close> with \<open>IP.IsLoopback\<close>. An address is its bytes, an IPv6 one also its zone.
\<close>

datatype netip_addr = Addr4 "nat list" | Addr6 "nat list" string

definition index_of :: "char \<Rightarrow> string \<Rightarrow> nat option" where
  "index_of c s = find (\<lambda>i. s ! i = c) [0..<length s]"

definition last_index_of :: "char \<Rightarrow> string \<Rightarrow> nat option" where
  "last_index_of c s = find (\<lambda>i. s ! i = c) (rev [0..<length s])"

definition SplitHostPort :: "string \<Rightarrow> (string \<times> string) option" where
  "SplitHostPort s =
     (case last_index_of CHR '':'' s of
        None \<Rightarrow> None
      | Some i \<Rightarrow>
          if s ! 0 = CHR ''['' then
            (case index_of CHR '']'' s of
               None \<Rightarrow> None
             | Some e \<Rightarrow>
                 if e + 1 \<noteq> i then None
                 else if CHR ''['' \<in> set (drop 1 s) \<or> CHR '']'' \<in> set (drop (e + 1) s) then None
                 else Some (take (e - 1) (drop 1 s), drop (i + 1) s))
          else if CHR '':'' \<in> set (take i s) then None
          else if CHR ''['' \<in> set s \<or> CHR '']'' \<in> set s then None
          else Some (take i s, drop (i + 1) s))"

subsection \<open>Parsing\<close>

definition digit_value :: "char \<Rightarrow> nat option" where
  "digit_value c = (let n = of_char c :: nat in if 48 \<le> n \<and> n \<le> 57 then Some (n - 48) else None)"

definition hex_value :: "char \<Rightarrow> nat option" where
  "hex_value c = (let n = of_char c :: nat in
     if 48 \<le> n \<and> n \<le> 57 then Some (n - 48) else if 97 \<le> n \<and> n \<le> 102 then Some (n - 87)
     else if 65 \<le> n \<and> n \<le> 70 then Some (n - 55) else None)"

text \<open>\<open>parseIPv4Fields\<close>: the fields so far, the value and the number of digits of the current one. A dot is
  refused without a digit before it and at the end.\<close>

fun ipv4_fields :: "nat list \<Rightarrow> nat \<Rightarrow> nat \<Rightarrow> string \<Rightarrow> nat list option" where
  "ipv4_fields fields val digits [] = (if length fields < 3 then None else Some (fields @ [val]))"
| "ipv4_fields fields val digits (c # s) =
     (case digit_value c of
        Some d \<Rightarrow>
          if digits = 1 \<and> val = 0 then None
          else if 255 < val * 10 + d then None
          else ipv4_fields fields (val * 10 + d) (digits + 1) s
      | None \<Rightarrow>
          if c \<noteq> CHR ''.'' then None
          else if digits = 0 \<or> s = [] then None
          else if length fields = 3 then None
          else ipv4_fields (fields @ [val]) 0 0 s)"

definition parseIPv4 :: "string \<Rightarrow> nat list option" where
  "parseIPv4 s = ipv4_fields [] 0 0 s"

text \<open>The hexadecimal digits at the start: how many, their value; refused from the fifth on.\<close>

fun hex_group :: "nat \<Rightarrow> nat \<Rightarrow> string \<Rightarrow> (nat \<times> nat \<times> string) option" where
  "hex_group off acc [] = Some (off, acc, [])"
| "hex_group off acc (c # s) =
     (case hex_value c of
        None \<Rightarrow> Some (off, acc, c # s)
      | Some d \<Rightarrow> if 3 < off then None else hex_group (off + 1) (acc * 16 + d) s)"

text \<open>The loop of \<open>parseIPv6\<close>: \<open>n\<close> groups of two bytes may still come.\<close>

fun ipv6_groups :: "nat \<Rightarrow> nat list \<Rightarrow> nat option \<Rightarrow> string \<Rightarrow> (nat list \<times> nat option) option" where
  "ipv6_groups 0 ip ellipsis s = (if s = [] then Some (ip, ellipsis) else None)"
| "ipv6_groups (Suc n) ip ellipsis s =
     (case hex_group 0 0 s of
        None \<Rightarrow> None
      | Some (off, acc, rest) \<Rightarrow>
          if off = 0 then None
          else if rest \<noteq> [] \<and> hd rest = CHR ''.'' then
            (if ellipsis = None \<and> length ip \<noteq> 12 then None
             else if 16 < length ip + 4 then None
             else map_option (\<lambda>fields. (ip @ fields, ellipsis)) (ipv4_fields [] 0 0 s))
          else
            (let ip = ip @ [acc div 256, acc mod 256] in
             if rest = [] then Some (ip, ellipsis)
             else if hd rest \<noteq> CHR '':'' \<or> tl rest = [] then None
             else if hd (tl rest) = CHR '':'' then
               (if ellipsis \<noteq> None then None
                else if tl (tl rest) = [] then Some (ip, Some (length ip))
                else ipv6_groups n ip (Some (length ip)) (tl (tl rest)))
             else ipv6_groups n ip ellipsis (tl rest)))"

definition expand_ellipsis :: "nat list \<times> nat option \<Rightarrow> nat list option" where
  "expand_ellipsis = (\<lambda>(ip, ellipsis).
     if length ip < 16 then map_option (\<lambda>e. take e ip @ replicate (16 - length ip) 0 @ drop e ip) ellipsis
     else if ellipsis \<noteq> None then None else Some ip)"

definition parseIPv6 :: "string \<Rightarrow> netip_addr option" where
  "parseIPv6 text =
     (let (s, zone, ok) = (case index_of CHR ''%'' text of
          None \<Rightarrow> (text, [], True)
        | Some i \<Rightarrow> (take i text, drop (i + 1) text, drop (i + 1) text \<noteq> [])) in
      if \<not> ok then None
      else if take 2 s = ''::'' then
        (if drop 2 s = [] then Some (Addr6 (replicate 16 0) zone)
         else map_option (\<lambda>ip. Addr6 ip zone) (Option.bind (ipv6_groups 8 [] (Some 0) (drop 2 s)) expand_ellipsis))
      else map_option (\<lambda>ip. Addr6 ip zone) (Option.bind (ipv6_groups 8 [] None s) expand_ellipsis))"

definition ParseAddr :: "string \<Rightarrow> netip_addr option" where
  "ParseAddr s =
     (case find (\<lambda>c. c = CHR ''.'' \<or> c = CHR '':'' \<or> c = CHR ''%'') s of
        None \<Rightarrow> None
      | Some c \<Rightarrow> if c = CHR ''.'' then map_option Addr4 (parseIPv4 s)
          else if c = CHR '':'' then parseIPv6 s else None)"

text \<open>\<open>net.ParseIP\<close> refuses a zone. \<open>To4\<close> also reads a mapped address as its IPv4 address.\<close>

definition ParseIP :: "string \<Rightarrow> netip_addr option" where
  "ParseIP s = (case ParseAddr s of Some (Addr6 ip zone) \<Rightarrow> if zone = [] then Some (Addr6 ip zone) else None | r \<Rightarrow> r)"

fun IsLoopback :: "netip_addr \<Rightarrow> bool" where
  "IsLoopback (Addr4 ip) = (ip ! 0 = 127)"
| "IsLoopback (Addr6 ip zone) =
     (if take 12 ip = replicate 10 0 @ [255, 255] then ip ! 12 = 127 else ip = replicate 15 0 @ [1])"

subsection \<open>Facts\<close>

lemma ipv4_fields_bytes:
  assumes "ipv4_fields fields val digits s = Some ip" "\<forall>b\<in>set fields. b < 256" "val < 256" "length fields \<le> 3"
  shows "length ip = 4 \<and> (\<forall>b\<in>set ip. b < 256)"
  using assms by (induction fields val digits s rule: ipv4_fields.induct) (auto split: option.splits if_splits)

lemma parseIPv4_bytes: "parseIPv4 s = Some ip \<Longrightarrow> length ip = 4 \<and> (\<forall>b\<in>set ip. b < 256)"
  unfolding parseIPv4_def by (erule ipv4_fields_bytes) auto

lemma parse_examples:
  "ParseAddr ''192.0.2.7'' = Some (Addr4 [192, 0, 2, 7])" "ParseAddr ''192.0.2.07'' = None" "ParseAddr ''::1'' = Some (Addr6 (replicate 15 0 @ [1]) [])"
  "SplitHostPort ''[::1]:8080'' = Some (''::1'', ''8080'')" "SplitHostPort ''::1:8080'' = None"
  by code_simp+

end
