(* ===== verification/AuthModel.thy ===== *)
theory AuthModel
  imports NetAddr GoTime
begin

section \<open>Data of the auth package\<close>

text \<open>
  \<open>internal/auth/model.go\<close>, \<open>dto.go\<close> and the sentinel errors of \<open>errors.go\<close>; then the two
  Go interfaces the service is built on: \<open>Repository\<close> (\<open>repository.go\<close>) and what it takes from
  its surroundings, a clock and a source of random bytes. A UUID is its 128 bits.
\<close>

type_synonym uuid = "128 word"

datatype auth_error =
  ErrEmailRequired | ErrPasswordTooShort | ErrEmailTaken | ErrInvalidCredentials | ErrInactiveUser
| ErrInvalidToken | ErrInvalidRefresh | ErrUserNotFound | ErrSessionNotFound

record User =
  us_ID :: uuid
  us_Email :: string
  us_IsActive :: bool
  us_CreatedAt :: go_time
  us_UpdatedAt :: go_time

record Credentials =
  cd_User :: User
  cd_PasswordHash :: string

record RefreshSession =
  ss_ID :: uuid
  ss_UserID :: uuid
  ss_ExpiresAt :: go_time
  ss_RevokedAt :: "go_time option"

definition IsRevoked :: "RefreshSession \<Rightarrow> bool" where
  "IsRevoked s \<longleftrightarrow> ss_RevokedAt s \<noteq> None"

record SessionParams =
  sp_UserID :: uuid
  sp_TokenHash :: string
  sp_UserAgent :: "string option"
  sp_IP :: "netip_addr option"
  sp_ExpiresAt :: go_time

record LoginAttempt =
  la_Email :: string
  la_IP :: "netip_addr option"
  la_Success :: bool
  la_Reason :: string

record AuditEntry =
  ae_UserID :: "uuid option"
  ae_Action :: string
  ae_Metadata :: "string option"
  ae_IP :: "netip_addr option"
  ae_UserAgent :: "string option"

record RequestMeta =
  meta_IP :: "netip_addr option"
  meta_UserAgent :: "string option"

definition ActionRegister :: string where "ActionRegister = ''register''"
definition ActionLogin :: string where "ActionLogin = ''login''"
definition ActionRefresh :: string where "ActionRefresh = ''refresh''"
definition ActionLogout :: string where "ActionLogout = ''logout''"

record RegisterRequest =
  rg_Email :: string
  rg_Password :: string

record RegisterResponse =
  rgr_ID :: uuid
  rgr_Email :: string

record LoginRequest =
  lg_Email :: string
  lg_Password :: string

record LoginResponse =
  lr_AccessToken :: string
  lr_TokenType :: string
  lr_ExpiresIn :: int

record MeResponse =
  me_ID :: uuid
  me_Email :: string

record authResult =
  ar_Response :: LoginResponse
  ar_RefreshToken :: string

subsection \<open>The repository interface\<close>

record 's AuthRepository =
  ar_CreateUser :: "string \<Rightarrow> string \<Rightarrow> ('s, auth_error, User) prog"
  ar_CredentialsByEmail :: "string \<Rightarrow> ('s, auth_error, Credentials) prog"
  ar_UserByID :: "uuid \<Rightarrow> ('s, auth_error, User) prog"
  ar_CreateSession :: "SessionParams \<Rightarrow> ('s, auth_error, uuid) prog"
  ar_SessionByHash :: "string \<Rightarrow> ('s, auth_error, RefreshSession) prog"
  ar_RevokeSession :: "uuid \<Rightarrow> ('s, auth_error, unit) prog"
  ar_RotateSession :: "uuid \<Rightarrow> SessionParams \<Rightarrow> ('s, auth_error, uuid) prog"
  ar_RecordLoginAttempt :: "LoginAttempt \<Rightarrow> ('s, auth_error, unit) prog"
  ar_WriteAudit :: "AuditEntry \<Rightarrow> ('s, auth_error, unit) prog"

text \<open>\<open>time.Now\<close>, \<open>rand.Read\<close> and the random parts of \<open>uuid.NewString\<close> and of bcrypt's salt.\<close>

record 's surroundings =
  sr_now :: "'s \<Rightarrow> go_time"
  sr_random :: "nat \<Rightarrow> 's \<Rightarrow> (string + 8 word list) \<times> 's"
  sr_newUUID :: "'s \<Rightarrow> string \<times> 's"

end
