(* ===== verification/AuthTokens.thy ===== *)
theory AuthTokens
  imports AuthModel Float64
begin

section \<open>Tokens\<close>

text \<open>
  \<open>internal/auth/token.go\<close>. The JWT library, the UUID text format, SHA-256 and bcrypt are
  parameters, collected in \<open>crypto\<close>. \<open>jwt_parse\<close> is given the key function of the caller, as
  in \<open>jwt.ParseWithClaims\<close>: the method of the token's header goes in, a key or an error comes
  out.
\<close>

datatype signing_method = SigningMethodHMAC string | OtherMethod string

record accessClaims =
  cl_Subject :: string
  cl_IssuedAt :: int
  cl_ExpiresAt :: int
  cl_ID :: string
  cl_Typ :: string

record crypto =
  sha256 :: "8 word list \<Rightarrow> 8 word list"
  bcrypt_generate :: "8 word list \<Rightarrow> string \<Rightarrow> int \<Rightarrow> string + string"
  bcrypt_compare :: "string \<Rightarrow> string \<Rightarrow> bool"
  jwt_sign :: "accessClaims \<Rightarrow> string \<Rightarrow> string + string"
  jwt_parse :: "go_time \<Rightarrow> (signing_method \<Rightarrow> string + string) \<Rightarrow> string \<Rightarrow> string + accessClaims \<times> bool"
  uuid_String :: "uuid \<Rightarrow> string"
  uuid_Parse :: "string \<Rightarrow> string + uuid"

definition accessTokenType :: string where "accessTokenType = ''access''"

record TokenManager =
  tm_secret :: string
  tm_accessTTL :: int

text \<open>\<open>int(d.Seconds())\<close>: a duration is nanoseconds, \<open>Seconds\<close> is a \<open>float64\<close>, \<open>int\<close> truncates.\<close>

definition duration_Seconds :: "int \<Rightarrow> f64" where
  "duration_Seconds d =
     (let q = \<bar>d\<bar> div 1000000000; r = \<bar>d\<bar> mod 1000000000; s = (if d < 0 then -1 else 1)
      in f64_of_rat (of_int (s * q)) + f64_of_rat (of_int (s * r)) / f64_of_rat 1000000000)"

definition int_of_f64 :: "f64 \<Rightarrow> int" where
  "int_of_f64 x = (case x of Fin q \<Rightarrow> if q < 0 then \<lceil>q\<rceil> else \<lfloor>q\<rfloor> | _ \<Rightarrow> - (2 ^ 63))"

lemma duration_whole_seconds:
  assumes "0 \<le> d" "d < 2 ^ 63" "d mod 1000000000 = 0"
  shows "int_of_f64 (duration_Seconds d) = d div 1000000000"
proof -
  have "\<bar>d div 1000000000\<bar> \<le> 2 ^ 53" using assms by simp
  note whole = f64_of_rat_int [OF this]
  moreover have "f64_of_rat 1000000000 = Fin 1000000000" using f64_of_rat_int [of 1000000000] by simp
  moreover have "0 \<le> d div 1000000000" using assms(1) by simp
  ultimately show ?thesis
    using assms by (simp add: duration_Seconds_def int_of_f64_def Let_def zero_f64_def pos_imp_zdiv_neg_iff)
qed

definition MintAccessToken :: "crypto \<Rightarrow> 's surroundings \<Rightarrow> TokenManager \<Rightarrow> uuid \<Rightarrow> go_time \<Rightarrow> ('s, auth_error, string \<times> int) prog" where
  "MintAccessToken cr sur m userID now s =
     (case sr_newUUID sur s of (jti, s) \<Rightarrow>
        let claims = \<lparr>cl_Subject = uuid_String cr userID, cl_IssuedAt = unixSec now,
              cl_ExpiresAt = unixSec (time_Add now (tm_accessTTL m)), cl_ID = jti, cl_Typ = accessTokenType\<rparr>
        in case jwt_sign cr claims (tm_secret m) of
            Inl e \<Rightarrow> fail (Wrap ''auth: sign access token'' (Opaque e)) s
          | Inr token \<Rightarrow> ret (token, int_of_f64 (duration_Seconds (tm_accessTTL m))) s)"

definition access_key :: "TokenManager \<Rightarrow> signing_method \<Rightarrow> string + string" where
  "access_key m method = (case method of
     SigningMethodHMAC alg \<Rightarrow> Inr (tm_secret m)
   | OtherMethod alg \<Rightarrow> Inl (''auth: unexpected signing method '' @ alg))"

definition VerifyAccessToken :: "crypto \<Rightarrow> TokenManager \<Rightarrow> go_time \<Rightarrow> string \<Rightarrow> auth_error goerr + uuid" where
  "VerifyAccessToken cr m now token =
     (case jwt_parse cr now (access_key m) token of
        Inl e \<Rightarrow> Inl (Sentinel ErrInvalidToken)
      | Inr (claims, valid) \<Rightarrow>
          if \<not> valid then Inl (Sentinel ErrInvalidToken)
          else if cl_Typ claims \<noteq> accessTokenType then Inl (Sentinel ErrInvalidToken)
          else case uuid_Parse cr (cl_Subject claims) of
              Inl e \<Rightarrow> Inl (Sentinel ErrInvalidToken)
            | Inr userID \<Rightarrow> Inr userID)"

definition generateRefreshToken :: "'s surroundings \<Rightarrow> ('s, auth_error, string) prog" where
  "generateRefreshToken sur s =
     (case sr_random sur 32 s of
        (Inl e, s) \<Rightarrow> fail (Wrap ''auth: generate refresh token'' (Opaque e)) s
      | (Inr b, s) \<Rightarrow> ret (RawURLEncoding b) s)"

definition bytes_of :: "string \<Rightarrow> 8 word list" where
  "bytes_of s = map (\<lambda>c. of_nat (of_char c)) s"

definition hashToken :: "crypto \<Rightarrow> string \<Rightarrow> string" where
  "hashToken cr token = hex_EncodeToString (sha256 cr (bytes_of token))"

lemma bytes_of_inj: "bytes_of s = bytes_of t \<longleftrightarrow> s = t"
proof (induction s arbitrary: t)
  case (Cons c s)
  have "(of_nat (of_char c) :: 8 word) = of_nat (of_char d) \<longleftrightarrow> c = d" for d
    using of_char_eq_iff by (simp add: word_of_nat_eq_iff take_bit_nat_eq_self)
  then show ?case using Cons by (cases t) (simp_all add: bytes_of_def)
qed (auto simp: bytes_of_def)

end
