(* ===== verification/AuthService.thy ===== *)
theory AuthService
  imports AuthTokens
begin

section \<open>The auth service\<close>

text \<open>
  \<open>internal/auth/service.go\<close> over the repository interface. A service value is its repository,
  the surroundings, the cryptographic functions, the token manager and the lifetime of a
  refresh token. Recording an attempt and writing the audit log are best effort: \<open>ignore\<close>
  runs a call and drops its error.
\<close>

record 's auth_service =
  sv_repo :: "'s AuthRepository"
  sv_sur :: "'s surroundings"
  sv_crypto :: crypto
  sv_tokens :: TokenManager
  sv_refreshTTL :: int
  sv_unicodeLower :: "string \<Rightarrow> string"

definition bcryptCost :: int where "bcryptCost = 12"
definition passwordMinLen :: nat where "passwordMinLen = 8"

definition ignore :: "('s, 'e, unit) prog \<Rightarrow> ('s, 'e, unit) prog" where
  "ignore p s = (Inr (), snd (p s))"

definition normalizeEmail :: "(string \<Rightarrow> string) \<Rightarrow> string \<Rightarrow> string" where
  "normalizeEmail lower email = ToLower lower (TrimSpace email)"

definition recordAttempt :: "'s auth_service \<Rightarrow> string \<Rightarrow> RequestMeta \<Rightarrow> bool \<Rightarrow> string \<Rightarrow> ('s, auth_error, unit) prog" where
  "recordAttempt sv email meta success reason =
     ignore (ar_RecordLoginAttempt (sv_repo sv)
       \<lparr>la_Email = email, la_IP = meta_IP meta, la_Success = success, la_Reason = reason\<rparr>)"

definition audit :: "'s auth_service \<Rightarrow> uuid \<Rightarrow> string \<Rightarrow> RequestMeta \<Rightarrow> ('s, auth_error, unit) prog" where
  "audit sv userID action meta =
     ignore (ar_WriteAudit (sv_repo sv)
       \<lparr>ae_UserID = Some userID, ae_Action = action, ae_Metadata = None, ae_IP = meta_IP meta, ae_UserAgent = meta_UserAgent meta\<rparr>)"

definition sessionParams :: "'s auth_service \<Rightarrow> uuid \<Rightarrow> string \<Rightarrow> RequestMeta \<Rightarrow> go_time \<Rightarrow> SessionParams" where
  "sessionParams sv userID rawToken meta now =
     \<lparr>sp_UserID = userID, sp_TokenHash = hashToken (sv_crypto sv) rawToken, sp_UserAgent = meta_UserAgent meta,
      sp_IP = meta_IP meta, sp_ExpiresAt = time_Add now (sv_refreshTTL sv)\<rparr>"

definition buildResult :: "'s auth_service \<Rightarrow> uuid \<Rightarrow> string \<Rightarrow> go_time \<Rightarrow> ('s, auth_error, authResult) prog" where
  "buildResult sv userID rawToken now =
     andThen (MintAccessToken (sv_crypto sv) (sv_sur sv) (sv_tokens sv) userID now) (\<lambda>(access, expiresIn).
       ret \<lparr>ar_Response = \<lparr>lr_AccessToken = access, lr_TokenType = ''bearer'', lr_ExpiresIn = expiresIn\<rparr>,
            ar_RefreshToken = rawToken\<rparr>)"

text \<open>bcrypt draws its salt from the random source.\<close>

definition generatePassword :: "'s auth_service \<Rightarrow> string \<Rightarrow> ('s, auth_error, string) prog" where
  "generatePassword sv password s =
     (case sr_random (sv_sur sv) 16 s of
        (Inl e, s) \<Rightarrow> fail (Wrap ''auth: hash password'' (Opaque e)) s
      | (Inr salt, s) \<Rightarrow>
          (case bcrypt_generate (sv_crypto sv) salt password bcryptCost of
             Inl e \<Rightarrow> fail (Wrap ''auth: hash password'' (Opaque e)) s
           | Inr hash \<Rightarrow> ret hash s))"

definition Register :: "'s auth_service \<Rightarrow> RegisterRequest \<Rightarrow> RequestMeta \<Rightarrow> ('s, auth_error, RegisterResponse) prog" where
  "Register sv req meta =
     (let email = normalizeEmail (sv_unicodeLower sv) (rg_Email req) in
      if email = [] \<or> rg_Password req = [] then fail (Sentinel ErrEmailRequired)
      else if length (rg_Password req) < passwordMinLen then fail (Sentinel ErrPasswordTooShort)
      else andThen (generatePassword sv (rg_Password req)) (\<lambda>hash.
           andThen (ar_CreateUser (sv_repo sv) email hash) (\<lambda>user.
           andThen (audit sv (us_ID user) ActionRegister meta) (\<lambda>_.
             ret \<lparr>rgr_ID = us_ID user, rgr_Email = us_Email user\<rparr>))))"

definition catch :: "'e \<Rightarrow> ('s, 'e, 'x) prog \<Rightarrow> ('s, 'e, 'y) prog \<Rightarrow> ('x \<Rightarrow> ('s, 'e, 'y) prog) \<Rightarrow> ('s, 'e, 'y) prog" where
  "catch sentinel p handler k s =
     (case p s of
        (Inl e, s) \<Rightarrow> if errors_Is e sentinel then handler s else (Inl e, s)
      | (Inr x, s) \<Rightarrow> k x s)"

lemma catch_Inr:
  "catch t p h k s = (Inr y, s') \<longleftrightarrow>
    (\<exists>e u. p s = (Inl e, u) \<and> errors_Is e t \<and> h u = (Inr y, s')) \<or> (\<exists>x u. p s = (Inr x, u) \<and> k x u = (Inr y, s'))"
  by (auto simp: catch_def split: prod.splits sum.splits)

definition Login :: "'s auth_service \<Rightarrow> LoginRequest \<Rightarrow> RequestMeta \<Rightarrow> ('s, auth_error, authResult) prog" where
  "Login sv req meta =
     (let email = normalizeEmail (sv_unicodeLower sv) (lg_Email req) in
      if email = [] \<or> lg_Password req = [] then fail (Sentinel ErrEmailRequired)
      else catch ErrUserNotFound (ar_CredentialsByEmail (sv_repo sv) email)
        (andThen (recordAttempt sv email meta False ''unknown_email'') (\<lambda>_. fail (Sentinel ErrInvalidCredentials)))
        (\<lambda>creds.
          if \<not> bcrypt_compare (sv_crypto sv) (cd_PasswordHash creds) (lg_Password req)
          then andThen (recordAttempt sv email meta False ''bad_password'') (\<lambda>_. fail (Sentinel ErrInvalidCredentials))
          else if \<not> us_IsActive (cd_User creds)
          then andThen (recordAttempt sv email meta False ''inactive'') (\<lambda>_. fail (Sentinel ErrInactiveUser))
          else (\<lambda>s. let now = sr_now (sv_sur sv) s in
            andThen (generateRefreshToken (sv_sur sv)) (\<lambda>raw.
            andThen (ar_CreateSession (sv_repo sv) (sessionParams sv (us_ID (cd_User creds)) raw meta now)) (\<lambda>_.
            andThen (recordAttempt sv email meta True []) (\<lambda>_.
            andThen (audit sv (us_ID (cd_User creds)) ActionLogin meta) (\<lambda>_.
              buildResult sv (us_ID (cd_User creds)) raw now)))) s)))"

definition Refresh :: "'s auth_service \<Rightarrow> string \<Rightarrow> RequestMeta \<Rightarrow> ('s, auth_error, authResult) prog" where
  "Refresh sv rawToken meta s =
     (if rawToken = [] then fail (Sentinel ErrInvalidRefresh) s
      else let now = sr_now (sv_sur sv) s in
        catch ErrSessionNotFound (ar_SessionByHash (sv_repo sv) (hashToken (sv_crypto sv) rawToken))
          (fail (Sentinel ErrInvalidRefresh))
          (\<lambda>session.
            if IsRevoked session \<or> \<not> After (ss_ExpiresAt session) now then fail (Sentinel ErrInvalidRefresh)
            else andThen (generateRefreshToken (sv_sur sv)) (\<lambda>newRaw.
              andThen (ar_RotateSession (sv_repo sv) (ss_ID session) (sessionParams sv (ss_UserID session) newRaw meta now)) (\<lambda>_.
              andThen (audit sv (ss_UserID session) ActionRefresh meta) (\<lambda>_.
                buildResult sv (ss_UserID session) newRaw now)))) s)"

text \<open>The same in two parts: up to the last check on the session that was read, and from the new token
  on. Requests of other processes may be served in between.\<close>

definition refresh_read :: "'s auth_service \<Rightarrow> string \<Rightarrow> ('s, auth_error, go_time \<times> RefreshSession) prog" where
  "refresh_read sv rawToken s =
     (if rawToken = [] then fail (Sentinel ErrInvalidRefresh) s
      else let now = sr_now (sv_sur sv) s in
        catch ErrSessionNotFound (ar_SessionByHash (sv_repo sv) (hashToken (sv_crypto sv) rawToken))
          (fail (Sentinel ErrInvalidRefresh))
          (\<lambda>session. if IsRevoked session \<or> \<not> After (ss_ExpiresAt session) now then fail (Sentinel ErrInvalidRefresh)
            else ret (now, session)) s)"

definition refresh_write :: "'s auth_service \<Rightarrow> RequestMeta \<Rightarrow> go_time \<times> RefreshSession \<Rightarrow> ('s, auth_error, authResult) prog" where
  "refresh_write sv meta = (\<lambda>(now, session).
     andThen (generateRefreshToken (sv_sur sv)) (\<lambda>newRaw.
     andThen (ar_RotateSession (sv_repo sv) (ss_ID session) (sessionParams sv (ss_UserID session) newRaw meta now)) (\<lambda>_.
     andThen (audit sv (ss_UserID session) ActionRefresh meta) (\<lambda>_.
       buildResult sv (ss_UserID session) newRaw now))))"

lemma andThen_catch: "andThen (catch t p h k) g = catch t p (andThen h g) (\<lambda>x. andThen (k x) g)"
  by (rule ext) (simp add: andThen_def catch_def split: prod.split sum.split)

lemma Refresh_split: "Refresh sv rawToken meta = andThen (refresh_read sv rawToken) (refresh_write sv meta)"
proof
  fix s
  let ?now = "sr_now (sv_sur sv) s"
  let ?k = "\<lambda>session. if IsRevoked session \<or> \<not> After (ss_ExpiresAt session) ?now then fail (Sentinel ErrInvalidRefresh)
      else ret (?now, session)"
  have "andThen (refresh_read sv rawToken) (refresh_write sv meta) s =
      andThen (if rawToken = [] then fail (Sentinel ErrInvalidRefresh)
        else catch ErrSessionNotFound (ar_SessionByHash (sv_repo sv) (hashToken (sv_crypto sv) rawToken))
          (fail (Sentinel ErrInvalidRefresh)) ?k) (refresh_write sv meta) s"
    by (simp add: andThen_def refresh_read_def Let_def)
  moreover have "andThen (?k session) (refresh_write sv meta) =
      (if IsRevoked session \<or> \<not> After (ss_ExpiresAt session) ?now then fail (Sentinel ErrInvalidRefresh)
       else refresh_write sv meta (?now, session))" for session
    by simp
  ultimately show "Refresh sv rawToken meta s = andThen (refresh_read sv rawToken) (refresh_write sv meta) s"
    by (simp add: andThen_catch Refresh_def refresh_write_def Let_def cong: if_cong)
qed

definition Logout :: "'s auth_service \<Rightarrow> string \<Rightarrow> RequestMeta \<Rightarrow> ('s, auth_error, unit) prog" where
  "Logout sv rawToken meta =
     (if rawToken = [] then ret ()
      else catch ErrSessionNotFound (ar_SessionByHash (sv_repo sv) (hashToken (sv_crypto sv) rawToken))
        (ret ())
        (\<lambda>session.
          andThen (ar_RevokeSession (sv_repo sv) (ss_ID session)) (\<lambda>_.
            audit sv (ss_UserID session) ActionLogout meta)))"

definition Authenticate :: "'s auth_service \<Rightarrow> string \<Rightarrow> ('s, auth_error, User) prog" where
  "Authenticate sv accessToken s =
     (case VerifyAccessToken (sv_crypto sv) (sv_tokens sv) (sr_now (sv_sur sv) s) accessToken of
        Inl e \<Rightarrow> fail (Sentinel ErrInvalidToken) s
      | Inr userID \<Rightarrow>
          catch ErrUserNotFound (ar_UserByID (sv_repo sv) userID)
            (fail (Sentinel ErrInvalidToken))
            (\<lambda>user. if \<not> us_IsActive user then fail (Sentinel ErrInvalidToken) else ret user) s)"

end
