(* ===== verification/AuthEffects.thy ===== *)
theory AuthEffects
  imports AuthService
begin

section \<open>Effects of the service from effects of its repository\<close>

text \<open>
  What every repository call and every draw of randomness does to the world, the service
  operations do: a reflexive and transitive relation between the world before and after, such
  as keeping an invariant or letting a table grow.
\<close>

locale service_effects =
  fixes sv :: "'s auth_service" and R :: "'s \<Rightarrow> 's \<Rightarrow> bool"
  assumes effect_refl: "R s s"
    and effect_trans: "R s t \<Longrightarrow> R t u \<Longrightarrow> R s u"
    and repo_effects: "R s (snd (ar_CreateUser (sv_repo sv) email hash s))" "R s (snd (ar_CredentialsByEmail (sv_repo sv) email s))"
      "R s (snd (ar_UserByID (sv_repo sv) i s))" "R s (snd (ar_CreateSession (sv_repo sv) p s))"
      "R s (snd (ar_SessionByHash (sv_repo sv) h s))" "R s (snd (ar_RevokeSession (sv_repo sv) i s))"
      "R s (snd (ar_RotateSession (sv_repo sv) i p s))" "R s (snd (ar_RecordLoginAttempt (sv_repo sv) a s))"
      "R s (snd (ar_WriteAudit (sv_repo sv) e s))"
    and random_effects: "R s (snd (sr_random (sv_sur sv) n s))" "R s (snd (sr_newUUID (sv_sur sv) s))"
begin

definition moves :: "('s, 'e, 'x) prog \<Rightarrow> bool" where
  "moves p \<longleftrightarrow> (\<forall>s. R s (snd (p s)))"

lemma moves_repo:
  "moves (ar_CreateUser (sv_repo sv) email hash)" "moves (ar_CredentialsByEmail (sv_repo sv) email)"
  "moves (ar_UserByID (sv_repo sv) i)" "moves (ar_CreateSession (sv_repo sv) p)" "moves (ar_SessionByHash (sv_repo sv) h)"
  "moves (ar_RevokeSession (sv_repo sv) i)" "moves (ar_RotateSession (sv_repo sv) i p)"
  "moves (ar_RecordLoginAttempt (sv_repo sv) a)" "moves (ar_WriteAudit (sv_repo sv) e)"
  by (simp_all add: moves_def repo_effects)

lemma moves_base: "moves (ret x)" "moves (fail e)"
  by (simp_all add: moves_def ret_def fail_def effect_refl)

lemma moves_andThen: "moves p \<Longrightarrow> (\<And>x. moves (k x)) \<Longrightarrow> moves (andThen p k)"
  unfolding moves_def andThen_def by (auto split: prod.split sum.split intro: effect_trans) (metis effect_trans snd_conv)+

lemma moves_catch: "moves p \<Longrightarrow> moves h \<Longrightarrow> (\<And>x. moves (k x)) \<Longrightarrow> moves (catch t p h k)"
  unfolding moves_def catch_def by (auto split: prod.split sum.split) (metis effect_trans snd_conv)+

lemma moves_if: "moves p \<Longrightarrow> moves q \<Longrightarrow> moves (if b then p else q)"
  by simp

lemma moves_sum: "(\<And>e. moves (p e)) \<Longrightarrow> (\<And>x. moves (q x)) \<Longrightarrow> moves (case y of Inl e \<Rightarrow> p e | Inr x \<Rightarrow> q x)"
  by (cases y) simp_all

lemma moves_let: "(\<And>x. moves (f x)) \<Longrightarrow> moves (let x = a in f x)"
  by simp

lemma moves_now: "(\<And>now. moves (f now)) \<Longrightarrow> moves (\<lambda>s. let now = sr_now (sv_sur sv) s in f now s)"
  by (simp add: moves_def)

lemma moves_ignore: "moves p \<Longrightarrow> moves (ignore p)"
  by (simp add: moves_def ignore_def)

lemma moves_logs: "moves (recordAttempt sv email meta ok reason)" "moves (audit sv i action meta)"
  unfolding recordAttempt_def audit_def by (intro moves_ignore moves_repo)+

lemma moves_draws: "moves (generateRefreshToken (sv_sur sv))" "moves (generatePassword sv pw)"
  "moves (MintAccessToken (sv_crypto sv) (sv_sur sv) (sv_tokens sv) i now)"
proof -
  have "R s (snd (sr_random (sv_sur sv) n s))" "R s (snd (sr_newUUID (sv_sur sv) s))" for n s
    by (rule random_effects)+
  then have "sr_random (sv_sur sv) n s = (x, s') \<Longrightarrow> R s s'" "sr_newUUID (sv_sur sv) s = (y, s') \<Longrightarrow> R s s'" for n s x y s'
    by (metis snd_conv)+
  then show "moves (generateRefreshToken (sv_sur sv))" "moves (generatePassword sv pw)"
    "moves (MintAccessToken (sv_crypto sv) (sv_sur sv) (sv_tokens sv) i now)"
    by (auto simp: moves_def generateRefreshToken_def generatePassword_def MintAccessToken_def Let_def prog_run
      split: prod.split sum.split)
qed

lemma moves_buildResult: "moves (buildResult sv i raw now)"
  unfolding buildResult_def case_prod_beta by (intro moves_andThen moves_draws moves_base)

lemmas moves_intros = moves_base moves_andThen moves_catch moves_if moves_sum moves_let moves_now moves_logs moves_buildResult
  moves_draws moves_repo

lemma moves_refresh_read: "moves (refresh_read sv raw)"
proof -
  have "refresh_read sv raw = (if raw = [] then fail (Sentinel ErrInvalidRefresh) else (\<lambda>s. let now = sr_now (sv_sur sv) s in
     catch ErrSessionNotFound (ar_SessionByHash (sv_repo sv) (hashToken (sv_crypto sv) raw))
       (fail (Sentinel ErrInvalidRefresh))
       (\<lambda>session. if IsRevoked session \<or> \<not> After (ss_ExpiresAt session) now then fail (Sentinel ErrInvalidRefresh)
         else ret (now, session)) s))"
    by (rule ext) (simp add: refresh_read_def)
  then show ?thesis by (simp only:) (intro moves_intros)
qed

lemma moves_refresh_write: "moves (refresh_write sv meta x)"
  unfolding refresh_write_def case_prod_beta by (intro moves_intros)

lemma Authenticate_eq: "Authenticate sv token = (\<lambda>s. let now = sr_now (sv_sur sv) s in
   (case VerifyAccessToken (sv_crypto sv) (sv_tokens sv) now token of
      Inl e \<Rightarrow> fail (Sentinel ErrInvalidToken)
    | Inr userID \<Rightarrow> catch ErrUserNotFound (ar_UserByID (sv_repo sv) userID) (fail (Sentinel ErrInvalidToken))
          (\<lambda>user. if \<not> us_IsActive user then fail (Sentinel ErrInvalidToken) else ret user)) s)"
  by (rule ext) (simp add: Authenticate_def split: sum.split)

lemma service_moves:
  "moves (Register sv rg meta)" "moves (Login sv lg meta)" "moves (Refresh sv raw meta)" "moves (Logout sv raw meta)"
  "moves (Authenticate sv token)"
  unfolding Register_def Login_def Refresh_split Logout_def Authenticate_eq
  by (intro moves_intros moves_refresh_read moves_refresh_write)+

lemmas service_effects = service_moves [unfolded moves_def, rule_format]

end

end
