(* ===== verification/AuthDb.thy ===== *)
theory AuthDb
  imports AuthModel
begin

section \<open>The auth tables and their repository\<close>

text \<open>
  The rows of \<open>internal/auth/db/models.go\<close>, the statements of \<open>db/auth.sql.go\<close> on the tables of
  \<open>migrations/000011_create_auth_tables.up.sql\<close> with their primary keys, unique and foreign
  keys and defaults, and \<open>PostgresRepository\<close> of \<open>repository.go\<close> over them. The world also
  holds the two clocks (the server's \<open>now()\<close>, the process's \<open>time.Now()\<close>), the supplies of
  random UUIDs and bytes, and a script of faults: the next statement may be lost before it
  runs, or its acknowledgement may be lost after it ran.
\<close>

record user_row =
  u_id :: uuid
  u_email :: string
  u_password_hash :: string
  u_is_active :: bool
  u_created_at :: go_time
  u_updated_at :: go_time

record session_row =
  r_id :: uuid
  r_user_id :: uuid
  r_token_hash :: string
  r_user_agent :: "string option"
  r_ip_address :: "netip_addr option"
  r_created_at :: go_time
  r_expires_at :: go_time
  r_revoked_at :: "go_time option"
  r_replaced_by :: "uuid option"

record attempt_row =
  a_id :: uuid
  a_email :: string
  a_ip_address :: "netip_addr option"
  a_success :: bool
  a_reason :: "string option"
  a_created_at :: go_time

record audit_row =
  l_id :: uuid
  l_user_id :: "uuid option"
  l_action :: string
  l_metadata :: "string option"
  l_ip_address :: "netip_addr option"
  l_user_agent :: "string option"
  l_created_at :: go_time

datatype pg_error = NoRows | UniqueViolation | PgFailure string

datatype fault = NoFault | FailBefore string | FailAfter string

record auth_world =
  users :: "user_row list"
  refresh_sessions :: "session_row list"
  login_attempts :: "attempt_row list"
  audit_logs :: "audit_row list"
  server_clock :: go_time
  process_clock :: go_time
  uuid_supply :: "nat \<Rightarrow> uuid"
  uuid_next :: nat
  random_supply :: "nat \<Rightarrow> nat \<Rightarrow> string + 8 word list"
  random_next :: nat
  faults :: "fault list"

subsection \<open>Statements\<close>

type_synonym 'a statement = "auth_world \<Rightarrow> (pg_error + 'a) \<times> auth_world"

definition send :: "'a statement \<Rightarrow> 'a statement" where
  "send st w =
     (case faults w of [] \<Rightarrow> st w
      | f # fs \<Rightarrow> (let w = w\<lparr>faults := fs\<rparr> in case f of
            NoFault \<Rightarrow> st w
          | FailBefore m \<Rightarrow> (Inl (PgFailure m), w)
          | FailAfter m \<Rightarrow> (Inl (PgFailure m), snd (st w))))"

definition next_uuid :: "auth_world \<Rightarrow> uuid \<times> auth_world" where
  "next_uuid w = (uuid_supply w (uuid_next w), w\<lparr>uuid_next := uuid_next w + 1\<rparr>)"

definition one_row :: "('row \<Rightarrow> bool) \<Rightarrow> 'row list \<Rightarrow> pg_error + 'row" where
  "one_row P rows = (case find P rows of None \<Rightarrow> Inl NoRows | Some r \<Rightarrow> Inr r)"

definition createUser :: "string \<Rightarrow> string \<Rightarrow> user_row statement" where
  "createUser email hash w =
     (case next_uuid w of (i, w) \<Rightarrow>
        if list_ex (\<lambda>u. u_id u = i \<or> u_email u = email) (users w) then (Inl UniqueViolation, w)
        else let row = \<lparr>u_id = i, u_email = email, u_password_hash = hash, u_is_active = True,
                u_created_at = server_clock w, u_updated_at = server_clock w\<rparr>
             in (Inr row, w\<lparr>users := users w @ [row]\<rparr>))"

definition getUserByEmail :: "string \<Rightarrow> user_row statement" where
  "getUserByEmail email w = (one_row (\<lambda>u. u_email u = email) (users w), w)"

definition getUserByID :: "uuid \<Rightarrow> user_row statement" where
  "getUserByID i w = (one_row (\<lambda>u. u_id u = i) (users w), w)"

text \<open>A \<open>timestamptz\<close> holds microseconds; pgx drops the rest of a \<open>time.Time\<close>.\<close>

definition timestamptz :: "go_time \<Rightarrow> go_time" where
  "timestamptz t = t\<lparr>nsec := nsec t div 1000 * 1000\<rparr>"

definition createRefreshSession :: "SessionParams \<Rightarrow> session_row statement" where
  "createRefreshSession p w =
     (case next_uuid w of (i, w) \<Rightarrow>
        if list_ex (\<lambda>r. r_id r = i \<or> r_token_hash r = sp_TokenHash p) (refresh_sessions w) then (Inl UniqueViolation, w)
        else if \<not> list_ex (\<lambda>u. u_id u = sp_UserID p) (users w) then (Inl (PgFailure ''foreign key violation''), w)
        else let row = \<lparr>r_id = i, r_user_id = sp_UserID p, r_token_hash = sp_TokenHash p, r_user_agent = sp_UserAgent p,
                r_ip_address = sp_IP p, r_created_at = server_clock w, r_expires_at = timestamptz (sp_ExpiresAt p),
                r_revoked_at = None, r_replaced_by = None\<rparr>
             in (Inr row, w\<lparr>refresh_sessions := refresh_sessions w @ [row]\<rparr>))"

definition getRefreshSessionByHash :: "string \<Rightarrow> session_row statement" where
  "getRefreshSessionByHash h w = (one_row (\<lambda>r. r_token_hash r = h) (refresh_sessions w), w)"

definition update_sessions :: "(session_row \<Rightarrow> bool) \<Rightarrow> (session_row \<Rightarrow> session_row) \<Rightarrow> auth_world \<Rightarrow> auth_world" where
  "update_sessions P f w = w\<lparr>refresh_sessions := map (\<lambda>r. if P r then f r else r) (refresh_sessions w)\<rparr>"

definition revokeRefreshSession :: "uuid \<Rightarrow> unit statement" where
  "revokeRefreshSession i w =
     (Inr (), update_sessions (\<lambda>r. r_id r = i \<and> r_revoked_at r = None) (\<lambda>r. r\<lparr>r_revoked_at := Some (server_clock w)\<rparr>) w)"

definition revokeAndReplaceRefreshSession :: "uuid \<Rightarrow> uuid \<Rightarrow> unit statement" where
  "revokeAndReplaceRefreshSession i new w =
     (Inr (), update_sessions (\<lambda>r. r_id r = i \<and> r_revoked_at r = None)
        (\<lambda>r. r\<lparr>r_revoked_at := Some (server_clock w), r_replaced_by := Some new\<rparr>) w)"

definition insertLoginAttempt :: "string \<Rightarrow> netip_addr option \<Rightarrow> bool \<Rightarrow> string option \<Rightarrow> unit statement" where
  "insertLoginAttempt email ip success reason w =
     (case next_uuid w of (i, w) \<Rightarrow>
        if list_ex (\<lambda>r. a_id r = i) (login_attempts w) then (Inl UniqueViolation, w)
        else (Inr (), w\<lparr>login_attempts := login_attempts w @
          [\<lparr>a_id = i, a_email = email, a_ip_address = ip, a_success = success, a_reason = reason,
            a_created_at = server_clock w\<rparr>]\<rparr>))"

definition insertAuditLog :: "uuid option \<Rightarrow> string \<Rightarrow> string option \<Rightarrow> netip_addr option \<Rightarrow> string option \<Rightarrow> unit statement" where
  "insertAuditLog user action metadata ip ua w =
     (case next_uuid w of (i, w) \<Rightarrow>
        if list_ex (\<lambda>r. l_id r = i) (audit_logs w) then (Inl UniqueViolation, w)
        else if (case user of None \<Rightarrow> False | Some uid \<Rightarrow> \<not> list_ex (\<lambda>u. u_id u = uid) (users w))
        then (Inl (PgFailure ''foreign key violation''), w)
        else (Inr (), w\<lparr>audit_logs := audit_logs w @
          [\<lparr>l_id = i, l_user_id = user, l_action = action, l_metadata = metadata, l_ip_address = ip,
            l_user_agent = ua, l_created_at = server_clock w\<rparr>]\<rparr>))"

subsection \<open>The repository\<close>

fun pg_error_text :: "pg_error \<Rightarrow> string" where
  "pg_error_text NoRows = ''no rows in result set''"
| "pg_error_text UniqueViolation = ''duplicate key value violates unique constraint (SQLSTATE 23505)''"
| "pg_error_text (PgFailure m) = m"

definition wrap_pg :: "string \<Rightarrow> pg_error \<Rightarrow> auth_error goerr" where
  "wrap_pg m e = Wrap m (Opaque (pg_error_text e))"

definition userFromRow :: "user_row \<Rightarrow> User" where
  "userFromRow r = \<lparr>us_ID = u_id r, us_Email = u_email r, us_IsActive = u_is_active r,
     us_CreatedAt = u_created_at r, us_UpdatedAt = u_updated_at r\<rparr>"

definition sessionFromRow :: "session_row \<Rightarrow> RefreshSession" where
  "sessionFromRow r = \<lparr>ss_ID = r_id r, ss_UserID = r_user_id r, ss_ExpiresAt = r_expires_at r, ss_RevokedAt = r_revoked_at r\<rparr>"

definition strPtr :: "string \<Rightarrow> string option" where
  "strPtr s = (if s = [] then None else Some s)"

definition pg_CreateUser :: "string \<Rightarrow> string \<Rightarrow> (auth_world, auth_error, User) prog" where
  "pg_CreateUser email hash w =
     (case send (createUser email hash) w of
        (Inl UniqueViolation, w) \<Rightarrow> fail (Sentinel ErrEmailTaken) w
      | (Inl e, w) \<Rightarrow> fail (wrap_pg ''auth: create user'' e) w
      | (Inr row, w) \<Rightarrow> ret (userFromRow row) w)"

definition pg_CredentialsByEmail :: "string \<Rightarrow> (auth_world, auth_error, Credentials) prog" where
  "pg_CredentialsByEmail email w =
     (case send (getUserByEmail email) w of
        (Inl NoRows, w) \<Rightarrow> fail (Sentinel ErrUserNotFound) w
      | (Inl e, w) \<Rightarrow> fail (wrap_pg ''auth: get user by email'' e) w
      | (Inr row, w) \<Rightarrow> ret \<lparr>cd_User = userFromRow row, cd_PasswordHash = u_password_hash row\<rparr> w)"

definition pg_UserByID :: "uuid \<Rightarrow> (auth_world, auth_error, User) prog" where
  "pg_UserByID i w =
     (case send (getUserByID i) w of
        (Inl NoRows, w) \<Rightarrow> fail (Sentinel ErrUserNotFound) w
      | (Inl e, w) \<Rightarrow> fail (wrap_pg ''auth: get user by id'' e) w
      | (Inr row, w) \<Rightarrow> ret (userFromRow row) w)"

definition pg_CreateSession :: "SessionParams \<Rightarrow> (auth_world, auth_error, uuid) prog" where
  "pg_CreateSession p w =
     (case send (createRefreshSession p) w of
        (Inl e, w) \<Rightarrow> fail (wrap_pg ''auth: create refresh session'' e) w
      | (Inr row, w) \<Rightarrow> ret (r_id row) w)"

definition pg_SessionByHash :: "string \<Rightarrow> (auth_world, auth_error, RefreshSession) prog" where
  "pg_SessionByHash h w =
     (case send (getRefreshSessionByHash h) w of
        (Inl NoRows, w) \<Rightarrow> fail (Sentinel ErrSessionNotFound) w
      | (Inl e, w) \<Rightarrow> fail (wrap_pg ''auth: get refresh session'' e) w
      | (Inr row, w) \<Rightarrow> ret (sessionFromRow row) w)"

definition pg_RevokeSession :: "uuid \<Rightarrow> (auth_world, auth_error, unit) prog" where
  "pg_RevokeSession i w =
     (case send (revokeRefreshSession i) w of
        (Inl e, w) \<Rightarrow> fail (wrap_pg ''auth: revoke refresh session'' e) w
      | (Inr u, w) \<Rightarrow> ret () w)"

text \<open>The transaction of \<open>RotateSession\<close>: whatever fails before the commit has run is undone by the
  deferred rollback; a commit whose acknowledgement is lost has happened.\<close>

definition rollback :: "auth_world \<Rightarrow> auth_world \<Rightarrow> auth_world" where
  "rollback w0 w = w\<lparr>refresh_sessions := refresh_sessions w0\<rparr>"

definition commit :: "auth_world \<Rightarrow> unit statement" where
  "commit w0 w =
     (case faults w of [] \<Rightarrow> (Inr (), w)
      | f # fs \<Rightarrow> (let w = w\<lparr>faults := fs\<rparr> in case f of
            NoFault \<Rightarrow> (Inr (), w)
          | FailBefore m \<Rightarrow> (Inl (PgFailure m), rollback w0 w)
          | FailAfter m \<Rightarrow> (Inl (PgFailure m), w)))"

definition pg_RotateSession :: "uuid \<Rightarrow> SessionParams \<Rightarrow> (auth_world, auth_error, uuid) prog" where
  "pg_RotateSession oldID p w =
     (case send (\<lambda>w. (Inr (), w)) w of
        (Inl e, w) \<Rightarrow> fail (wrap_pg ''auth: begin rotate tx'' e) w
      | (Inr u, w0) \<Rightarrow>
          (case send (createRefreshSession p) w0 of
             (Inl e, w) \<Rightarrow> fail (wrap_pg ''auth: rotate create session'' e) (rollback w0 w)
           | (Inr session, w) \<Rightarrow>
               (case send (revokeAndReplaceRefreshSession oldID (r_id session)) w of
                  (Inl e, w) \<Rightarrow> fail (wrap_pg ''auth: rotate revoke old session'' e) (rollback w0 w)
                | (Inr u, w) \<Rightarrow>
                    (case commit w0 w of
                       (Inl e, w) \<Rightarrow> fail (wrap_pg ''auth: commit rotate tx'' e) w
                     | (Inr u, w) \<Rightarrow> ret (r_id session) w))))"

definition pg_RecordLoginAttempt :: "LoginAttempt \<Rightarrow> (auth_world, auth_error, unit) prog" where
  "pg_RecordLoginAttempt a w =
     (case send (insertLoginAttempt (la_Email a) (la_IP a) (la_Success a) (strPtr (la_Reason a))) w of
        (Inl e, w) \<Rightarrow> fail (wrap_pg ''auth: record login attempt'' e) w
      | (Inr u, w) \<Rightarrow> ret () w)"

definition pg_WriteAudit :: "AuditEntry \<Rightarrow> (auth_world, auth_error, unit) prog" where
  "pg_WriteAudit e w =
     (case send (insertAuditLog (ae_UserID e) (ae_Action e) (ae_Metadata e) (ae_IP e) (ae_UserAgent e)) w of
        (Inl err, w) \<Rightarrow> fail (wrap_pg ''auth: write audit log'' err) w
      | (Inr u, w) \<Rightarrow> ret () w)"

definition AuthPostgres :: "auth_world AuthRepository" where
  "AuthPostgres = \<lparr>ar_CreateUser = pg_CreateUser, ar_CredentialsByEmail = pg_CredentialsByEmail,
     ar_UserByID = pg_UserByID, ar_CreateSession = pg_CreateSession, ar_SessionByHash = pg_SessionByHash,
     ar_RevokeSession = pg_RevokeSession, ar_RotateSession = pg_RotateSession,
     ar_RecordLoginAttempt = pg_RecordLoginAttempt, ar_WriteAudit = pg_WriteAudit\<rparr>"

definition world_surroundings :: "(uuid \<Rightarrow> string) \<Rightarrow> auth_world surroundings" where
  "world_surroundings show = \<lparr>sr_now = process_clock,
     sr_random = (\<lambda>n w. (random_supply w (random_next w) n, w\<lparr>random_next := random_next w + 1\<rparr>)),
     sr_newUUID = (\<lambda>w. case next_uuid w of (i, w) \<Rightarrow> (show i, w))\<rparr>"

end
