(* ===== verification/AuthContract.thy ===== *)
theory AuthContract
  imports AuthEffects AuthDb
begin

section \<open>The contract between the auth service and its repository\<close>

text \<open>
  \<open>sessions s\<close> maps the hash of a refresh token to its session. The laws say how each
  repository call may change this map: not at all, by revoking the live session of one
  id, by adding a session under an unused hash, or both (the rotation), and that a call
  that fails did one of two things, nothing or everything. All facts about refresh tokens are
  proved from these laws; the PostgreSQL model satisfies them.
\<close>

definition revoked_id :: "uuid \<Rightarrow> go_time \<Rightarrow> (string \<rightharpoonup> RefreshSession) \<Rightarrow> string \<rightharpoonup> RefreshSession" where
  "revoked_id i t m = (\<lambda>h. map_option (\<lambda>r. if ss_ID r = i \<and> \<not> IsRevoked r then r\<lparr>ss_RevokedAt := Some t\<rparr> else r) (m h))"

definition new_session :: "uuid \<Rightarrow> SessionParams \<Rightarrow> RefreshSession" where
  "new_session i p = \<lparr>ss_ID = i, ss_UserID = sp_UserID p, ss_ExpiresAt = timestamptz (sp_ExpiresAt p), ss_RevokedAt = None\<rparr>"

definition created_as :: "uuid \<Rightarrow> SessionParams \<Rightarrow> (string \<rightharpoonup> RefreshSession) \<Rightarrow> (string \<rightharpoonup> RefreshSession) \<Rightarrow> bool" where
  "created_as i p m m' \<longleftrightarrow> m (sp_TokenHash p) = None \<and> i \<notin> ss_ID ` ran m \<and> m' = m(sp_TokenHash p \<mapsto> new_session i p)"

definition created :: "SessionParams \<Rightarrow> (string \<rightharpoonup> RefreshSession) \<Rightarrow> (string \<rightharpoonup> RefreshSession) \<Rightarrow> bool" where
  "created p m m' \<longleftrightarrow> (\<exists>i. created_as i p m m')"

definition rotated :: "uuid \<Rightarrow> SessionParams \<Rightarrow> (string \<rightharpoonup> RefreshSession) \<Rightarrow> (string \<rightharpoonup> RefreshSession) \<Rightarrow> bool" where
  "rotated old p m m' \<longleftrightarrow> (\<exists>m1 t. created p m m1 \<and> m' = revoked_id old t m1)"

subsection \<open>How the session map may evolve\<close>

definition later :: "RefreshSession \<Rightarrow> RefreshSession \<Rightarrow> bool" where
  "later r r' \<longleftrightarrow> ss_ID r' = ss_ID r \<and> ss_UserID r' = ss_UserID r \<and> ss_ExpiresAt r' = ss_ExpiresAt r \<and> (IsRevoked r \<longrightarrow> r' = r)"

definition evolves :: "(string \<rightharpoonup> RefreshSession) \<Rightarrow> (string \<rightharpoonup> RefreshSession) \<Rightarrow> bool" where
  "evolves m m' \<longleftrightarrow> (\<forall>h r. m h = Some r \<longrightarrow> (\<exists>r'. m' h = Some r' \<and> later r r'))"

lemma evolves_refl [simp]: "evolves m m"
  by (simp add: evolves_def later_def)

lemma later_trans: "later a b \<Longrightarrow> later b c \<Longrightarrow> later a c"
  by (auto simp: later_def)

lemma evolves_trans: "evolves a b \<Longrightarrow> evolves b c \<Longrightarrow> evolves a c"
  unfolding evolves_def using later_trans by blast

lemma evolves_revoked: "evolves m (revoked_id i t m)"
  by (auto simp: evolves_def revoked_id_def later_def IsRevoked_def)

lemma evolves_new: "m h = None \<Longrightarrow> evolves m m' \<Longrightarrow> evolves m (m'(h \<mapsto> r))"
  unfolding evolves_def by (metis map_upd_Some_unfold option.distinct(1))

lemma evolves_created: "created p m m' \<Longrightarrow> evolves m m'"
  unfolding created_def created_as_def using evolves_new [OF _ evolves_refl] by blast

lemma evolves_rotated: "rotated old p m m' \<Longrightarrow> evolves m m'"
  unfolding rotated_def using evolves_trans [OF evolves_created evolves_revoked] by blast

lemma revoked_stays: "evolves m m' \<Longrightarrow> m h = Some r \<Longrightarrow> IsRevoked r \<Longrightarrow> m' h = Some r"
  unfolding evolves_def later_def by metis

locale session_store =
  fixes sv :: "'s auth_service" and sessions :: "'s \<Rightarrow> string \<rightharpoonup> RefreshSession"
  assumes byHash_found: "ar_SessionByHash (sv_repo sv) h s = (Inr r, s') \<Longrightarrow> sessions s h = Some r"
    and byHash_missing: "ar_SessionByHash (sv_repo sv) h s = (Inl e, s') \<Longrightarrow> errors_Is e ErrSessionNotFound \<Longrightarrow> sessions s h = None"
    and byHash_frame: "sessions (snd (ar_SessionByHash (sv_repo sv) h s)) = sessions s"
    and user_frame: "sessions (snd (ar_CreateUser (sv_repo sv) email hash s)) = sessions s"
      "sessions (snd (ar_CredentialsByEmail (sv_repo sv) email s)) = sessions s"
      "sessions (snd (ar_UserByID (sv_repo sv) i s)) = sessions s"
    and log_frame: "sessions (snd (ar_RecordLoginAttempt (sv_repo sv) a s)) = sessions s"
      "sessions (snd (ar_WriteAudit (sv_repo sv) entry s)) = sessions s"
    and random_frame: "sessions (snd (sr_random (sv_sur sv) n s)) = sessions s" "sessions (snd (sr_newUUID (sv_sur sv) s)) = sessions s"
    and create: "ar_CreateSession (sv_repo sv) p s = (x, s') \<Longrightarrow>
      created p (sessions s) (sessions s') \<or> (\<exists>e. x = Inl e) \<and> sessions s' = sessions s"
    and revoke: "ar_RevokeSession (sv_repo sv) i s = (y, s') \<Longrightarrow>
      (\<exists>t. sessions s' = revoked_id i t (sessions s)) \<or> (\<exists>e. y = Inl e) \<and> sessions s' = sessions s"
    and rotate: "ar_RotateSession (sv_repo sv) old p s = (x, s') \<Longrightarrow>
      rotated old p (sessions s) (sessions s') \<or> (\<exists>e. x = Inl e) \<and> sessions s' = sessions s"
begin

subsection \<open>What the operations promise of refresh tokens\<close>

lemma frames:
  "sessions (snd (recordAttempt sv email meta ok reason s)) = sessions s"
  "sessions (snd (audit sv i action meta s)) = sessions s"
  "sessions (snd (generateRefreshToken (sv_sur sv) s)) = sessions s"
  "sessions (snd (buildResult sv i raw now s)) = sessions s"
  using log_frame random_frame(1) [of 32 s] random_frame(2) [of s]
  by (auto simp: recordAttempt_def audit_def ignore_def generateRefreshToken_def buildResult_def MintAccessToken_def
    Let_def prog_run split: prod.split sum.split)

lemma buildResult_token: "buildResult sv i raw now s = (Inr res, s') \<Longrightarrow> ar_RefreshToken res = raw"
  by (auto simp: buildResult_def andThen_def ret_def split: prod.splits sum.splits)

lemma refresh_read_success:
  assumes "refresh_read sv raw s = (Inr (now, r), s')"
  shows "now = sr_now (sv_sur sv) s \<and> sessions s (hashToken (sv_crypto sv) raw) = Some r \<and> \<not> IsRevoked r \<and>
    After (ss_ExpiresAt r) now \<and> sessions s' = sessions s"
proof -
  have "ar_SessionByHash (sv_repo sv) (hashToken (sv_crypto sv) raw) s = (Inr r, s')"
    and live: "\<not> IsRevoked r" "After (ss_ExpiresAt r) now" "now = sr_now (sv_sur sv) s"
    using assms by (auto simp: refresh_read_def Let_def catch_Inr split: if_splits)
  then show ?thesis using byHash_found byHash_frame [of "hashToken (sv_crypto sv) raw" s] by simp
qed

lemma refresh_write_success:
  assumes "refresh_write sv meta (now, r) s = (Inr res, s')"
  shows "rotated (ss_ID r) (sessionParams sv (ss_UserID r) (ar_RefreshToken res) meta now) (sessions s) (sessions s')"
proof -
  obtain new u2 x u3 u4 where
    gen: "generateRefreshToken (sv_sur sv) s = (Inr new, u2)" and
    rot: "ar_RotateSession (sv_repo sv) (ss_ID r) (sessionParams sv (ss_UserID r) new meta now) u2 = (Inr x, u3)" and
    aud: "audit sv (ss_UserID r) ActionRefresh meta u3 = (Inr (), u4)" and
    build: "buildResult sv (ss_UserID r) new now u4 = (Inr res, s')"
    using assms by (auto simp: refresh_write_def andThen_Inr)
  have "sessions u2 = sessions s" "sessions u4 = sessions u3" "sessions s' = sessions u4"
    using frames(3) [of s] frames(2) [of "ss_UserID r" ActionRefresh meta u3] frames(4) [of "ss_UserID r" new now u4] gen aud build
    by simp_all
  then show ?thesis using rotate [OF rot] buildResult_token [OF build] by auto
qed

lemma Refresh_success:
  assumes "Refresh sv raw meta s = (Inr res, s')"
  shows "\<exists>r. sessions s (hashToken (sv_crypto sv) raw) = Some r \<and> \<not> IsRevoked r \<and> After (ss_ExpiresAt r) (sr_now (sv_sur sv) s) \<and>
    rotated (ss_ID r) (sessionParams sv (ss_UserID r) (ar_RefreshToken res) meta (sr_now (sv_sur sv) s)) (sessions s) (sessions s')"
  using assms refresh_read_success refresh_write_success unfolding Refresh_split andThen_Inr by fastforce

lemma Refresh_dead:
  assumes "sessions s (hashToken (sv_crypto sv) raw) = Some r" "IsRevoked r \<or> \<not> After (ss_ExpiresAt r) (sr_now (sv_sur sv) s)"
  shows "\<exists>e s'. Refresh sv raw meta s = (Inl e, s') \<and> sessions s' = sessions s"
proof (cases "ar_SessionByHash (sv_repo sv) (hashToken (sv_crypto sv) raw) s")
  case (Pair x u)
  have same: "sessions u = sessions s" using Pair byHash_frame by (metis snd_conv)
  show ?thesis
  proof (cases x)
    case (Inl e)
    then have "\<not> errors_Is e ErrSessionNotFound" using byHash_missing assms(1) Pair by fastforce
    then show ?thesis using Pair Inl same by (simp add: Refresh_def catch_def fail_def)
  next
    case (Inr r')
    then have "r' = r" using byHash_found assms(1) Pair by fastforce
    then show ?thesis using Pair Inr same assms(2) by (auto simp: Refresh_def catch_def fail_def)
  qed
qed

lemma Login_success:
  assumes "Login sv req meta s = (Inr res, s')"
  shows "\<exists>creds u. ar_CredentialsByEmail (sv_repo sv) (normalizeEmail (sv_unicodeLower sv) (lg_Email req)) s = (Inr creds, u) \<and>
    bcrypt_compare (sv_crypto sv) (cd_PasswordHash creds) (lg_Password req) \<and> us_IsActive (cd_User creds) \<and>
    created (sessionParams sv (us_ID (cd_User creds)) (ar_RefreshToken res) meta (sr_now (sv_sur sv) u)) (sessions s) (sessions s')"
proof -
  let ?email = "normalizeEmail (sv_unicodeLower sv) (lg_Email req)"
  obtain creds u new u2 x u3 u4 u5 where
    found: "ar_CredentialsByEmail (sv_repo sv) ?email s = (Inr creds, u)" and
    ok: "bcrypt_compare (sv_crypto sv) (cd_PasswordHash creds) (lg_Password req)" "us_IsActive (cd_User creds)" and
    gen: "generateRefreshToken (sv_sur sv) u = (Inr new, u2)" and
    cre: "ar_CreateSession (sv_repo sv) (sessionParams sv (us_ID (cd_User creds)) new meta (sr_now (sv_sur sv) u)) u2 = (Inr x, u3)" and
    rec: "recordAttempt sv ?email meta True [] u3 = (Inr (), u4)" and
    aud: "audit sv (us_ID (cd_User creds)) ActionLogin meta u4 = (Inr (), u5)" and
    build: "buildResult sv (us_ID (cd_User creds)) new (sr_now (sv_sur sv) u) u5 = (Inr res, s')"
    using assms by (auto simp: Login_def Let_def catch_Inr andThen_Inr split: if_splits)
  have "sessions u = sessions s" "sessions u2 = sessions u" "sessions u4 = sessions u3" "sessions u5 = sessions u4" "sessions s' = sessions u5"
    using user_frame(2) [of ?email s] frames(3) [of u] frames(1) [of ?email meta True "[]" u3]
      frames(2) [of "us_ID (cd_User creds)" ActionLogin meta u4]
      frames(4) [of "us_ID (cd_User creds)" new "sr_now (sv_sur sv) u" u5] found gen rec aud build by simp_all
  then show ?thesis using found ok create [OF cre] buildResult_token [OF build] by auto
qed

lemma Logout_success:
  assumes "Logout sv raw meta s = (Inr (), s')" "raw \<noteq> []"
  shows "(\<exists>r t. sessions s (hashToken (sv_crypto sv) raw) = Some r \<and> sessions s' = revoked_id (ss_ID r) t (sessions s)) \<or>
    sessions s (hashToken (sv_crypto sv) raw) = None \<and> sessions s' = sessions s"
proof -
  let ?h = "hashToken (sv_crypto sv) raw"
  from assms consider
      (missing) e u where "ar_SessionByHash (sv_repo sv) ?h s = (Inl e, u)" "errors_Is e ErrSessionNotFound" "s' = u"
    | (found) r u u2 where "ar_SessionByHash (sv_repo sv) ?h s = (Inr r, u)"
        "ar_RevokeSession (sv_repo sv) (ss_ID r) u = (Inr (), u2)" "audit sv (ss_UserID r) ActionLogout meta u2 = (Inr (), s')"
    by (auto simp: Logout_def catch_Inr andThen_Inr split: if_splits)
  then show ?thesis
  proof cases
    case missing
    then show ?thesis using byHash_missing byHash_frame [of ?h s] by fastforce
  next
    case found
    have "sessions u = sessions s" "sessions s' = sessions u2"
      using byHash_frame [of ?h s] frames(2) [of "ss_UserID r" ActionLogout meta u2] found by simp_all
    then show ?thesis using byHash_found [OF found(1)] revoke [OF found(2)] by auto
  qed
qed

lemma revoked_by_rotation:
  assumes "rotated (ss_ID r) p (sessions s) (sessions s')" "sessions s h = Some r" "\<not> IsRevoked r"
  shows "\<exists>t. sessions s' h = Some (r\<lparr>ss_RevokedAt := Some t\<rparr>)"
  using assms by (auto simp: rotated_def created_def created_as_def revoked_id_def)

end

text \<open>The session map evolves under every operation.\<close>

sublocale session_store \<subseteq> evolving: service_effects sv "\<lambda>s s'. evolves (sessions s) (sessions s')"
proof unfold_locales
  fix s p i
  show "evolves (sessions s) (sessions (snd (ar_CreateSession (sv_repo sv) p s)))"
    using create [of p s] evolves_created by (metis evolves_refl prod.collapse)
  show "evolves (sessions s) (sessions (snd (ar_RevokeSession (sv_repo sv) i s)))"
    using revoke [of i s] evolves_revoked by (metis evolves_refl prod.collapse)
  show "evolves (sessions s) (sessions (snd (ar_RotateSession (sv_repo sv) i p s)))"
    using rotate [of i p s] evolves_rotated by (metis evolves_refl prod.collapse)
qed (auto simp: byHash_frame user_frame log_frame random_frame intro: evolves_trans)

end
