(* ===== verification/AuthStore.thy ===== *)
theory AuthStore
  imports AuthContract
begin

section \<open>The PostgreSQL repository keeps the contract\<close>

text \<open>
  \<open>NewService\<close> is \<open>auth.NewService\<close> of \<open>service.go\<close> on the repository of \<open>AuthDb\<close>. The session of a
  token hash is the row with this hash, as \<open>sessionFromRow\<close> reads it.
\<close>

definition NewService :: "crypto \<Rightarrow> TokenManager \<Rightarrow> int \<Rightarrow> (string \<Rightarrow> string) \<Rightarrow> auth_world auth_service" where
  "NewService cr tokens refreshTTL lower =
     \<lparr>sv_repo = AuthPostgres, sv_sur = world_surroundings (uuid_String cr), sv_crypto = cr, sv_tokens = tokens,
      sv_refreshTTL = refreshTTL, sv_unicodeLower = lower\<rparr>"

definition sessions_of :: "auth_world \<Rightarrow> string \<rightharpoonup> RefreshSession" where
  "sessions_of w h = map_option sessionFromRow (find (\<lambda>r. r_token_hash r = h) (refresh_sessions w))"

lemma NewService_fields [simp]:
  "sv_repo (NewService cr tm ttl lower) = AuthPostgres" "sv_crypto (NewService cr tm ttl lower) = cr"
  "sv_sur (NewService cr tm ttl lower) = world_surroundings (uuid_String cr)" "sv_tokens (NewService cr tm ttl lower) = tm"
  "sv_refreshTTL (NewService cr tm ttl lower) = ttl" "sv_unicodeLower (NewService cr tm ttl lower) = lower"
  by (simp_all add: NewService_def)

lemma AuthPostgres_fields [simp]:
  "ar_CreateUser AuthPostgres = pg_CreateUser" "ar_CredentialsByEmail AuthPostgres = pg_CredentialsByEmail"
  "ar_UserByID AuthPostgres = pg_UserByID" "ar_CreateSession AuthPostgres = pg_CreateSession"
  "ar_SessionByHash AuthPostgres = pg_SessionByHash" "ar_RevokeSession AuthPostgres = pg_RevokeSession"
  "ar_RotateSession AuthPostgres = pg_RotateSession" "ar_RecordLoginAttempt AuthPostgres = pg_RecordLoginAttempt"
  "ar_WriteAudit AuthPostgres = pg_WriteAudit"
  by (simp_all add: AuthPostgres_def)

lemmas statement_defs = send_def next_uuid_def one_row_def createUser_def getUserByEmail_def getUserByID_def
  createRefreshSession_def getRefreshSessionByHash_def insertLoginAttempt_def insertAuditLog_def
lemmas pg_defs = pg_CreateUser_def pg_CredentialsByEmail_def pg_UserByID_def pg_CreateSession_def pg_SessionByHash_def
  pg_RevokeSession_def pg_RecordLoginAttempt_def pg_WriteAudit_def

lemma rows_frame:
  "refresh_sessions (snd (pg_SessionByHash h w)) = refresh_sessions w"
  "refresh_sessions (snd (pg_CreateUser email hash w)) = refresh_sessions w"
  "refresh_sessions (snd (pg_CredentialsByEmail email w)) = refresh_sessions w"
  "refresh_sessions (snd (pg_UserByID i w)) = refresh_sessions w"
  "refresh_sessions (snd (pg_RecordLoginAttempt a w)) = refresh_sessions w"
  "refresh_sessions (snd (pg_WriteAudit e w)) = refresh_sessions w"
  by (simp_all add: pg_defs statement_defs prog_run Let_def split: list.split fault.split prod.split sum.split pg_error.split option.split)

lemma sessions_frame: "refresh_sessions w' = refresh_sessions w \<Longrightarrow> sessions_of w' = sessions_of w"
  by (rule ext) (simp add: sessions_of_def)

text \<open>What a statement does: the two outcomes of the fault script.\<close>

lemma send_cases:
  assumes "send st w = (x, w')"
  obtains (ran) w1 where "w1 = w\<lparr>faults := tl (faults w)\<rparr>" "snd (st w1) = w'" "x = fst (st w1) \<or> (\<exists>m. x = Inl (PgFailure m))"
  | (lost) m where "x = Inl (PgFailure m)" "w' = w\<lparr>faults := tl (faults w)\<rparr>"
proof (cases "faults w")
  case Nil
  then have "w\<lparr>faults := tl (faults w)\<rparr> = w" by simp
  then show ?thesis using ran [of w] Nil assms by (simp add: send_def)
next
  case (Cons f fs)
  then show ?thesis using assms ran lost by (cases f) (auto simp: send_def Let_def)
qed

lemma find_map_stable: "(\<And>x. P (f x) = P x) \<Longrightarrow> find P (map f xs) = map_option f (find P xs)"
  by (induction xs) auto

lemma find_append: "find P (xs @ ys) = (case find P xs of None \<Rightarrow> find P ys | Some x \<Rightarrow> Some x)"
  by (induction xs) auto

lemma sessions_update:
  assumes "\<And>r. r_token_hash (f r) = r_token_hash r"
    "\<And>r. sessionFromRow (f r) = (sessionFromRow r)\<lparr>ss_RevokedAt := Some t\<rparr>"
  shows "sessions_of (update_sessions (\<lambda>r. r_id r = i \<and> r_revoked_at r = None) f w) = revoked_id i t (sessions_of w)"
proof
  fix h
  let ?g = "\<lambda>r. if r_id r = i \<and> r_revoked_at r = None then f r else r"
  have "find (\<lambda>r. r_token_hash r = h) (map ?g rows) = map_option ?g (find (\<lambda>r. r_token_hash r = h) rows)" for rows
    using assms(1) by (intro find_map_stable) auto
  moreover have "ss_ID (sessionFromRow r) = r_id r" "IsRevoked (sessionFromRow r) \<longleftrightarrow> r_revoked_at r \<noteq> None" for r
    by (simp_all add: sessionFromRow_def IsRevoked_def)
  ultimately show "sessions_of (update_sessions (\<lambda>r. r_id r = i \<and> r_revoked_at r = None) f w) h = revoked_id i t (sessions_of w) h"
    using assms(2) by (simp add: sessions_of_def update_sessions_def revoked_id_def option.map_comp)
      (cases "find (\<lambda>r. r_token_hash r = h) (refresh_sessions w)"; simp)
qed

lemma ran_sessions: "ss_ID ` ran (sessions_of w) \<subseteq> r_id ` set (refresh_sessions w)"
  by (force simp: ran_def sessions_of_def sessionFromRow_def find_Some_iff)

lemma created_row:
  assumes "createRefreshSession p w = (Inr row, w')"
  shows "created_as (r_id row) p (sessions_of w) (sessions_of w')"
proof -
  let ?rows = "refresh_sessions w"
  have row: "sessionFromRow row = new_session (r_id row) p" "r_token_hash row = sp_TokenHash p"
    and rows: "refresh_sessions w' = ?rows @ [row]"
    and fresh: "\<forall>r\<in>set ?rows. r_id r \<noteq> r_id row \<and> r_token_hash r \<noteq> sp_TokenHash p"
    using assms by (auto simp: createRefreshSession_def next_uuid_def Let_def list_ex_iff sessionFromRow_def new_session_def
      split: if_splits)
  have unused: "find (\<lambda>r. r_token_hash r = sp_TokenHash p) ?rows = None"
    using fresh by (simp add: find_None_iff)
  have "sessions_of w' = (sessions_of w)(sp_TokenHash p \<mapsto> new_session (r_id row) p)"
    using unused row by (intro ext) (auto simp: sessions_of_def rows find_append split: option.split)
  moreover have "r_id row \<notin> ss_ID ` ran (sessions_of w)" using ran_sessions fresh by fastforce
  moreover have "sessions_of w (sp_TokenHash p) = None" using unused by (simp add: sessions_of_def)
  ultimately show ?thesis by (simp add: created_as_def)
qed

lemma created_failed: "createRefreshSession p w = (Inl e, w') \<Longrightarrow> sessions_of w' = sessions_of w"
  by (rule sessions_frame) (auto simp: createRefreshSession_def next_uuid_def Let_def split: if_splits)

lemma faults_frame [simp]: "sessions_of (w\<lparr>faults := fs\<rparr>) = sessions_of w"
  by (rule sessions_frame) simp

lemma sent_created:
  assumes "send (createRefreshSession p) w = (x, w')"
  shows "(\<exists>i. created_as i p (sessions_of w) (sessions_of w') \<and> (\<forall>row. x = Inr row \<longrightarrow> r_id row = i)) \<or>
    (\<exists>e. x = Inl e) \<and> sessions_of w' = sessions_of w"
  using assms
proof (cases rule: send_cases)
  case (ran w1)
  have same: "sessions_of w1 = sessions_of w" using ran(1) by simp
  obtain y where y: "createRefreshSession p w1 = (y, w')" using ran(2) by (metis prod.collapse)
  show ?thesis
  proof (cases y)
    case (Inl e)
    then show ?thesis using created_failed [of p w1] y ran(3) same by auto
  next
    case (Inr row)
    then have "created_as (r_id row) p (sessions_of w) (sessions_of w')" using created_row [of p w1] y same by simp
    moreover have "\<forall>row'. x = Inr row' \<longrightarrow> r_id row' = r_id row" using ran(3) y Inr by auto
    ultimately show ?thesis by blast
  qed
qed simp

lemma session_create:
  assumes "pg_CreateSession p w = (x, w')"
  shows "created p (sessions_of w) (sessions_of w') \<or> (\<exists>e. x = Inl e) \<and> sessions_of w' = sessions_of w"
proof -
  obtain y where y: "send (createRefreshSession p) w = (y, w')" and "(\<exists>e. y = Inl e) \<longrightarrow> (\<exists>e. x = Inl e)"
    using assms by (auto simp: pg_CreateSession_def prog_run split: prod.splits sum.splits)
  then show ?thesis using sent_created [OF y] unfolding created_def by blast
qed

lemma session_revoke:
  assumes "pg_RevokeSession i w = (x, w')"
  shows "(\<exists>t. sessions_of w' = revoked_id i t (sessions_of w)) \<or> (\<exists>e. x = Inl e) \<and> sessions_of w' = sessions_of w"
proof -
  obtain y where y: "send (revokeRefreshSession i) w = (y, w')" and err: "(\<exists>e. y = Inl e) \<longrightarrow> (\<exists>e. x = Inl e)"
    using assms by (auto simp: pg_RevokeSession_def prog_run split: prod.splits sum.splits)
  have run: "sessions_of (snd (revokeRefreshSession i v)) = revoked_id i (server_clock v) (sessions_of v)" for v
    unfolding revokeRefreshSession_def snd_conv by (rule sessions_update) (simp_all add: sessionFromRow_def)
  show ?thesis using y
  proof (cases rule: send_cases)
    case (ran w1)
    then show ?thesis using run [of w1] by auto
  qed (use err in auto)
qed

definition same_tables :: "auth_world \<Rightarrow> auth_world \<Rightarrow> bool" where
  "same_tables w w' \<longleftrightarrow> users w' = users w \<and> refresh_sessions w' = refresh_sessions w \<and>
     login_attempts w' = login_attempts w \<and> audit_logs w' = audit_logs w"

lemma same_tables_sessions: "same_tables w w' \<Longrightarrow> sessions_of w' = sessions_of w"
  by (rule sessions_frame) (simp add: same_tables_def)

lemma sent_begin: "send (\<lambda>w. (Inr (), w)) w = (x, w') \<Longrightarrow> same_tables w w'"
  by (erule send_cases) (auto simp: same_tables_def)

lemma commit_tables:
  assumes "commit w0 w = (x, w')" "same_tables w0 (w\<lparr>refresh_sessions := refresh_sessions w0\<rparr>)"
  shows "same_tables w w' \<or> (\<exists>e. x = Inl e) \<and> same_tables w0 w'"
  using assms by (auto simp: commit_def rollback_def Let_def same_tables_def split: list.splits fault.splits)

text \<open>Statements on sessions touch no other table.\<close>

lemma session_statements_frame:
  "same_tables w ((snd (send (createRefreshSession p) w))\<lparr>refresh_sessions := refresh_sessions w\<rparr>)"
  "same_tables w ((snd (send (revokeAndReplaceRefreshSession i j) w))\<lparr>refresh_sessions := refresh_sessions w\<rparr>)"
  by (auto simp: same_tables_def send_def createRefreshSession_def next_uuid_def revokeAndReplaceRefreshSession_def
    update_sessions_def Let_def split: list.split fault.split)

lemma sent_replace:
  assumes "send (revokeAndReplaceRefreshSession old new) w = (Inr u, w')"
  shows "\<exists>t. sessions_of w' = revoked_id old t (sessions_of w)"
proof -
  have "sessions_of (snd (revokeAndReplaceRefreshSession old new v)) = revoked_id old (server_clock v) (sessions_of v)" for v
    unfolding revokeAndReplaceRefreshSession_def snd_conv by (rule sessions_update) (simp_all add: sessionFromRow_def)
  then show ?thesis using assms by (elim send_cases) auto
qed

lemma rotate_steps:
  assumes "pg_RotateSession old p w = (x, w')"
  obtains (undone) e where "x = Inl e" "same_tables w w'"
  | (through) wb row wc u wd where "same_tables w wb" "send (createRefreshSession p) wb = (Inr row, wc)"
      "send (revokeAndReplaceRefreshSession old (r_id row)) wc = (Inr u, wd)" "same_tables wd w'"
      "\<forall>i. x = Inr i \<longrightarrow> i = r_id row"
proof -
  obtain b wb where b: "send (\<lambda>w. (Inr (), w)) w = (b, wb)" by (metis prod.collapse)
  note wb = sent_begin [OF b]
  obtain c wc where c: "send (createRefreshSession p) wb = (c, wc)" by (metis prod.collapse)
  have wc: "same_tables wb (wc\<lparr>refresh_sessions := refresh_sessions wb\<rparr>)"
    using session_statements_frame(1) [of wb p] c by simp
  note run = assms [unfolded pg_RotateSession_def b]
  have from_wb: "same_tables w v" if "same_tables wb v" for v using wb that by (simp add: same_tables_def)
  show ?thesis
  proof (cases b)
    case (Inl e)
    then show ?thesis using run wb undone by (auto simp: fail_def)
  next
    case b: (Inr v)
    show ?thesis
    proof (cases c)
      case (Inl e)
      then show ?thesis using run from_wb [OF wc] undone b c by (auto simp: fail_def rollback_def)
    next
      case c': (Inr row)
      obtain d wd where d: "send (revokeAndReplaceRefreshSession old (r_id row)) wc = (d, wd)" by (metis prod.collapse)
      have wd: "same_tables wb (wd\<lparr>refresh_sessions := refresh_sessions wb\<rparr>)"
        using session_statements_frame(2) [of wc old "r_id row"] wc d by (simp add: same_tables_def)
      obtain y we where y: "commit wb wd = (y, we)" by (metis prod.collapse)
      show ?thesis
      proof (cases d)
        case (Inl e)
        then show ?thesis using run from_wb [OF wd] undone b c c' d by (auto simp: fail_def rollback_def)
      next
        case (Inr u)
        then have x: "w' = we" "(\<exists>e. y = Inl e) \<longrightarrow> (\<exists>e. x = Inl e)" "\<forall>i. x = Inr i \<longrightarrow> i = r_id row"
          using run b c c' d y by (cases y; auto simp: fail_def ret_def)+
        from commit_tables [OF y wd] show ?thesis
        proof
          assume "same_tables wd we"
          then show ?thesis using through [OF wb] c c' d Inr x by blast
        next
          assume "(\<exists>e. y = Inl e) \<and> same_tables wb we"
          then show ?thesis using undone from_wb x by blast
        qed
      qed
    qed
  qed
qed

lemma session_rotate:
  assumes "pg_RotateSession old p w = (x, w')"
  shows "rotated old p (sessions_of w) (sessions_of w') \<or> (\<exists>e. x = Inl e) \<and> sessions_of w' = sessions_of w"
  using assms
proof (cases rule: rotate_steps)
  case undone
  then show ?thesis using same_tables_sessions by blast
next
  case (through wb row wc u wd)
  have "created p (sessions_of w) (sessions_of wc)"
    using sent_created [OF through(2)] same_tables_sessions [OF through(1)] by (auto simp: created_def)
  moreover obtain t where "sessions_of wd = revoked_id old t (sessions_of wc)"
    using sent_replace [OF through(3)] by blast
  ultimately show ?thesis using same_tables_sessions [OF through(4)] unfolding rotated_def by auto
qed

lemma sent_lookup:
  assumes "send (getRefreshSessionByHash h) w = (x, w')"
  shows "x = one_row (\<lambda>r. r_token_hash r = h) (refresh_sessions w) \<or> (\<exists>m. x = Inl (PgFailure m))"
  using assms by (elim send_cases) (auto simp: getRefreshSessionByHash_def)

lemma session_lookup:
  assumes "pg_SessionByHash h w = (x, w')"
  shows "x = Inr r \<longrightarrow> sessions_of w h = Some r" "x = Inl e \<longrightarrow> errors_Is e ErrSessionNotFound \<longrightarrow> sessions_of w h = None"
proof -
  obtain y v where y: "send (getRefreshSessionByHash h) w = (y, v)" by (metis prod.collapse)
  note run = assms [unfolded pg_SessionByHash_def y] and cases = sent_lookup [OF y]
  show "x = Inr r \<longrightarrow> sessions_of w h = Some r"
    using run cases by (cases y) (auto simp: sessions_of_def one_row_def split: option.splits pg_error.splits)
  show "x = Inl e \<longrightarrow> errors_Is e ErrSessionNotFound \<longrightarrow> sessions_of w h = None"
    using run cases by (cases y) (auto simp: sessions_of_def one_row_def wrap_pg_def split: option.splits pg_error.splits)
qed

interpretation store: session_store "NewService cr tokens ttl lower" sessions_of for cr tokens ttl lower
proof unfold_locales
  show "sessions_of (snd (sr_random (sv_sur (NewService cr tokens ttl lower)) n s)) = sessions_of s" for n s
    by (rule sessions_frame) (simp add: world_surroundings_def)
  show "sessions_of (snd (sr_newUUID (sv_sur (NewService cr tokens ttl lower)) s)) = sessions_of s" for s
    by (rule sessions_frame) (simp add: world_surroundings_def next_uuid_def)
qed (auto simp: rows_frame [THEN sessions_frame] dest: session_lookup session_create session_revoke session_rotate)

end
