(* ===== verification/AuthSchema.thy ===== *)
theory AuthSchema
  imports AuthStore
begin

section \<open>The schema invariant and runs of the service\<close>

text \<open>
  \<open>db_ok\<close> is what the constraints of migration 000011 and the code keep true of the four
  tables together: keys are unique, references exist, a replaced session is a revoked one and names its
  successor. Then the runs of the deployed service: requests in any order and with any arguments,
  and in between whatever clocks, randomness, faults and account flags do.
\<close>

subsection \<open>Keys and references\<close>

definition unique :: "('r \<Rightarrow> 'k) \<Rightarrow> 'r list \<Rightarrow> bool" where
  "unique key rows \<longleftrightarrow> distinct (map key rows)"

lemma unique_snoc: "unique key (rows @ [r]) \<longleftrightarrow> unique key rows \<and> (\<forall>x\<in>set rows. key x \<noteq> key r)"
  by (simp add: unique_def image_iff) metis

lemma unique_update: "(\<And>x. key (f x) = key x) \<Longrightarrow> unique key (map f rows) = unique key rows"
  by (simp add: unique_def comp_def)

lemma unique_find:
  assumes "unique key rows" "r \<in> set rows"
  shows "find (\<lambda>x. key x = key r) rows = Some r"
  using assms by (induction rows) (auto simp: unique_def)

definition users_ok :: "user_row list \<Rightarrow> bool" where
  "users_ok us \<longleftrightarrow> unique u_id us \<and> unique u_email us"

definition replaced_ok :: "session_row list \<Rightarrow> session_row \<Rightarrow> bool" where
  "replaced_ok rs r = (case r_replaced_by r of None \<Rightarrow> True | Some j \<Rightarrow> r_revoked_at r \<noteq> None \<and> j \<in> r_id ` set rs)"

definition sessions_ok :: "user_row list \<Rightarrow> session_row list \<Rightarrow> bool" where
  "sessions_ok us rs \<longleftrightarrow> unique r_id rs \<and> unique r_token_hash rs \<and>
     (\<forall>r\<in>set rs. r_user_id r \<in> u_id ` set us \<and> replaced_ok rs r)"

definition logs_ok :: "user_row list \<Rightarrow> attempt_row list \<Rightarrow> audit_row list \<Rightarrow> bool" where
  "logs_ok us ats ls \<longleftrightarrow> unique a_id ats \<and> unique l_id ls \<and> (\<forall>l\<in>set ls. \<forall>i. l_user_id l = Some i \<longrightarrow> i \<in> u_id ` set us)"

definition db_ok :: "auth_world \<Rightarrow> bool" where
  "db_ok w \<longleftrightarrow> users_ok (users w) \<and> sessions_ok (users w) (refresh_sessions w) \<and>
     logs_ok (users w) (login_attempts w) (audit_logs w)"

lemma same_tables_ok: "same_tables w w' \<Longrightarrow> db_ok w' = db_ok w"
  by (simp add: same_tables_def db_ok_def)

lemma sessions_ok_users: "sessions_ok us rs \<Longrightarrow> u_id ` set us \<subseteq> u_id ` set us' \<Longrightarrow> sessions_ok us' rs"
  unfolding sessions_ok_def by blast

lemma logs_ok_users: "logs_ok us ats ls \<Longrightarrow> u_id ` set us \<subseteq> u_id ` set us' \<Longrightarrow> logs_ok us' ats ls"
  unfolding logs_ok_def by blast

lemma sessions_ok_snoc:
  assumes "sessions_ok us rs" "\<forall>x\<in>set rs. r_id x \<noteq> r_id r \<and> r_token_hash x \<noteq> r_token_hash r"
    "r_user_id r \<in> u_id ` set us" "r_replaced_by r = None"
  shows "sessions_ok us (rs @ [r])"
  using assms by (auto simp: sessions_ok_def unique_snoc replaced_ok_def split: option.splits)

lemma sessions_ok_update:
  assumes "sessions_ok us rs"
    "\<And>r. r_id (f r) = r_id r \<and> r_token_hash (f r) = r_token_hash r \<and> r_user_id (f r) = r_user_id r"
    "\<And>r. r \<in> set rs \<Longrightarrow> replaced_ok rs r \<Longrightarrow> replaced_ok rs (f r)"
  shows "sessions_ok us (map f rs)"
proof -
  have "r_id ` set (map f rs) = r_id ` set rs" using assms(2) by (auto simp: image_image)
  then have "replaced_ok (map f rs) = replaced_ok rs" by (simp add: replaced_ok_def fun_eq_iff split: option.split)
  then show ?thesis using assms by (auto simp: sessions_ok_def unique_update)
qed

subsection \<open>Statements keep it\<close>

definition keeps :: "'a statement \<Rightarrow> bool" where
  "keeps st \<longleftrightarrow> (\<forall>w. db_ok w \<longrightarrow> db_ok (snd (st w)))"

lemma keeps_send: "keeps st \<Longrightarrow> keeps (send st)"
  unfolding keeps_def
proof (intro allI impI)
  fix w assume st: "\<forall>w. db_ok w \<longrightarrow> db_ok (snd (st w))" and w: "db_ok w"
  obtain x w' where run: "send st w = (x, w')" by (metis prod.collapse)
  have popped: "db_ok (w\<lparr>faults := fs\<rparr>)" for fs using w by (simp add: db_ok_def)
  show "db_ok (snd (send st w))" using run by (cases rule: send_cases) (use st popped run in auto)
qed

lemma keeps_createUser: "keeps (createUser email hash)"
  unfolding keeps_def
proof (intro allI impI)
  fix w assume w: "db_ok w"
  obtain i v where i: "next_uuid w = (i, v)" and v: "same_tables w v" by (simp add: next_uuid_def same_tables_def)
  show "db_ok (snd (createUser email hash w))"
  proof (cases "list_ex (\<lambda>u. u_id u = i \<or> u_email u = email) (users v)")
    case True
    then show ?thesis using w v same_tables_ok i by (simp add: createUser_def)
  next
    case False
    have "users_ok (users w @ [row])" if "u_id row = i" "u_email row = email" for row
      using w False that v by (auto simp: db_ok_def users_ok_def unique_snoc list_ex_iff same_tables_def)
    moreover have "sessions_ok (users w @ rows) (refresh_sessions w)" "logs_ok (users w @ rows) (login_attempts w) (audit_logs w)" for rows
      using w by (auto simp: db_ok_def intro: sessions_ok_users logs_ok_users)
    ultimately show ?thesis using False i v by (simp add: createUser_def Let_def db_ok_def same_tables_def)
  qed
qed

lemma keeps_reads: "keeps (getUserByEmail email)" "keeps (getUserByID i)" "keeps (getRefreshSessionByHash h)" "keeps (\<lambda>w. (Inr (), w))"
  by (simp_all add: keeps_def getUserByEmail_def getUserByID_def getRefreshSessionByHash_def)

lemma keeps_createRefreshSession: "keeps (createRefreshSession p)"
  unfolding keeps_def
proof (intro allI impI)
  fix w assume w: "db_ok w"
  obtain i v where i: "next_uuid w = (i, v)" and v: "same_tables w v" by (simp add: next_uuid_def same_tables_def)
  let ?taken = "list_ex (\<lambda>r. r_id r = i \<or> r_token_hash r = sp_TokenHash p) (refresh_sessions v)"
  show "db_ok (snd (createRefreshSession p w))"
  proof (cases "?taken \<or> \<not> list_ex (\<lambda>u. u_id u = sp_UserID p) (users v)")
    case True
    then show ?thesis using w v same_tables_ok i by (auto simp: createRefreshSession_def)
  next
    case False
    then have user: "sp_UserID p \<in> u_id ` set (users w)" using v by (force simp: list_ex_iff same_tables_def)
    have "sessions_ok (users w) (refresh_sessions w @ [row])"
      if "r_id row = i" "r_token_hash row = sp_TokenHash p" "r_user_id row = sp_UserID p" "r_replaced_by row = None" for row
      using w False that v user by (intro sessions_ok_snoc) (auto simp: db_ok_def list_ex_iff same_tables_def)
    then show ?thesis using False i v w by (simp add: createRefreshSession_def Let_def db_ok_def same_tables_def)
  qed
qed

lemma keeps_revoke: "keeps (revokeRefreshSession i)"
  unfolding keeps_def
proof (intro allI impI)
  fix w assume "db_ok w"
  then show "db_ok (snd (revokeRefreshSession i w))"
    by (auto simp: db_ok_def revokeRefreshSession_def update_sessions_def replaced_ok_def intro!: sessions_ok_update split: option.splits)
qed

lemma revokeAndReplace_ok:
  assumes "db_ok w" "new \<in> r_id ` set (refresh_sessions w)"
  shows "db_ok (snd (revokeAndReplaceRefreshSession i new w))"
  using assms by (auto simp: db_ok_def revokeAndReplaceRefreshSession_def update_sessions_def replaced_ok_def
    intro!: sessions_ok_update split: option.splits)

lemma keeps_logs: "keeps (insertLoginAttempt email ip ok reason)" "keeps (insertAuditLog user action metadata ip ua)"
  by (auto simp: keeps_def insertLoginAttempt_def insertAuditLog_def next_uuid_def db_ok_def logs_ok_def unique_snoc list_ex_iff
    split: option.splits)

subsection \<open>Repository calls keep it\<close>

lemma call_runs:
  "snd (pg_CreateUser email hash w) = snd (send (createUser email hash) w)"
  "snd (pg_CredentialsByEmail email w) = snd (send (getUserByEmail email) w)"
  "snd (pg_UserByID i w) = snd (send (getUserByID i) w)"
  "snd (pg_CreateSession p w) = snd (send (createRefreshSession p) w)"
  "snd (pg_SessionByHash h w) = snd (send (getRefreshSessionByHash h) w)"
  "snd (pg_RevokeSession i w) = snd (send (revokeRefreshSession i) w)"
  "snd (pg_RecordLoginAttempt a w) = snd (send (insertLoginAttempt (la_Email a) (la_IP a) (la_Success a) (strPtr (la_Reason a))) w)"
  "snd (pg_WriteAudit e w) = snd (send (insertAuditLog (ae_UserID e) (ae_Action e) (ae_Metadata e) (ae_IP e) (ae_UserAgent e)) w)"
  by (simp_all add: pg_defs prog_run split: prod.split sum.split pg_error.split)

lemma rotation_keeps:
  assumes "db_ok w"
  shows "db_ok (snd (pg_RotateSession old p w))"
proof -
  obtain x w' where "pg_RotateSession old p w = (x, w')" by (metis prod.collapse)
  then show ?thesis
  proof (cases rule: rotate_steps)
    case undone
    then show ?thesis using assms same_tables_ok \<open>pg_RotateSession old p w = (x, w')\<close> by simp
  next
    case (through wb row wc u wd)
    have wb: "db_ok wb" using assms same_tables_ok through(1) by simp
    have wc: "db_ok wc" using keeps_send [OF keeps_createRefreshSession] wb through(2) unfolding keeps_def by (metis snd_conv)
    have "r_id row \<in> r_id ` set (refresh_sessions wc)"
      using through(2) by (auto simp: send_def createRefreshSession_def next_uuid_def Let_def split: list.splits fault.splits if_splits)
    moreover have "wd = snd (revokeAndReplaceRefreshSession old (r_id row) (wc\<lparr>faults := tl (faults wc)\<rparr>))"
      using through(3) by (cases rule: send_cases) auto
    moreover have "db_ok (wc\<lparr>faults := tl (faults wc)\<rparr>)" using wc by (simp add: db_ok_def)
    ultimately have "db_ok wd" by (auto intro: revokeAndReplace_ok)
    then show ?thesis using same_tables_ok through(4) \<open>pg_RotateSession old p w = (x, w')\<close> by simp
  qed
qed

interpretation schema: service_effects "NewService cr tokens ttl lower" "\<lambda>w w'. db_ok w \<longrightarrow> db_ok w'" for cr tokens ttl lower
proof unfold_locales
  show "db_ok w \<longrightarrow> db_ok (snd (sr_random (sv_sur (NewService cr tokens ttl lower)) n w))" for n w
    by (simp add: world_surroundings_def db_ok_def)
  show "db_ok w \<longrightarrow> db_ok (snd (sr_newUUID (sv_sur (NewService cr tokens ttl lower)) w))" for w
    by (simp add: world_surroundings_def next_uuid_def db_ok_def)
qed (use rotation_keeps keeps_send [OF keeps_createUser] keeps_send [OF keeps_reads(1)] keeps_send [OF keeps_reads(2)]
      keeps_send [OF keeps_reads(3)] keeps_send [OF keeps_createRefreshSession] keeps_send [OF keeps_revoke]
      keeps_send [OF keeps_logs(1)] keeps_send [OF keeps_logs(2)] in \<open>simp_all add: call_runs keeps_def\<close>)

subsection \<open>Runs of the service\<close>

datatype auth_call =
  CallRegister RegisterRequest RequestMeta | CallLogin LoginRequest RequestMeta | CallRefresh string RequestMeta
| CallLogout string RequestMeta | CallAuthenticate string

fun after_call :: "'s auth_service \<Rightarrow> auth_call \<Rightarrow> 's \<Rightarrow> 's" where
  "after_call sv (CallRegister req meta) s = snd (Register sv req meta s)"
| "after_call sv (CallLogin req meta) s = snd (Login sv req meta s)"
| "after_call sv (CallRefresh raw meta) s = snd (Refresh sv raw meta s)"
| "after_call sv (CallLogout raw meta) s = snd (Logout sv raw meta s)"
| "after_call sv (CallAuthenticate token) s = snd (Authenticate sv token s)"

text \<open>Between requests anything may change but the tables, where only the account flags may.\<close>

definition outside :: "auth_world \<Rightarrow> auth_world \<Rightarrow> bool" where
  "outside w w' \<longleftrightarrow> (\<exists>active. users w' = map (\<lambda>u. u\<lparr>u_is_active := active (u_id u)\<rparr>) (users w)) \<and>
     refresh_sessions w' = refresh_sessions w \<and> login_attempts w' = login_attempts w \<and> audit_logs w' = audit_logs w"

inductive auth_run :: "auth_world auth_service \<Rightarrow> auth_world \<Rightarrow> auth_world \<Rightarrow> bool" for sv where
  start: "auth_run sv w w"
| request: "auth_run sv w w1 \<Longrightarrow> auth_run sv w (after_call sv c w1)"
| elapse: "auth_run sv w w1 \<Longrightarrow> outside w1 w2 \<Longrightarrow> auth_run sv w w2"

lemma outside_ok:
  assumes "outside w w'"
  shows "db_ok w = db_ok w'"
proof -
  obtain active where us: "users w' = map (\<lambda>u. u\<lparr>u_is_active := active (u_id u)\<rparr>) (users w)"
    and rest: "refresh_sessions w' = refresh_sessions w" "login_attempts w' = login_attempts w" "audit_logs w' = audit_logs w"
    using assms by (auto simp: outside_def)
  have ids: "u_id ` set (users w') = u_id ` set (users w)" by (simp add: us image_image)
  then have "sessions_ok (users w') = sessions_ok (users w)" "logs_ok (users w') = logs_ok (users w)"
    by (auto simp: fun_eq_iff sessions_ok_def logs_ok_def)
  then show ?thesis by (simp add: db_ok_def rest users_ok_def us unique_update)
qed

lemma run_induct_call:
  assumes "auth_run sv w w'" "\<And>s. R s s" "\<And>s t u. R s t \<Longrightarrow> R t u \<Longrightarrow> R s u" "\<And>c s. R s (after_call sv c s)"
    "\<And>s t. outside s t \<Longrightarrow> R s t"
  shows "R w w'"
  using assms(1) by induction (use assms(2-5) in blast)+

text \<open>Whatever relation all service operations have, a run has.\<close>

context service_effects
begin

lemma call_effect: "R s (after_call sv c s)"
  by (cases c) (simp_all add: service_effects)

end

lemma run_keeps_schema: "auth_run (NewService cr tokens ttl lower) w w' \<Longrightarrow> db_ok w \<longrightarrow> db_ok w'"
  by (rule run_induct_call [where R = "\<lambda>w w'. db_ok w \<longrightarrow> db_ok w'"]) (use schema.call_effect outside_ok in auto)

lemma outside_sessions: "outside w w' \<Longrightarrow> sessions_of w' = sessions_of w"
  by (rule sessions_frame) (simp add: outside_def)

lemma run_evolves:
  assumes "auth_run (NewService cr tokens ttl lower) w w'"
  shows "evolves (sessions_of w) (sessions_of w')"
proof (rule run_induct_call [where R = "\<lambda>w w'. evolves (sessions_of w) (sessions_of w')", OF assms])
  show "evolves (sessions_of s) (sessions_of t)" if "outside s t" for s t using outside_sessions [OF that] by simp
qed (rule evolves_refl, erule (1) evolves_trans, rule store.evolving.call_effect)

end
