(* ===== verification/SessionProperties.thy ===== *)
theory SessionProperties
  imports AuthSchema
begin

section \<open>What holds of refresh tokens\<close>

text \<open>
  The properties of sessions, over any run of the deployed service: a rotated or logged out
  token is dead for good, a rotation changes two sessions and no other, the schema invariant.
\<close>

abbreviation hash_of :: "crypto \<Rightarrow> string \<Rightarrow> string" where
  "hash_of cr raw \<equiv> hashToken cr raw"

lemma dead_token:
  assumes "sessions_of w (hash_of cr raw) = Some r" "IsRevoked r"
  shows "\<exists>e w'. Refresh (NewService cr tokens ttl lower) raw meta w = (Inl e, w') \<and> sessions_of w' = sessions_of w \<and>
    (faults w = [] \<longrightarrow> e = Sentinel ErrInvalidRefresh)"
proof -
  obtain e w' where run: "Refresh (NewService cr tokens ttl lower) raw meta w = (Inl e, w')" "sessions_of w' = sessions_of w"
    using store.Refresh_dead [of w cr tokens ttl lower raw r meta] assms by auto
  moreover have "e = Sentinel ErrInvalidRefresh" if "faults w = []"
  proof (cases "raw = []")
    case False
    have "send (getRefreshSessionByHash (hash_of cr raw)) w = getRefreshSessionByHash (hash_of cr raw) w"
      using that by (simp add: send_def)
    moreover obtain row where "find (\<lambda>r. r_token_hash r = hash_of cr raw) (refresh_sessions w) = Some row" "sessionFromRow row = r"
      using assms(1) by (auto simp: sessions_of_def)
    ultimately have "pg_SessionByHash (hash_of cr raw) w = (Inr r, w)"
      by (simp add: pg_SessionByHash_def getRefreshSessionByHash_def one_row_def ret_def)
    then show ?thesis using run(1) False assms(2) by (simp add: Refresh_def catch_def Let_def)
  qed (use run(1) in \<open>simp add: Refresh_def\<close>)
  ultimately show ?thesis by blast
qed

lemma dead_forever:
  assumes "sessions_of w1 (hash_of cr raw) = Some r" "IsRevoked r" "auth_run (NewService cr tokens ttl lower) w1 w2"
  shows "\<exists>e w3. Refresh (NewService cr tokens ttl lower) raw meta w2 = (Inl e, w3) \<and> sessions_of w3 = sessions_of w2 \<and>
    (faults w2 = [] \<longrightarrow> e = Sentinel ErrInvalidRefresh)"
  using dead_token revoked_stays [OF run_evolves [OF assms(3)] assms(1,2)] assms(2) by blast

text \<open>C4. A refresh token is good for one refresh: once it has been exchanged, every later
  presentation of it, after whatever requests by whomever, fails and leaves all sessions as they
  are, with the 401 error unless the database itself fails.\<close>

theorem refresh_single_use:
  assumes "Refresh (NewService cr tokens ttl lower) raw meta w = (Inr res, w1)"
    and "auth_run (NewService cr tokens ttl lower) w1 w2"
  shows "\<exists>e w3. Refresh (NewService cr tokens ttl lower) raw meta' w2 = (Inl e, w3) \<and> sessions_of w3 = sessions_of w2 \<and>
    (faults w2 = [] \<longrightarrow> e = Sentinel ErrInvalidRefresh)"
proof -
  from store.Refresh_success [OF assms(1)] obtain r t where "sessions_of w1 (hash_of cr raw) = Some (r\<lparr>ss_RevokedAt := Some t\<rparr>)"
    using store.revoked_by_rotation [of _ _ w w1] by fastforce
  then show ?thesis using dead_forever assms(2) by (simp add: IsRevoked_def)
qed

text \<open>C19. A successful logout ends the session it names: no later presentation of its token
  succeeds. A token without a session changes nothing.\<close>

theorem logout_ends_session:
  assumes "Logout (NewService cr tokens ttl lower) raw meta w = (Inr (), w1)" "raw \<noteq> []"
    and "auth_run (NewService cr tokens ttl lower) w1 w2"
  shows "if sessions_of w (hash_of cr raw) = None then sessions_of w1 = sessions_of w
    else \<exists>e w3. Refresh (NewService cr tokens ttl lower) raw meta' w2 = (Inl e, w3) \<and> sessions_of w3 = sessions_of w2 \<and>
      (faults w2 = [] \<longrightarrow> e = Sentinel ErrInvalidRefresh)"
proof (cases "sessions_of w (hash_of cr raw)")
  case None
  then show ?thesis using store.Logout_success [OF assms(1,2)] by auto
next
  case (Some r)
  then obtain t where "sessions_of w1 = revoked_id (ss_ID r) t (sessions_of w)"
    using store.Logout_success [OF assms(1,2)] by auto
  then have "\<exists>r'. sessions_of w1 (hash_of cr raw) = Some r' \<and> IsRevoked r'"
    using Some by (auto simp: revoked_id_def IsRevoked_def)
  then show ?thesis using dead_forever [OF _ _ assms(3)] Some by auto
qed

text \<open>Under the schema invariant the ids of the sessions tell them apart.\<close>

lemma session_ids:
  assumes "db_ok w" "sessions_of w h = Some r" "sessions_of w k = Some q" "ss_ID r = ss_ID q"
  shows "h = k"
proof -
  obtain a where a: "find (\<lambda>r. r_token_hash r = h) (refresh_sessions w) = Some a" "r = sessionFromRow a"
    using assms(2) by (auto simp: sessions_of_def)
  obtain b where b: "find (\<lambda>r. r_token_hash r = k) (refresh_sessions w) = Some b" "q = sessionFromRow b"
    using assms(3) by (auto simp: sessions_of_def)
  have "a \<in> set (refresh_sessions w)" "b \<in> set (refresh_sessions w)" "r_token_hash a = h" "r_token_hash b = k"
    using a b by (auto simp: find_Some_iff)
  moreover have "inj_on r_id (set (refresh_sessions w))"
    using assms(1) by (simp add: db_ok_def sessions_ok_def unique_def distinct_map)
  ultimately show ?thesis using a b assms(4) by (auto simp: sessionFromRow_def inj_on_def)
qed

lemma revoked_id_single:
  assumes "db_ok w" "sessions_of w h = Some r" "\<not> IsRevoked r"
  shows "revoked_id (ss_ID r) t (sessions_of w) = (sessions_of w)(h \<mapsto> r\<lparr>ss_RevokedAt := Some t\<rparr>)"
proof
  fix k
  show "revoked_id (ss_ID r) t (sessions_of w) k = ((sessions_of w)(h \<mapsto> r\<lparr>ss_RevokedAt := Some t\<rparr>)) k"
  proof (cases "k = h \<or> sessions_of w k = None")
    case False
    then obtain q where q: "sessions_of w k = Some q" and "k \<noteq> h" by blast
    then have "ss_ID q \<noteq> ss_ID r" using session_ids [OF assms(1) q assms(2)] by blast
    then show ?thesis using q \<open>k \<noteq> h\<close> by (simp add: revoked_id_def)
  qed (use assms(2,3) in \<open>auto simp: revoked_id_def\<close>)
qed

text \<open>C18. A successful refresh found a live session for the token and did exactly two things to the
  sessions: it marked that one revoked, and it added a live one of the same user for the token it
  returns, expiring one lifetime after now.\<close>

theorem refresh_rotates:
  assumes "db_ok w" "Refresh (NewService cr tokens ttl lower) raw meta w = (Inr res, w1)"
  shows "\<exists>old new t. sessions_of w (hash_of cr raw) = Some old \<and> \<not> IsRevoked old \<and> After (ss_ExpiresAt old) (process_clock w) \<and>
    sessions_of w (hash_of cr (ar_RefreshToken res)) = None \<and>
    sessions_of w1 = (sessions_of w)(hash_of cr raw \<mapsto> old\<lparr>ss_RevokedAt := Some t\<rparr>, hash_of cr (ar_RefreshToken res) \<mapsto> new) \<and>
    ss_UserID new = ss_UserID old \<and> \<not> IsRevoked new \<and> ss_ExpiresAt new = timestamptz (time_Add (process_clock w) ttl)"
proof -
  let ?new = "hash_of cr (ar_RefreshToken res)"
  obtain r where r: "sessions_of w (hash_of cr raw) = Some r" "\<not> IsRevoked r" "After (ss_ExpiresAt r) (process_clock w)"
    and rot: "rotated (ss_ID r) (sessionParams (NewService cr tokens ttl lower) (ss_UserID r) (ar_RefreshToken res) meta (process_clock w))
      (sessions_of w) (sessions_of w1)"
    using store.Refresh_success [OF assms(2)] by (auto simp: world_surroundings_def)
  let ?p = "sessionParams (NewService cr tokens ttl lower) (ss_UserID r) (ar_RefreshToken res) meta (process_clock w)"
  obtain i t m where "created_as i ?p (sessions_of w) m" and w1: "sessions_of w1 = revoked_id (ss_ID r) t m"
    using rot unfolding rotated_def created_def by blast
  then have none: "sessions_of w ?new = None" and i: "i \<notin> ss_ID ` ran (sessions_of w)"
    and m: "m = (sessions_of w)(?new \<mapsto> new_session i ?p)"
    by (simp_all add: created_as_def sessionParams_def)
  have n: "ss_ID (new_session i ?p) = i" "ss_UserID (new_session i ?p) = ss_UserID r" "\<not> IsRevoked (new_session i ?p)"
    "ss_ExpiresAt (new_session i ?p) = timestamptz (time_Add (process_clock w) ttl)"
    by (simp_all add: new_session_def sessionParams_def IsRevoked_def)
  have "i \<noteq> ss_ID r" using i r(1) by (auto intro: ranI)
  then have "sessions_of w1 = (revoked_id (ss_ID r) t (sessions_of w))(?new \<mapsto> new_session i ?p)"
    using n(1) by (intro ext) (simp add: w1 m revoked_id_def)
  then show ?thesis using r n none revoked_id_single [OF assms(1) r(1,2)] by metis
qed

text \<open>C13. Whatever requests are served in whatever order, with statements failing before or after they
  ran, the tables keep unique keys, valid references, and every replaced session revoked and
  pointing to an existing successor.\<close>

theorem auth_schema_invariant:
  assumes "auth_run (NewService cr tokens ttl lower) w w'" "db_ok w"
  shows "db_ok w' \<and> (\<forall>r\<in>set (refresh_sessions w'). r_replaced_by r \<noteq> None \<longrightarrow> IsRevoked (sessionFromRow r))"
proof -
  have ok: "db_ok w'" using run_keeps_schema [OF assms(1)] assms(2) by blast
  moreover have "IsRevoked (sessionFromRow r)" if "r \<in> set (refresh_sessions w')" "r_replaced_by r \<noteq> None" for r
    using ok that by (auto simp: db_ok_def sessions_ok_def replaced_ok_def IsRevoked_def sessionFromRow_def)
  ultimately show ?thesis by blast
qed

end
