(* ===== verification/IssueProperties.thy ===== *)
theory IssueProperties
  imports SessionProperties
begin

section \<open>Issuing sessions: login, refresh, and the race between two refreshes\<close>

text \<open>
  Runs in a database that answers. \<open>can_issue\<close> says what issuing a session needs of the world: no
  fault ahead, a random token whose hash is not in use, an unused UUID, a signing function that
  signs. Then credentials that verify always get a session, a live token always gets
  refreshed, and two refreshes of one token that both read before either writes both succeed.
\<close>

definition can_issue :: "crypto \<Rightarrow> TokenManager \<Rightarrow> auth_world \<Rightarrow> bool" where
  "can_issue cr tokens w \<longleftrightarrow> faults w = [] \<and>
     (\<exists>b. random_supply w (random_next w) 32 = Inr b \<and> sessions_of w (hashToken cr (RawURLEncoding b)) = None) \<and>
     uuid_supply w (uuid_next w) \<notin> r_id ` set (refresh_sessions w) \<and>
     (\<forall>claims. \<exists>token. jwt_sign cr claims (tm_secret tokens) = Inr token)"

lemma calm_send: "faults w = [] \<Longrightarrow> send st w = st w"
  by (simp add: send_def)

lemma calm_lookup:
  assumes "faults w = []" "sessions_of w h = Some r"
  shows "pg_SessionByHash h w = (Inr r, w)"
  using assms by (auto simp: pg_SessionByHash_def getRefreshSessionByHash_def one_row_def sessions_of_def calm_send ret_def)

lemma can_issue_token:
  assumes "can_issue cr tokens w"
  shows "\<exists>raw. generateRefreshToken (world_surroundings str) w = (Inr raw, w\<lparr>random_next := random_next w + 1\<rparr>) \<and>
    sessions_of w (hashToken cr raw) = None"
  using assms by (auto simp: can_issue_def generateRefreshToken_def world_surroundings_def ret_def)

lemma hash_unused: "sessions_of w h = None \<longleftrightarrow> (\<forall>r\<in>set (refresh_sessions w). r_token_hash r \<noteq> h)"
  by (simp add: sessions_of_def find_None_iff) blast

lemma can_issue_row:
  assumes "can_issue cr tokens w" "sp_UserID p \<in> u_id ` set (users w)" "sessions_of w (sp_TokenHash p) = None"
  shows "\<exists>row w'. createRefreshSession p (w\<lparr>random_next := n\<rparr>) = (Inr row, w') \<and> faults w' = []"
proof -
  have "list_ex (\<lambda>u. u_id u = sp_UserID p) (users w)" using assms(2) by (auto simp: list_ex_iff)
  moreover have "\<not> list_ex (\<lambda>r. r_id r = uuid_supply w (uuid_next w) \<or> r_token_hash r = sp_TokenHash p) (refresh_sessions w)"
    using assms(1,3) by (auto simp: can_issue_def list_ex_iff hash_unused image_iff)
  ultimately show ?thesis using assms(1) by (simp add: createRefreshSession_def next_uuid_def Let_def can_issue_def)
qed

lemma can_issue_session:
  assumes "can_issue cr tokens w" "sp_UserID p \<in> u_id ` set (users w)" "sessions_of w (sp_TokenHash p) = None"
  shows "\<exists>i w'. pg_CreateSession p (w\<lparr>random_next := n\<rparr>) = (Inr i, w')"
    and "\<exists>i w'. pg_RotateSession old p (w\<lparr>random_next := n\<rparr>) = (Inr i, w')"
proof -
  obtain row w' where row: "createRefreshSession p (w\<lparr>random_next := n\<rparr>) = (Inr row, w')" "faults w' = []"
    using can_issue_row [OF assms] by blast
  have calm: "faults (w\<lparr>random_next := n\<rparr>) = []" using assms(1) by (simp add: can_issue_def)
  show "\<exists>i w'. pg_CreateSession p (w\<lparr>random_next := n\<rparr>) = (Inr i, w')"
    using row by (simp add: pg_CreateSession_def calm_send [OF calm] ret_def)
  show "\<exists>i w'. pg_RotateSession old p (w\<lparr>random_next := n\<rparr>) = (Inr i, w')"
    using row by (simp add: pg_RotateSession_def calm_send [OF calm] calm_send [OF row(2)] revokeAndReplaceRefreshSession_def
      commit_def update_sessions_def ret_def)
qed

lemma logs_succeed: "\<exists>s'. recordAttempt sv email meta ok reason s = (Inr (), s')" "\<exists>s'. audit sv i action meta s = (Inr (), s')"
  by (simp_all add: recordAttempt_def audit_def ignore_def)

lemma build_succeeds:
  assumes "can_issue cr tokens w0"
  shows "\<exists>res s'. buildResult (NewService cr tokens ttl lower) i raw now s = (Inr res, s')"
proof -
  have "\<exists>token. jwt_sign cr claims (tm_secret tokens) = Inr token" for claims
    using assms by (simp add: can_issue_def)
  then show ?thesis
    by (auto simp: buildResult_def MintAccessToken_def andThen_def ret_def Let_def split: prod.split sum.split)
      (metis sum.distinct(1))
qed

lemma andThen_succeeds: "p s = (Inr x, s1) \<Longrightarrow> \<exists>y s2. k x s1 = (Inr y, s2) \<Longrightarrow> \<exists>y s2. andThen p k s = (Inr y, s2)"
  by (simp add: andThen_def)

lemma session_user: "db_ok w \<Longrightarrow> sessions_of w h = Some r \<Longrightarrow> ss_UserID r \<in> u_id ` set (users w)"
  by (auto simp: db_ok_def sessions_ok_def sessions_of_def find_Some_iff sessionFromRow_def)

lemma write_succeeds:
  assumes "can_issue cr tokens w" "ss_UserID r \<in> u_id ` set (users w)"
  shows "\<exists>res w'. refresh_write (NewService cr tokens ttl lower) meta (now, r) w = (Inr res, w') \<and>
    sessions_of w (hash_of cr (ar_RefreshToken res)) = None"
proof -
  let ?sv = "NewService cr tokens ttl lower"
  obtain new where new: "generateRefreshToken (world_surroundings (uuid_String cr)) w = (Inr new, w\<lparr>random_next := random_next w + 1\<rparr>)"
    "sessions_of w (hash_of cr new) = None" using can_issue_token [OF assms(1)] by blast
  let ?p = "sessionParams ?sv (ss_UserID r) new meta now"
  have "sp_UserID ?p \<in> u_id ` set (users w)" "sessions_of w (sp_TokenHash ?p) = None"
    using assms(2) new(2) by (simp_all add: sessionParams_def)
  then obtain i w1 where rot: "pg_RotateSession (ss_ID r) ?p (w\<lparr>random_next := random_next w + 1\<rparr>) = (Inr i, w1)"
    using can_issue_session(2) [OF assms(1)] by blast
  obtain w2 where aud: "audit ?sv (ss_UserID r) ActionRefresh meta w1 = (Inr (), w2)"
    using logs_succeed(2) [of ?sv "ss_UserID r" ActionRefresh meta w1] by blast
  obtain res w3 where build: "buildResult ?sv (ss_UserID r) new now w2 = (Inr res, w3)"
    using build_succeeds [OF assms(1), of ttl lower "ss_UserID r" new now w2] by blast
  have "refresh_write ?sv meta (now, r) w = (Inr res, w3)"
    using new(1) rot aud build by (simp add: refresh_write_def andThen_def)
  then show ?thesis using new(2) store.buildResult_token [OF build] by blast
qed

lemma live_refresh:
  assumes "can_issue cr tokens w" "db_ok w" "raw \<noteq> []" "sessions_of w (hash_of cr raw) = Some r"
    "\<not> IsRevoked r" "After (ss_ExpiresAt r) (process_clock w)"
  shows "\<exists>res w'. Refresh (NewService cr tokens ttl lower) raw meta w = (Inr res, w')"
proof -
  have "refresh_read (NewService cr tokens ttl lower) raw w = (Inr (process_clock w, r), w)"
    using calm_lookup [OF _ assms(4)] assms by (simp add: refresh_read_def catch_def can_issue_def world_surroundings_def ret_def)
  then show ?thesis
    using write_succeeds [OF assms(1) session_user [OF assms(2,4)], of ttl lower meta "process_clock w"]
    by (auto simp: Refresh_split andThen_def)
qed

text \<open>C32. A live token can always be refreshed: as long as the database, the random source and the
  signer answer, presenting the token of an unrevoked, unexpired session succeeds.\<close>

theorem live_token_refreshes:
  assumes "can_issue cr tokens w" "db_ok w" "raw \<noteq> []" "sessions_of w (hash_of cr raw) = Some r"
    "\<not> IsRevoked r" "After (ss_ExpiresAt r) (process_clock w)"
  shows "\<exists>res w'. Refresh (NewService cr tokens ttl lower) raw meta w = (Inr res, w')"
  using assms by (rule live_refresh)

subsection \<open>Two refreshes of one token at once\<close>

lemma live_after_rotation:
  assumes "rotated old p (sessions_of w) (sessions_of w')" "old \<in> ss_ID ` ran (sessions_of w)"
  shows "\<exists>n. sessions_of w' (sp_TokenHash p) = Some n \<and> \<not> IsRevoked n \<and> ss_ID n \<noteq> old \<and> ss_UserID n = sp_UserID p"
proof -
  obtain i t where i: "i \<notin> ss_ID ` ran (sessions_of w)"
    and w': "sessions_of w' = revoked_id old t ((sessions_of w)(sp_TokenHash p \<mapsto> new_session i p))"
    using assms(1) by (auto simp: rotated_def created_def created_as_def)
  have "i \<noteq> old" using i assms(2) by blast
  then show ?thesis by (simp add: w' revoked_id_def new_session_def IsRevoked_def)
qed

text \<open>C31. Rotation does not hold a lock and does not look at the number of rows its UPDATE changed:
  when two requests have both read the session of one token before either writes, both
  get a new token, and afterwards both new sessions are live.\<close>

theorem refresh_race:
  assumes "db_ok w" "refresh_read (NewService cr tokens ttl lower) raw w = (Inr a, w1)"
    "refresh_read (NewService cr tokens ttl lower) raw w1 = (Inr b, w2)"
    "refresh_write (NewService cr tokens ttl lower) metaA a w2 = (Inr resA, w3)" "can_issue cr tokens w3"
  shows "\<exists>resB w4 n m. refresh_write (NewService cr tokens ttl lower) metaB b w3 = (Inr resB, w4) \<and>
    ar_RefreshToken resA \<noteq> ar_RefreshToken resB \<and>
    sessions_of w4 (hash_of cr (ar_RefreshToken resA)) = Some n \<and> \<not> IsRevoked n \<and>
    sessions_of w4 (hash_of cr (ar_RefreshToken resB)) = Some m \<and> \<not> IsRevoked m \<and> ss_UserID n = ss_UserID m"
proof -
  let ?sv = "NewService cr tokens ttl lower"
  obtain nowA rA nowB r where ab: "a = (nowA, rA)" "b = (nowB, r)" by (cases a; cases b)
  note readA = store.refresh_read_success [OF assms(2) [unfolded ab(1)]]
    and readB = store.refresh_read_success [OF assms(3) [unfolded ab(2)]]
  have same: "rA = r" "sessions_of w2 = sessions_of w" using readA readB by auto
  have r: "sessions_of w2 (hash_of cr raw) = Some r" "\<not> IsRevoked r" using readA same by auto
  let ?pA = "sessionParams ?sv (ss_UserID r) (ar_RefreshToken resA) metaA nowA"
  have rotA: "rotated (ss_ID r) ?pA (sessions_of w2) (sessions_of w3)"
    using store.refresh_write_success [OF assms(4) [unfolded ab(1)]] same by simp
  obtain n where n: "sessions_of w3 (sp_TokenHash ?pA) = Some n" "\<not> IsRevoked n" "ss_ID n \<noteq> ss_ID r" "ss_UserID n = ss_UserID r"
    using live_after_rotation [OF rotA] r(1) by (auto simp: ran_def sessionParams_def)
  obtain t where r3: "sessions_of w3 (hash_of cr raw) = Some (r\<lparr>ss_RevokedAt := Some t\<rparr>)"
    using store.revoked_by_rotation [OF rotA r] by blast
  have "db_ok w2" using assms(1,2,3) schema.moves_refresh_read unfolding schema.moves_def by (metis snd_conv)
  then have ok3: "db_ok w3" using assms(4) schema.moves_refresh_write unfolding schema.moves_def by (metis snd_conv)
  obtain resB w4 where writeB: "refresh_write ?sv metaB (nowB, r) w3 = (Inr resB, w4)"
    and unused: "sessions_of w3 (hash_of cr (ar_RefreshToken resB)) = None"
    using write_succeeds [OF assms(5), of r ttl lower metaB nowB] session_user [OF ok3 r3] by auto
  let ?new = "ar_RefreshToken resB" and ?pB = "sessionParams ?sv (ss_UserID r) (ar_RefreshToken resB) metaB nowB"
  have rotB': "rotated (ss_ID r) ?pB (sessions_of w3) (sessions_of w4)"
    using store.refresh_write_success [OF writeB] by simp
  have "r\<lparr>ss_RevokedAt := Some t\<rparr> \<in> ran (sessions_of w3)" using r3 by (rule ranI)
  then have "ss_ID r \<in> ss_ID ` ran (sessions_of w3)" by (rule rev_image_eqI) simp
  from live_after_rotation [OF rotB' this] obtain m
    where m: "sessions_of w4 (hash_of cr ?new) = Some m" "\<not> IsRevoked m" "ss_UserID m = ss_UserID r"
    by (auto simp: sessionParams_def)
  have n3: "sessions_of w3 (hash_of cr (ar_RefreshToken resA)) = Some n" using n(1) by (simp add: sessionParams_def)
  then have different: "hash_of cr (ar_RefreshToken resA) \<noteq> hash_of cr ?new" using unused by auto
  obtain j t' where "sessions_of w4 = revoked_id (ss_ID r) t' ((sessions_of w3)(hash_of cr ?new \<mapsto> new_session j ?pB))"
    using rotB' by (auto simp: rotated_def created_def created_as_def sessionParams_def)
  then have "sessions_of w4 (hash_of cr (ar_RefreshToken resA)) = Some n"
    using n3 n(3) different by (simp add: revoked_id_def)
  then show ?thesis using writeB ab(2) different m n(2,4) by metis
qed

end
