(* ===== verification/LoginProperties.thy ===== *)
theory LoginProperties
  imports IssueProperties
begin

section \<open>What holds of registration and login\<close>

lemma sent_user_read:
  assumes "send (\<lambda>w. (one_row P (users w), w)) w = (x, w')"
  shows "x = one_row P (users w) \<or> (\<exists>m. x = Inl (PgFailure m))"
  using assms by (elim send_cases) auto

lemma credentials_row:
  assumes "pg_CredentialsByEmail email w = (Inr creds, w')"
  shows "\<exists>row\<in>set (users w). u_email row = email \<and> creds = \<lparr>cd_User = userFromRow row, cd_PasswordHash = u_password_hash row\<rparr>"
proof -
  have "send (\<lambda>w. (one_row (\<lambda>u. u_email u = email) (users w), w)) w = send (getUserByEmail email) w"
    by (rule arg_cong [where f = "\<lambda>st. send st w"], rule ext) (simp add: getUserByEmail_def)
  moreover obtain row v where row: "send (getUserByEmail email) w = (Inr row, v)"
      "creds = \<lparr>cd_User = userFromRow row, cd_PasswordHash = u_password_hash row\<rparr>"
    using assms by (auto simp: pg_CredentialsByEmail_def split: prod.splits sum.splits pg_error.splits)
  ultimately have "one_row (\<lambda>u. u_email u = email) (users w) = Inr row"
    using sent_user_read [of "\<lambda>u. u_email u = email" w "Inr row" v] by simp
  then have "row \<in> set (users w) \<and> u_email row = email"
    by (auto simp: one_row_def find_Some_iff split: option.splits)
  then show ?thesis using row(2) by blast
qed

lemma login_session:
  assumes "Login (NewService cr tokens ttl lower) req meta w = (Inr res, w')"
  shows "\<exists>row\<in>set (users w). u_email row = normalizeEmail lower (lg_Email req) \<and> u_is_active row \<and>
    bcrypt_compare cr (u_password_hash row) (lg_Password req) \<and>
    (\<exists>new. sessions_of w' = (sessions_of w)(hash_of cr (ar_RefreshToken res) \<mapsto> new) \<and>
      sessions_of w (hash_of cr (ar_RefreshToken res)) = None \<and> ss_UserID new = u_id row \<and> \<not> IsRevoked new)"
proof -
  obtain creds u where creds: "pg_CredentialsByEmail (normalizeEmail lower (lg_Email req)) w = (Inr creds, u)"
    "bcrypt_compare cr (cd_PasswordHash creds) (lg_Password req)" "us_IsActive (cd_User creds)"
    and made: "created (sessionParams (NewService cr tokens ttl lower) (us_ID (cd_User creds)) (ar_RefreshToken res) meta (process_clock u))
      (sessions_of w) (sessions_of w')"
    using store.Login_success [OF assms] by (auto simp: world_surroundings_def)
  obtain row where row: "row \<in> set (users w)" "u_email row = normalizeEmail lower (lg_Email req)"
    "creds = \<lparr>cd_User = userFromRow row, cd_PasswordHash = u_password_hash row\<rparr>"
    using credentials_row [OF creds(1)] by blast
  have "\<exists>new. sessions_of w' = (sessions_of w)(hash_of cr (ar_RefreshToken res) \<mapsto> new) \<and>
      sessions_of w (hash_of cr (ar_RefreshToken res)) = None \<and> ss_UserID new = u_id row \<and> \<not> IsRevoked new"
    using made row(3) by (auto simp: created_def created_as_def sessionParams_def new_session_def IsRevoked_def userFromRow_def)
  then show ?thesis using row creds(2,3) by (auto simp: userFromRow_def)
qed

text \<open>C11. No session without credentials: a successful login is one whose password verifies against the
  stored hash of an active account with the normalised address, and the one session it adds is
  this account's, live, and found under the hash of the returned token.\<close>

theorem login_requires_credentials:
  assumes "Login (NewService cr tokens ttl lower) req meta w = (Inr res, w')"
  shows "\<exists>row\<in>set (users w). u_email row = normalizeEmail lower (lg_Email req) \<and> u_is_active row \<and>
    bcrypt_compare cr (u_password_hash row) (lg_Password req) \<and>
    (\<exists>new. sessions_of w' = (sessions_of w)(hash_of cr (ar_RefreshToken res) \<mapsto> new) \<and>
      sessions_of w (hash_of cr (ar_RefreshToken res)) = None \<and> ss_UserID new = u_id row \<and> \<not> IsRevoked new)"
  using assms by (rule login_session)

text \<open>One recorded attempt in a database that answers.\<close>

definition logged_attempt :: "string \<Rightarrow> RequestMeta \<Rightarrow> string \<Rightarrow> auth_world \<Rightarrow> auth_world" where
  "logged_attempt email meta reason w = w\<lparr>uuid_next := uuid_next w + 1, login_attempts := login_attempts w @
     [\<lparr>a_id = uuid_supply w (uuid_next w), a_email = email, a_ip_address = meta_IP meta, a_success = False,
       a_reason = Some reason, a_created_at = server_clock w\<rparr>]\<rparr>"

lemma attempt_recorded:
  assumes "faults w = []" "uuid_supply w (uuid_next w) \<notin> a_id ` set (login_attempts w)" "reason \<noteq> []"
  shows "recordAttempt (NewService cr tokens ttl lower) email meta False reason w = (Inr (), logged_attempt email meta reason w)"
  using assms by (auto simp: recordAttempt_def ignore_def pg_RecordLoginAttempt_def calm_send insertLoginAttempt_def
    next_uuid_def list_ex_iff image_iff Let_def strPtr_def ret_def logged_attempt_def)

text \<open>An unknown address and a wrong password are one outcome to the client: the same error in both
  cases, no session, and only the attempt log tells them apart. An inactive account is
  reported only once its password has verified.\<close>

theorem login_failures:
  assumes "faults w = []" "uuid_supply w (uuid_next w) \<notin> a_id ` set (login_attempts w)"
    and "normalizeEmail lower (lg_Email req) \<noteq> []" "lg_Password req \<noteq> []"
  shows "case find (\<lambda>u. u_email u = normalizeEmail lower (lg_Email req)) (users w) of
      None \<Rightarrow> Login (NewService cr tokens ttl lower) req meta w =
        (Inl (Sentinel ErrInvalidCredentials), logged_attempt (normalizeEmail lower (lg_Email req)) meta ''unknown_email'' w)
    | Some row \<Rightarrow>
        if \<not> bcrypt_compare cr (u_password_hash row) (lg_Password req)
        then Login (NewService cr tokens ttl lower) req meta w =
          (Inl (Sentinel ErrInvalidCredentials), logged_attempt (normalizeEmail lower (lg_Email req)) meta ''bad_password'' w)
        else \<not> u_is_active row \<longrightarrow> Login (NewService cr tokens ttl lower) req meta w =
          (Inl (Sentinel ErrInactiveUser), logged_attempt (normalizeEmail lower (lg_Email req)) meta ''inactive'' w)"
proof -
  let ?email = "normalizeEmail lower (lg_Email req)"
  have read: "pg_CredentialsByEmail ?email w = (case find (\<lambda>u. u_email u = ?email) (users w) of
      None \<Rightarrow> (Inl (Sentinel ErrUserNotFound), w)
    | Some row \<Rightarrow> (Inr \<lparr>cd_User = userFromRow row, cd_PasswordHash = u_password_hash row\<rparr>, w))"
    using assms(1) by (simp add: pg_CredentialsByEmail_def calm_send getUserByEmail_def one_row_def ret_def fail_def split: option.split)
  show ?thesis
    using assms(3,4) attempt_recorded [OF assms(1,2)]
    by (auto simp: Login_def Let_def catch_def andThen_def fail_def read userFromRow_def split: option.split)
qed

subsection \<open>Accounts last\<close>

text \<open>No operation changes an account: every row stays, with its id, address and password hash.\<close>

definition same_account :: "user_row \<Rightarrow> user_row \<Rightarrow> bool" where
  "same_account u u' \<longleftrightarrow> u' = u\<lparr>u_is_active := u_is_active u'\<rparr>"

definition accounts_last :: "auth_world \<Rightarrow> auth_world \<Rightarrow> bool" where
  "accounts_last w w' \<longleftrightarrow> (\<forall>u\<in>set (users w). \<exists>u'\<in>set (users w'). same_account u u')"

lemma same_account_refl: "same_account u u"
  by (simp add: same_account_def)

lemma same_account_trans: "same_account u v \<Longrightarrow> same_account v z \<Longrightarrow> same_account u z"
  by (metis same_account_def user_row.select_convs(4) user_row.surjective user_row.update_convs(4))

lemma accounts_trans: "accounts_last a b \<Longrightarrow> accounts_last b c \<Longrightarrow> accounts_last a c"
  unfolding accounts_last_def using same_account_trans by blast

lemma accounts_same: "users w' = users w \<Longrightarrow> accounts_last w w'"
  using same_account_refl by (auto simp: accounts_last_def)

lemma users_frame:
  "users (snd (send st w)) = users w" if "\<And>w. users (snd (st w)) = users w" for st
  using that by (simp add: send_def Let_def split: list.split fault.split)

lemma statements_users:
  "users (snd (getUserByEmail email w)) = users w" "users (snd (getUserByID i w)) = users w"
  "users (snd (createRefreshSession p w)) = users w" "users (snd (getRefreshSessionByHash h w)) = users w"
  "users (snd (revokeRefreshSession i w)) = users w"
  "users (snd (insertLoginAttempt em ip ok reason w)) = users w" "users (snd (insertAuditLog u ac me ip ua w)) = users w"
  by (simp_all add: getUserByEmail_def getUserByID_def createRefreshSession_def getRefreshSessionByHash_def revokeRefreshSession_def
    update_sessions_def insertLoginAttempt_def insertAuditLog_def next_uuid_def Let_def split: option.split)

lemma rotation_users: "users (snd (pg_RotateSession old p w)) = users w"
proof -
  obtain x w' where run: "pg_RotateSession old p w = (x, w')" by (metis prod.collapse)
  then show ?thesis
  proof (cases rule: rotate_steps)
    case (through wb row wc u wd)
    have "users wc = users wb" using users_frame [of "createRefreshSession p" wb, OF statements_users(3)] through(2) by simp
    moreover have "users wd = users wc"
      using session_statements_frame(2) [of wc old "r_id row"] through(3) by (simp add: same_tables_def)
    ultimately show ?thesis using run through(1,4) by (simp add: same_tables_def)
  qed (use run in \<open>simp add: same_tables_def\<close>)
qed

lemma createUser_accounts: "accounts_last w (snd (send (createUser email hash) w))"
proof -
  have grows: "set (users v) \<subseteq> set (users (snd (createUser email hash v)))" for v
    by (auto simp: createUser_def next_uuid_def Let_def)
  obtain x w' where run: "send (createUser email hash) w = (x, w')" by (metis prod.collapse)
  then have "set (users w) \<subseteq> set (users w')"
  proof (cases rule: send_cases)
    case (ran w1)
    then show ?thesis using grows [of w1] by simp
  qed simp
  then show ?thesis using run same_account_refl by (auto simp: accounts_last_def)
qed

interpretation accounts: service_effects "NewService cr tokens ttl lower" accounts_last for cr tokens ttl lower
proof unfold_locales
  show "accounts_last w (snd (sr_random (sv_sur (NewService cr tokens ttl lower)) n w))" for n w
    by (rule accounts_same) (simp add: world_surroundings_def)
  show "accounts_last w (snd (sr_newUUID (sv_sur (NewService cr tokens ttl lower)) w))" for w
    by (rule accounts_same) (simp add: world_surroundings_def next_uuid_def)
qed (auto intro: accounts_same accounts_trans createUser_accounts simp: call_runs rotation_users users_frame statements_users)

lemma outside_accounts: "outside w w' \<Longrightarrow> accounts_last w w'"
  by (auto simp: outside_def accounts_last_def same_account_def)

lemma run_accounts: "auth_run (NewService cr tokens ttl lower) w w' \<Longrightarrow> accounts_last w w'"
  by (rule run_induct_call [where R = accounts_last])
    (auto intro: accounts_same accounts_trans outside_accounts accounts.call_effect)

subsection \<open>From registration to login\<close>

lemma registered_row:
  assumes "Register (NewService cr tokens ttl lower) rg meta w = (Inr resp, w1)"
  shows "\<exists>row\<in>set (users w1). \<exists>salt. u_id row = rgr_ID resp \<and> u_email row = normalizeEmail lower (rg_Email rg) \<and>
    bcrypt_generate cr salt (rg_Password rg) bcryptCost = Inr (u_password_hash row)"
proof -
  let ?sv = "NewService cr tokens ttl lower" and ?email = "normalizeEmail lower (rg_Email rg)"
  obtain hash u user u2 where gen: "generatePassword ?sv (rg_Password rg) w = (Inr hash, u)"
    and cre: "pg_CreateUser ?email hash u = (Inr user, u2)"
    and aud: "audit ?sv (us_ID user) ActionRegister meta u2 = (Inr (), w1)" and resp: "rgr_ID resp = us_ID user"
    using assms by (auto simp: Register_def Let_def andThen_Inr split: if_splits)
  obtain salt where salt: "bcrypt_generate cr salt (rg_Password rg) bcryptCost = Inr hash"
    using gen by (auto simp: generatePassword_def split: prod.splits sum.splits)
  obtain row where row: "send (createUser ?email hash) u = (Inr row, u2)" "user = userFromRow row"
    using cre by (auto simp: pg_CreateUser_def split: prod.splits sum.splits pg_error.splits)
  have "row \<in> set (users u2) \<and> u_email row = ?email \<and> u_password_hash row = hash"
    using row(1) by (elim send_cases) (auto simp: createUser_def next_uuid_def Let_def split: if_splits)
  moreover have "users w1 = users u2"
    using aud users_frame [OF statements_users(7)] by (auto simp: audit_def ignore_def call_runs)
  ultimately show ?thesis using salt resp row(2) by (auto simp: userFromRow_def)
qed

lemma credentials_log_in:
  assumes "can_issue cr tokens w" "find (\<lambda>u. u_email u = normalizeEmail lower (lg_Email req)) (users w) = Some row"
    and "normalizeEmail lower (lg_Email req) \<noteq> []" "lg_Password req \<noteq> []"
    and "bcrypt_compare cr (u_password_hash row) (lg_Password req)" "u_is_active row"
  shows "\<exists>res w'. Login (NewService cr tokens ttl lower) req meta w = (Inr res, w')"
proof -
  let ?sv = "NewService cr tokens ttl lower" and ?email = "normalizeEmail lower (lg_Email req)"
  have creds: "pg_CredentialsByEmail ?email w = (Inr \<lparr>cd_User = userFromRow row, cd_PasswordHash = u_password_hash row\<rparr>, w)"
    using assms(1,2) by (simp add: pg_CredentialsByEmail_def can_issue_def calm_send getUserByEmail_def one_row_def ret_def)
  obtain raw where raw: "generateRefreshToken (world_surroundings (uuid_String cr)) w = (Inr raw, w\<lparr>random_next := random_next w + 1\<rparr>)"
    "sessions_of w (hash_of cr raw) = None" using can_issue_token [OF assms(1)] by blast
  let ?p = "sessionParams ?sv (u_id row) raw meta (process_clock w)"
  have "sp_UserID ?p \<in> u_id ` set (users w)" "sessions_of w (sp_TokenHash ?p) = None"
    using assms(2) raw(2) by (auto simp: sessionParams_def find_Some_iff)
  then obtain i v1 where "pg_CreateSession ?p (w\<lparr>random_next := random_next w + 1\<rparr>) = (Inr i, v1)"
    using can_issue_session(1) [OF assms(1)] by blast
  moreover obtain v2 where "recordAttempt ?sv ?email meta True [] v1 = (Inr (), v2)"
    using logs_succeed(1) [of ?sv ?email meta True "[]" v1] by blast
  moreover obtain v3 where "audit ?sv (u_id row) ActionLogin meta v2 = (Inr (), v3)"
    using logs_succeed(2) [of ?sv "u_id row" ActionLogin meta v2] by blast
  moreover obtain res w' where "buildResult ?sv (u_id row) raw (process_clock w) v3 = (Inr res, w')"
    using build_succeeds [OF assms(1), of ttl lower "u_id row" raw "process_clock w" v3] by blast
  ultimately have "Login ?sv req meta w = (Inr res, w')"
    using assms(3-6) creds raw(1)
    by (simp add: Login_def Let_def catch_def andThen_def userFromRow_def world_surroundings_def)
  then show ?thesis by blast
qed

lemma same_account_fields: "same_account u u' \<Longrightarrow> u_id u' = u_id u \<and> u_email u' = u_email u \<and> u_password_hash u' = u_password_hash u"
  unfolding same_account_def by (metis user_row.select_convs(1,2,3) user_row.surjective user_row.update_convs(4))

lemma user_by_email: "db_ok w \<Longrightarrow> u \<in> set (users w) \<Longrightarrow> find (\<lambda>x. u_email x = u_email u) (users w) = Some u"
  by (simp add: unique_find db_ok_def users_ok_def)

text \<open>C33. Who registered can log in: after a successful registration and any further traffic, the same
  password with any spelling of the address that normalises alike opens a live session of the account,
  while it is active and the database, the random source and the signer answer.\<close>

theorem registered_account_logs_in:
  assumes "Register (NewService cr tokens ttl lower) rg meta w = (Inr resp, w1)" "db_ok w"
    and "auth_run (NewService cr tokens ttl lower) w1 w2" "can_issue cr tokens w2"
    and "\<forall>u\<in>set (users w2). u_id u = rgr_ID resp \<longrightarrow> u_is_active u"
    and "\<forall>salt h. bcrypt_generate cr salt (rg_Password rg) bcryptCost = Inr h \<longrightarrow> bcrypt_compare cr h (rg_Password rg)"
    and "normalizeEmail lower address = normalizeEmail lower (rg_Email rg)"
  shows "\<exists>res w3 new. Login (NewService cr tokens ttl lower) \<lparr>lg_Email = address, lg_Password = rg_Password rg\<rparr> meta' w2 = (Inr res, w3) \<and>
    sessions_of w3 (hash_of cr (ar_RefreshToken res)) = Some new \<and> ss_UserID new = rgr_ID resp \<and> \<not> IsRevoked new"
proof -
  let ?sv = "NewService cr tokens ttl lower" and ?email = "normalizeEmail lower address"
  let ?req = "\<lparr>lg_Email = address, lg_Password = rg_Password rg\<rparr>"
  have input: "?email \<noteq> []" "rg_Password rg \<noteq> []" using assms(1,7) by (auto simp: Register_def Let_def split: if_splits)
  have ok: "db_ok w2"
    using schema.service_effects(1) [of w cr tokens ttl lower rg meta] assms(1,2) run_keeps_schema [OF assms(3)] by simp
  obtain row0 salt where row0: "row0 \<in> set (users w1)" "u_id row0 = rgr_ID resp" "u_email row0 = ?email"
    "bcrypt_generate cr salt (rg_Password rg) bcryptCost = Inr (u_password_hash row0)"
    using registered_row [OF assms(1)] assms(7) by metis
  then obtain row where row: "row \<in> set (users w2)" "same_account row0 row"
    using run_accounts [OF assms(3)] unfolding accounts_last_def by blast
  then have fields: "u_id row = rgr_ID resp" "u_email row = ?email" "u_password_hash row = u_password_hash row0"
    using row0 same_account_fields by metis+
  have found: "find (\<lambda>u. u_email u = ?email) (users w2) = Some row"
    using user_by_email [OF ok row(1)] fields(2) by simp
  have "bcrypt_compare cr (u_password_hash row) (rg_Password rg)" "u_is_active row"
    using assms(5,6) row0(4) row(1) fields by auto
  then obtain res w3 where run: "Login ?sv ?req meta' w2 = (Inr res, w3)"
    using credentials_log_in [OF assms(4), of lower ?req row ttl meta'] found input by auto
  obtain u new where u: "u \<in> set (users w2)" "u_email u = ?email" "ss_UserID new = u_id u" "\<not> IsRevoked new"
    and new: "sessions_of w3 = (sessions_of w2)(hash_of cr (ar_RefreshToken res) \<mapsto> new)"
    using login_session [OF run] by auto
  have "u = row" using user_by_email [OF ok u(1)] found u(2) by simp
  then show ?thesis using run new u(3,4) fields(1) by simp
qed

subsection \<open>Access tokens\<close>

text \<open>What the JWT library promises for HS256: parsing a token it signed hands the key function the
  HMAC method and, under the key it was signed with, gives the claims back until they expire.\<close>

definition jwt_laws :: "crypto \<Rightarrow> string \<Rightarrow> bool" where
  "jwt_laws cr secret \<longleftrightarrow> (\<forall>claims token now key. jwt_sign cr claims secret = Inr token \<longrightarrow>
     jwt_parse cr now key token = (case key (SigningMethodHMAC ''HS256'') of
         Inl e \<Rightarrow> Inl e
       | Inr k \<Rightarrow> if k \<noteq> secret then Inl ''signature is invalid''
           else if unixSec now < cl_ExpiresAt claims then Inr (claims, True) else Inl ''token is expired''))"

text \<open>C20. An access token names its user exactly until it expires: minted with a lifetime of whole seconds, it
  authenticates the account, as long as this is active, before the second \<open>iat + expires_in\<close> and never after it.\<close>

theorem access_token_lifetime:
  assumes "MintAccessToken cr sur tokens userID now s = (Inr (token, expiresIn), s')"
    and "jwt_laws cr (tm_secret tokens)" "uuid_Parse cr (uuid_String cr userID) = Inr userID"
    and "0 \<le> tm_accessTTL tokens" "tm_accessTTL tokens < 2 ^ 63" "tm_accessTTL tokens mod 1000000000 = 0"
      "0 \<le> nsec now" "nsec now < 1000000000"
    and "faults w = []" "db_ok w" "row \<in> set (users w)" "u_id row = userID"
  shows "fst (Authenticate (NewService cr tokens ttl lower) token w) =
    (if unixSec (process_clock w) < unixSec now + expiresIn \<and> u_is_active row then Inr (userFromRow row)
     else Inl (Sentinel ErrInvalidToken))"
proof -
  obtain claims where sign: "jwt_sign cr claims (tm_secret tokens) = Inr token"
    and claims: "cl_Subject claims = uuid_String cr userID" "cl_Typ claims = accessTokenType"
      "cl_ExpiresAt claims = unixSec (time_Add now (tm_accessTTL tokens))"
    and "expiresIn = int_of_f64 (duration_Seconds (tm_accessTTL tokens))"
    using assms(1) by (auto simp: MintAccessToken_def Let_def split: prod.splits sum.splits)
  then have exp: "expiresIn = tm_accessTTL tokens div 1000000000" using duration_whole_seconds assms(4-6) by simp
  have "(nsec now + tm_accessTTL tokens) div 1000000000 = expiresIn"
  proof -
    have "tm_accessTTL tokens = expiresIn * 1000000000" using exp assms(6) by auto
    then have "(nsec now + tm_accessTTL tokens) div 1000000000 = expiresIn + nsec now div 1000000000" by simp
    also have "nsec now div 1000000000 = 0" using assms(7,8) by simp
    finally show ?thesis by simp
  qed
  then have until: "cl_ExpiresAt claims = unixSec now + expiresIn" using claims(3) by (simp add: time_Add_def)
  have "unique u_id (users w)" using assms(10) by (simp add: db_ok_def users_ok_def)
  from unique_find [OF this assms(11)] have row: "pg_UserByID userID w = (Inr (userFromRow row), w)"
    using assms(9,12) by (simp add: pg_UserByID_def calm_send getUserByID_def one_row_def ret_def)
  have "jwt_parse cr (process_clock w) (access_key tokens) token =
      (if unixSec (process_clock w) < unixSec now + expiresIn then Inr (claims, True) else Inl ''token is expired'')"
    using assms(2) sign until unfolding jwt_laws_def by (simp add: access_key_def)
  then show ?thesis
    using claims assms(3) row
    by (simp add: Authenticate_def VerifyAccessToken_def catch_def fail_def ret_def world_surroundings_def userFromRow_def)
qed

end
