(* ===== verification/Requests.thy ===== *)
theory Requests
  imports Httpx
begin

section \<open>HTTP requests and handlers\<close>

text \<open>
  What the handlers read of an \<open>http.Request\<close>: \<open>URL.Query().Get\<close>, \<open>Header.Get\<close>, \<open>RemoteAddr\<close>, the value
  of a named cookie, the body, and the value of type \<open>'u\<close> a middleware put into the context. A
  handler maps a request and the world to a response and the world; a middleware maps handlers
  to handlers.
\<close>

record 'u http_request =
  rq_Query :: "string \<Rightarrow> string"
  rq_Header :: "string \<Rightarrow> string"
  rq_RemoteAddr :: string
  rq_Cookie :: "string \<Rightarrow> string option"
  rq_Body :: string
  rq_User :: "'u option"

type_synonym ('s, 'u, 'p) handler = "'u http_request \<Rightarrow> 's \<Rightarrow> 'p http_response \<times> 's"
type_synonym ('s, 'u, 'p) middleware = "('s, 'u, 'p) handler \<Rightarrow> ('s, 'u, 'p) handler"

text \<open>A handler is registered with the method and the path it answers. The endpoints of a router write payloads of
  different types; \<open>embed\<close> injects them into one.\<close>

type_synonym ('s, 'u, 'p) route = "string \<times> string \<times> ('s, 'u, 'p) handler"

fun map_body :: "('p \<Rightarrow> 'q) \<Rightarrow> 'p http_body \<Rightarrow> 'q http_body" where
  "map_body f (Json p) = Json (f p)"
| "map_body f (ErrorJson code message) = ErrorJson code message"
| "map_body f (PlainText t) = PlainText t"
| "map_body f NoBody = NoBody"

definition map_response :: "('p \<Rightarrow> 'q) \<Rightarrow> 'p http_response \<Rightarrow> 'q http_response" where
  "map_response f resp = \<lparr>hr_Status = hr_Status resp, hr_Headers = hr_Headers resp, hr_Body = map_body f (hr_Body resp)\<rparr>"

definition embed :: "('p \<Rightarrow> 'q) \<Rightarrow> ('s, 'u, 'p) handler \<Rightarrow> ('s, 'u, 'q) handler" where
  "embed f h r s = (case h r s of (resp, s) \<Rightarrow> (map_response f resp, s))"

text \<open>A handler over one component of a pair of worlds.\<close>

definition handler_fst :: "('a, 'u, 'p) handler \<Rightarrow> ('a \<times> 'b, 'u, 'p) handler" where
  "handler_fst h r w = (case h r (fst w) of (resp, a) \<Rightarrow> (resp, a, snd w))"

definition handler_snd :: "('b, 'u, 'p) handler \<Rightarrow> ('a \<times> 'b, 'u, 'p) handler" where
  "handler_snd h r w = (case h r (snd w) of (resp, b) \<Rightarrow> (resp, fst w, b))"

lemma map_response_status [simp]: "hr_Status (map_response f resp) = hr_Status resp"
  by (simp add: map_response_def)

lemma map_response_WriteError [simp]: "map_response f (WriteError n c m) = WriteError n c m"
  by (simp add: map_response_def WriteError_def)

end
