(* ===== verification/AuthHttp.thy ===== *)
theory AuthHttp
  imports AuthService Requests
begin

section \<open>The auth endpoints\<close>

text \<open>
  \<open>internal/auth/middleware.go\<close> and \<open>handler.go\<close>. The service is passed as its operations, as the Go
  interfaces \<open>authService\<close> and \<open>authenticator\<close> do. Decoding a JSON body is a parameter; the
  payloads here always encode.
\<close>

type_synonym 's authenticator = "string \<Rightarrow> ('s, auth_error, User) prog"

record 's authService =
  as_Register :: "RegisterRequest \<Rightarrow> RequestMeta \<Rightarrow> ('s, auth_error, RegisterResponse) prog"
  as_Login :: "LoginRequest \<Rightarrow> RequestMeta \<Rightarrow> ('s, auth_error, authResult) prog"
  as_Refresh :: "string \<Rightarrow> RequestMeta \<Rightarrow> ('s, auth_error, authResult) prog"
  as_Logout :: "string \<Rightarrow> RequestMeta \<Rightarrow> ('s, auth_error, unit) prog"

definition service_operations :: "'s auth_service \<Rightarrow> 's authService" where
  "service_operations sv = \<lparr>as_Register = Register sv, as_Login = Login sv, as_Refresh = Refresh sv, as_Logout = Logout sv\<rparr>"

record CookieConfig =
  cc_Name :: string
  cc_Path :: string
  cc_Secure :: bool
  cc_SameSite :: SameSite
  cc_MaxAge :: int

record json_bodies =
  decode_register :: "string \<Rightarrow> RegisterRequest option"
  decode_login :: "string \<Rightarrow> LoginRequest option"

datatype auth_payload =
  RegisterPayload RegisterResponse | LoginPayload LoginResponse | LogoutPayload string | MePayload MeResponse

subsection \<open>The middleware\<close>

text \<open>\<open>strings.EqualFold\<close> against this prefix: none of its letters has a fold outside ASCII.\<close>

definition bearerToken :: "'u http_request \<Rightarrow> string" where
  "bearerToken r =
     (let prefix = ''Bearer ''; h = rq_Header r ''Authorization'' in
      if length prefix < length h \<and> map lower_byte (take (length prefix) h) = map lower_byte prefix
      then TrimSpace (drop (length prefix) h) else [])"

definition WithUser :: "User http_request \<Rightarrow> User \<Rightarrow> User http_request" where
  "WithUser r u = r\<lparr>rq_User := Some u\<rparr>"

definition UserFromContext :: "User http_request \<Rightarrow> User option" where
  "UserFromContext r = rq_User r"

definition AuthMiddleware :: "'s authenticator \<Rightarrow> ('s, User, 'p) middleware" where
  "AuthMiddleware authenticate next r s =
     (let token = bearerToken r in
      if token = [] then (WriteError 401 ''unauthorized'' ''authentication required'', s)
      else case authenticate token s of
          (Inl err, s) \<Rightarrow>
            if errors_Is err ErrInvalidToken then (WriteError 401 ''unauthorized'' ''invalid or expired access token'', s)
            else (WriteInternalError ''could not authenticate request'', s)
        | (Inr user, s) \<Rightarrow> next (WithUser r user) s)"

subsection \<open>The handlers\<close>

definition clientIP :: "'u http_request \<Rightarrow> netip_addr option" where
  "clientIP r = ParseAddr (case SplitHostPort (rq_RemoteAddr r) of None \<Rightarrow> rq_RemoteAddr r | Some (host, port) \<Rightarrow> host)"

definition requestMeta :: "'u http_request \<Rightarrow> RequestMeta" where
  "requestMeta r =
     \<lparr>meta_IP = clientIP r,
      meta_UserAgent = (let ua = rq_Header r ''User-Agent'' in if ua \<noteq> [] then Some ua else None)\<rparr>"

definition readRefreshCookie :: "CookieConfig \<Rightarrow> 'u http_request \<Rightarrow> string" where
  "readRefreshCookie cfg r = (case rq_Cookie r (cc_Name cfg) of None \<Rightarrow> [] | Some v \<Rightarrow> v)"

definition setRefreshCookie :: "CookieConfig \<Rightarrow> string \<Rightarrow> header" where
  "setRefreshCookie cfg value = SetCookie \<lparr>ck_Name = cc_Name cfg, ck_Value = value, ck_Path = cc_Path cfg, ck_HttpOnly = True,
     ck_Secure = cc_Secure cfg, ck_SameSite = cc_SameSite cfg, ck_MaxAge = cc_MaxAge cfg\<rparr>"

definition clearRefreshCookie :: "CookieConfig \<Rightarrow> header" where
  "clearRefreshCookie cfg = SetCookie \<lparr>ck_Name = cc_Name cfg, ck_Value = [], ck_Path = cc_Path cfg, ck_HttpOnly = True,
     ck_Secure = cc_Secure cfg, ck_SameSite = cc_SameSite cfg, ck_MaxAge = -1\<rparr>"

definition auth_error_response :: "auth_error goerr \<Rightarrow> 'p http_response" where
  "auth_error_response err =
     (if errors_Is err ErrEmailRequired then WriteInvalidRequest ''email and password are required''
      else if errors_Is err ErrPasswordTooShort then WriteInvalidRequest ''password must be at least 8 characters''
      else if errors_Is err ErrEmailTaken then WriteError 409 ''email_taken'' ''email is already registered''
      else if errors_Is err ErrInvalidCredentials then WriteError 401 ''invalid_credentials'' ''invalid email or password''
      else if errors_Is err ErrInactiveUser then WriteError 403 ''account_inactive'' ''account is inactive''
      else if errors_Is err ErrInvalidRefresh then
        WriteError 401 ''invalid_refresh'' ''refresh token is missing, invalid, or expired''
      else WriteInternalError ''authentication failed'')"

abbreviation encodes :: "auth_payload \<Rightarrow> bool" where "encodes \<equiv> (\<lambda>p. True)"

definition register_handler :: "json_bodies \<Rightarrow> 's authService \<Rightarrow> ('s, User, auth_payload) handler" where
  "register_handler json svc r s =
     (case decode_register json (rq_Body r) of
        None \<Rightarrow> (WriteInvalidRequest ''request body must be JSON with email and password'', s)
      | Some req \<Rightarrow>
          (case as_Register svc req (requestMeta r) s of
             (Inl err, s) \<Rightarrow> (auth_error_response err, s)
           | (Inr resp, s) \<Rightarrow> (WriteJSON encodes [] 201 (RegisterPayload resp), s)))"

definition login_handler :: "json_bodies \<Rightarrow> 's authService \<Rightarrow> CookieConfig \<Rightarrow> ('s, User, auth_payload) handler" where
  "login_handler json svc cfg r s =
     (case decode_login json (rq_Body r) of
        None \<Rightarrow> (WriteInvalidRequest ''request body must be JSON with email and password'', s)
      | Some req \<Rightarrow>
          (case as_Login svc req (requestMeta r) s of
             (Inl err, s) \<Rightarrow> (auth_error_response err, s)
           | (Inr result, s) \<Rightarrow>
               (WriteJSON encodes [setRefreshCookie cfg (ar_RefreshToken result)] 200 (LoginPayload (ar_Response result)), s)))"

definition refresh_handler :: "'s authService \<Rightarrow> CookieConfig \<Rightarrow> ('s, User, auth_payload) handler" where
  "refresh_handler svc cfg r s =
     (case as_Refresh svc (readRefreshCookie cfg r) (requestMeta r) s of
        (Inl err, s) \<Rightarrow> (auth_error_response err, s)
      | (Inr result, s) \<Rightarrow>
          (WriteJSON encodes [setRefreshCookie cfg (ar_RefreshToken result)] 200 (LoginPayload (ar_Response result)), s))"

definition logout_handler :: "'s authService \<Rightarrow> CookieConfig \<Rightarrow> ('s, User, auth_payload) handler" where
  "logout_handler svc cfg r s =
     (case as_Logout svc (readRefreshCookie cfg r) (requestMeta r) s of
        (Inl err, s) \<Rightarrow> (auth_error_response err, s)
      | (Inr u, s) \<Rightarrow> (WriteJSON encodes [clearRefreshCookie cfg] 200 (LogoutPayload ''logged out''), s))"

definition me_handler :: "('s, User, auth_payload) handler" where
  "me_handler r s =
     (case UserFromContext r of
        None \<Rightarrow> (WriteError 401 ''unauthorized'' ''authentication required'', s)
      | Some user \<Rightarrow> (WriteJSON encodes [] 200 (MePayload \<lparr>me_ID = us_ID user, me_Email = us_Email user\<rparr>), s))"

text \<open>The routes of \<open>Handler.Register\<close>, with the middleware each is wrapped in.\<close>

definition auth_routes :: "(auth_payload \<Rightarrow> 'p) \<Rightarrow> json_bodies \<Rightarrow> 's authService \<Rightarrow> CookieConfig \<Rightarrow> ('s, User, 'p) middleware \<Rightarrow>
    ('s, User, 'p) middleware \<Rightarrow> ('s, User, 'p) route list" where
  "auth_routes wrap json svc cfg authenticated loginRateLimit =
     [(''POST'', ''/auth/register'', embed wrap (register_handler json svc)),
      (''POST'', ''/auth/login'', loginRateLimit (embed wrap (login_handler json svc cfg))),
      (''POST'', ''/auth/refresh'', embed wrap (refresh_handler svc cfg)),
      (''POST'', ''/auth/logout'', embed wrap (logout_handler svc cfg)),
      (''GET'', ''/auth/me'', authenticated (embed wrap me_handler))]"

end
