(* ===== verification/AuthHttpProperties.thy ===== *)
theory AuthHttpProperties
  imports LoginProperties AuthHttp ErrorSets
begin

section \<open>What clients of the auth endpoints see\<close>

subsection \<open>Errors of the service\<close>

lemma raises_catch: "(\<And>s e s' t. p s = (Inl e, s') \<Longrightarrow> errors_Is e t \<Longrightarrow> \<not> errors_Is e c \<Longrightarrow> t \<in> S) \<Longrightarrow> raises h S \<Longrightarrow> (\<And>x. raises (k x) S) \<Longrightarrow> raises (catch c p h k) S"
  unfolding raises_def catch_def by (fastforce split: prod.splits sum.splits if_splits)

lemma raises_let: "(\<And>x. raises (f x) S) \<Longrightarrow> raises (let x = a in f x) S"
  by simp

lemma raises_now: "(\<And>now. raises (f now) S) \<Longrightarrow> raises (\<lambda>s. let now = g s in f now s) S"
  by (simp add: raises_def)

lemma wrap_pg_Is [simp]: "\<not> errors_Is (wrap_pg m e) t"
  by (simp add: wrap_pg_def)

lemma pg_errors:
  "pg_CreateUser email hash w = (Inl e, w') \<Longrightarrow> errors_Is e t \<Longrightarrow> t = ErrEmailTaken"
  "pg_CredentialsByEmail email w = (Inl e, w') \<Longrightarrow> errors_Is e t \<Longrightarrow> t = ErrUserNotFound"
  "pg_UserByID i w = (Inl e, w') \<Longrightarrow> errors_Is e t \<Longrightarrow> t = ErrUserNotFound"
  "pg_SessionByHash h w = (Inl e, w') \<Longrightarrow> errors_Is e t \<Longrightarrow> t = ErrSessionNotFound"
  "pg_CreateSession p w = (Inl e, w') \<Longrightarrow> \<not> errors_Is e t"
  "pg_RevokeSession i w = (Inl e, w') \<Longrightarrow> \<not> errors_Is e t"
  by (auto simp: pg_defs split: prod.splits sum.splits pg_error.splits)

lemma rotate_errors: "pg_RotateSession old p w = (Inl e, w') \<Longrightarrow> \<not> errors_Is e t"
  by (auto simp: pg_RotateSession_def split: prod.splits sum.splits)

lemma raises_helpers:
  "raises (recordAttempt sv email meta ok reason) S" "raises (audit sv i action meta) S"
  "raises (generateRefreshToken sur) S" "raises (generatePassword sv pw) S" "raises (buildResult sv i raw now) S"
  by (auto simp: raises_def recordAttempt_def audit_def ignore_def generateRefreshToken_def generatePassword_def buildResult_def
    MintAccessToken_def Let_def andThen_Inl fail_def ret_def split: prod.splits sum.splits)

lemma raises_repo:
  "raises (pg_CreateUser email hash) {ErrEmailRequired, ErrPasswordTooShort, ErrEmailTaken}" "raises (pg_CreateSession p) S"
  "raises (pg_RevokeSession i) S" "raises (pg_RotateSession i p) S"
  by (auto simp: raises_def dest: pg_errors rotate_errors)

lemma raises_service:
  "raises (Register (NewService cr tokens ttl lower) rg meta) {ErrEmailRequired, ErrPasswordTooShort, ErrEmailTaken}"
  "raises (Login (NewService cr tokens ttl lower) lg meta) {ErrEmailRequired, ErrInvalidCredentials, ErrInactiveUser}"
  "raises (refresh_read (NewService cr tokens ttl lower) raw) {ErrInvalidRefresh}"
  "raises (refresh_write (NewService cr tokens ttl lower) meta x) {ErrInvalidRefresh}"
  "raises (Logout (NewService cr tokens ttl lower) raw meta) {}"
  subgoal unfolding Register_def NewService_fields AuthPostgres_fields
    by (intro raises_let raises_if raises_andThen raises_helpers raises_repo raises_base) simp_all
  subgoal unfolding Login_def NewService_fields AuthPostgres_fields
    by (intro raises_let raises_if raises_catch raises_now raises_andThen raises_helpers raises_repo raises_base) (auto dest: pg_errors)
  subgoal unfolding raises_def refresh_read_def by (auto simp: catch_def Let_def dest: pg_errors split: prod.splits sum.splits if_splits)
  subgoal unfolding refresh_write_def case_prod_beta NewService_fields AuthPostgres_fields
    by (intro raises_andThen raises_helpers raises_repo)
  subgoal unfolding Logout_def NewService_fields AuthPostgres_fields
    by (intro raises_if raises_catch raises_andThen raises_helpers raises_repo raises_base) (auto dest: pg_errors)
  done

lemma raises_Refresh: "raises (Refresh (NewService cr tokens ttl lower) raw meta) {ErrInvalidRefresh}"
  unfolding Refresh_split by (intro raises_andThen raises_service)

lemma raises_Authenticate: "raises (Authenticate (NewService cr tokens ttl lower) token) {ErrInvalidToken}"
  unfolding raises_def Authenticate_def
  by (auto simp: catch_def dest: pg_errors split: prod.splits sum.splits if_splits)

subsection \<open>Statuses\<close>

lemma error_status:
  "hr_Status (auth_error_response err) =
     (if errors_Is err ErrEmailRequired \<or> errors_Is err ErrPasswordTooShort then 400
      else if errors_Is err ErrEmailTaken then 409
      else if errors_Is err ErrInvalidCredentials then 401
      else if errors_Is err ErrInactiveUser then 403
      else if errors_Is err ErrInvalidRefresh then 401 else 500)"
  by (simp add: auth_error_response_def)

abbreviation deployed :: "crypto \<Rightarrow> TokenManager \<Rightarrow> int \<Rightarrow> (string \<Rightarrow> string) \<Rightarrow> auth_world authService" where
  "deployed cr tokens ttl lower \<equiv> service_operations (NewService cr tokens ttl lower)"

lemma operations [simp]:
  "as_Register (service_operations sv) = Register sv" "as_Login (service_operations sv) = Login sv"
  "as_Refresh (service_operations sv) = Refresh sv" "as_Logout (service_operations sv) = Logout sv"
  by (simp_all add: service_operations_def)

fun sentinel_status :: "auth_error \<Rightarrow> nat" where
  "sentinel_status ErrEmailRequired = 400"
| "sentinel_status ErrPasswordTooShort = 400"
| "sentinel_status ErrEmailTaken = 409"
| "sentinel_status ErrInvalidCredentials = 401"
| "sentinel_status ErrInactiveUser = 403"
| "sentinel_status ErrInvalidRefresh = 401"
| "sentinel_status _ = 500"

lemma raised_status:
  assumes "raises p S" "p s = (Inl e, s')"
  shows "hr_Status (auth_error_response e) \<in> insert 500 (sentinel_status ` S)"
proof -
  have "t \<in> S" if "errors_Is e t" for t using assms that unfolding raises_def by blast
  then have "errors_Is e t \<Longrightarrow> sentinel_status t \<in> sentinel_status ` S" for t by blast
  from this [of ErrEmailRequired] this [of ErrPasswordTooShort] this [of ErrEmailTaken] this [of ErrInvalidCredentials]
    this [of ErrInactiveUser] this [of ErrInvalidRefresh]
  show ?thesis by (auto simp: error_status)
qed

lemma served_status:
  assumes "raises p S"
  shows "hr_Status (fst (case p s of (Inl e, s) \<Rightarrow> (auth_error_response e, s) | (Inr x, s) \<Rightarrow> (WriteJSON encodes (hs x) n (f x), s)))
    \<in> insert n (insert 500 (sentinel_status ` S))"
proof (cases "p s")
  case (Pair x s')
  then show ?thesis using raised_status [OF assms, of s] by (cases x) auto
qed

lemma handler_status_sets:
  "hr_Status (fst (register_handler json (deployed cr tokens ttl lower) r w)) \<in> {201, 400, 409, 500}"
  "hr_Status (fst (login_handler json (deployed cr tokens ttl lower) cfg r w)) \<in> {200, 400, 401, 403, 500}"
  "hr_Status (fst (refresh_handler (deployed cr tokens ttl lower) cfg r w)) \<in> {200, 401, 500}"
  "hr_Status (fst (logout_handler (deployed cr tokens ttl lower) cfg r w)) \<in> {200, 500}"
proof -
  show "hr_Status (fst (register_handler json (deployed cr tokens ttl lower) r w)) \<in> {201, 400, 409, 500}"
  proof (cases "decode_register json (rq_Body r)")
    case (Some rg)
    have "hr_Status (fst (register_handler json (deployed cr tokens ttl lower) r w)) \<in>
        insert 201 (insert 500 (sentinel_status ` {ErrEmailRequired, ErrPasswordTooShort, ErrEmailTaken}))"
      unfolding register_handler_def Some option.case operations by (rule served_status [OF raises_service(1)])
    then show ?thesis by auto
  qed (simp add: register_handler_def)
  show "hr_Status (fst (login_handler json (deployed cr tokens ttl lower) cfg r w)) \<in> {200, 400, 401, 403, 500}"
  proof (cases "decode_login json (rq_Body r)")
    case (Some lg)
    have "hr_Status (fst (login_handler json (deployed cr tokens ttl lower) cfg r w)) \<in>
        insert 200 (insert 500 (sentinel_status ` {ErrEmailRequired, ErrInvalidCredentials, ErrInactiveUser}))"
      unfolding login_handler_def Some option.case operations by (rule served_status [OF raises_service(2)])
    then show ?thesis by auto
  qed (simp add: login_handler_def)
  have "hr_Status (fst (refresh_handler (deployed cr tokens ttl lower) cfg r w)) \<in> insert 200 (insert 500 (sentinel_status ` {ErrInvalidRefresh}))"
    unfolding refresh_handler_def operations by (rule served_status [OF raises_Refresh])
  then show "hr_Status (fst (refresh_handler (deployed cr tokens ttl lower) cfg r w)) \<in> {200, 401, 500}" by auto
  have "hr_Status (fst (logout_handler (deployed cr tokens ttl lower) cfg r w)) \<in> insert 200 (insert 500 (sentinel_status ` {}))"
    unfolding logout_handler_def operations by (rule served_status [OF raises_service(5)])
  then show "hr_Status (fst (logout_handler (deployed cr tokens ttl lower) cfg r w)) \<in> {200, 500}" by auto
qed

subsection \<open>Answers in a database that answers\<close>

text \<open>What a client tells two answers apart by: the status and, of an error, its code.\<close>

definition reply :: "'p http_response \<Rightarrow> nat \<times> string" where
  "reply resp = (hr_Status resp, case hr_Body resp of ErrorJson code msg \<Rightarrow> code | _ \<Rightarrow> [])"

lemma reply_simps [simp]:
  "reply (WriteError n c m) = (n, c)" "reply (WriteInvalidRequest m) = (400, ''invalid_request'')"
  "reply (WriteInternalError m) = (500, ''internal_error'')" "reply (WriteJSON encodes hs n p) = (n, [])"
  by (simp_all add: reply_def)

lemma create_outcome:
  assumes "faults w = []" "uuid_supply w (uuid_next w) \<notin> u_id ` set (users w)"
  shows "fst (pg_CreateUser email h (w\<lparr>random_next := n\<rparr>)) =
    (if email \<in> u_email ` set (users w) then Inl (Sentinel ErrEmailTaken)
     else Inr \<lparr>us_ID = uuid_supply w (uuid_next w), us_Email = email, us_IsActive = True, us_CreatedAt = server_clock w,
       us_UpdatedAt = server_clock w\<rparr>)"
proof -
  have "list_ex (\<lambda>u. u_id u = uuid_supply w (uuid_next w) \<or> u_email u = email) (users w) \<longleftrightarrow> email \<in> u_email ` set (users w)"
    using assms(2) by (simp add: list_ex_iff image_iff) metis
  then show ?thesis
    using assms(1) by (simp add: pg_CreateUser_def calm_send createUser_def next_uuid_def Let_def ret_def fail_def userFromRow_def)
qed

lemma register_reply:
  assumes "faults w = []" "random_supply w (random_next w) 16 = Inr salt" "uuid_supply w (uuid_next w) \<notin> u_id ` set (users w)"
  shows "reply (fst (register_handler json (deployed cr tokens ttl lower) r w)) =
    (case decode_register json (rq_Body r) of
       None \<Rightarrow> (400, ''invalid_request'')
     | Some rg \<Rightarrow>
         if normalizeEmail lower (rg_Email rg) = [] \<or> length (rg_Password rg) < 8 then (400, ''invalid_request'')
         else case bcrypt_generate cr salt (rg_Password rg) 12 of
             Inl e \<Rightarrow> (500, ''internal_error'')
           | Inr h \<Rightarrow> if normalizeEmail lower (rg_Email rg) \<in> u_email ` set (users w) then (409, ''email_taken'') else (201, []))"
proof (cases "decode_register json (rq_Body r)")
  case (Some rg)
  let ?sv = "NewService cr tokens ttl lower" and ?email = "normalizeEmail lower (rg_Email rg)"
  let ?w1 = "w\<lparr>random_next := random_next w + 1\<rparr>"
  have gen: "generatePassword ?sv (rg_Password rg) w = (case bcrypt_generate cr salt (rg_Password rg) 12 of
      Inl e \<Rightarrow> (Inl (Wrap ''auth: hash password'' (Opaque e)), ?w1) | Inr h \<Rightarrow> (Inr h, ?w1))"
    using assms(2) by (simp add: generatePassword_def world_surroundings_def ret_def fail_def bcryptCost_def split: sum.split)
  have refused: "reply (fst (register_handler json (deployed cr tokens ttl lower) r w)) = reply (auth_error_response e :: auth_payload http_response)"
    if "fst (Register ?sv rg (requestMeta r) w) = Inl e" for e
    using that Some by (auto simp: register_handler_def split: prod.splits)
  show ?thesis
  proof (cases "?email = [] \<or> length (rg_Password rg) < 8")
    case True
    then have "fst (Register ?sv rg (requestMeta r) w) =
        Inl (Sentinel (if ?email = [] \<or> rg_Password rg = [] then ErrEmailRequired else ErrPasswordTooShort))"
      by (auto simp: Register_def Let_def fail_def passwordMinLen_def)
    then show ?thesis using refused Some True by (auto simp: auth_error_response_def)
  next
    case ok: False
    then have run: "Register ?sv rg (requestMeta r) w = andThen (generatePassword ?sv (rg_Password rg)) (\<lambda>hash.
        andThen (pg_CreateUser ?email hash) (\<lambda>user. andThen (audit ?sv (us_ID user) ActionRegister (requestMeta r)) (\<lambda>_.
          ret \<lparr>rgr_ID = us_ID user, rgr_Email = us_Email user\<rparr>))) w"
      by (auto simp: Register_def passwordMinLen_def)
    show ?thesis
    proof (cases "bcrypt_generate cr salt (rg_Password rg) 12")
      case (Inl e)
      then have "fst (Register ?sv rg (requestMeta r) w) = Inl (Wrap ''auth: hash password'' (Opaque e))"
        unfolding run by (simp add: andThen_def gen)
      then show ?thesis using refused Some ok Inl by (auto simp: auth_error_response_def)
    next
      case (Inr h)
      obtain x w2 where cre: "pg_CreateUser ?email h ?w1 = (x, w2)" by (metis prod.collapse)
      note x = create_outcome [OF assms(1,3), of ?email h "random_next w + 1", unfolded cre fst_conv]
      show ?thesis
      proof (cases "?email \<in> u_email ` set (users w)")
        case True
        then have "fst (Register ?sv rg (requestMeta r) w) = Inl (Sentinel ErrEmailTaken)"
          unfolding run using x cre by (simp add: andThen_def gen Inr)
        then show ?thesis using refused Some ok Inr True by (auto simp: auth_error_response_def)
      next
        case False
        then obtain user where user: "x = Inr user" using x by simp
        obtain w3 where "audit ?sv (us_ID user) ActionRegister (requestMeta r) w2 = (Inr (), w3)"
          using logs_succeed(2) [of ?sv "us_ID user" ActionRegister "requestMeta r" w2] by blast
        then have "Register ?sv rg (requestMeta r) w = (Inr \<lparr>rgr_ID = us_ID user, rgr_Email = us_Email user\<rparr>, w3)"
          unfolding run using user cre by (simp add: andThen_def gen Inr ret_def)
        then show ?thesis using Some ok Inr False by (simp add: register_handler_def)
      qed
    qed
  qed
qed (simp add: register_handler_def)

lemma login_refusals:
  assumes "faults w = []" "normalizeEmail lower (lg_Email lg) \<noteq> []" "lg_Password lg \<noteq> []"
  shows "case find (\<lambda>u. u_email u = normalizeEmail lower (lg_Email lg)) (users w) of
      None \<Rightarrow> fst (Login (NewService cr tokens ttl lower) lg meta w) = Inl (Sentinel ErrInvalidCredentials)
    | Some row \<Rightarrow>
        if \<not> bcrypt_compare cr (u_password_hash row) (lg_Password lg)
        then fst (Login (NewService cr tokens ttl lower) lg meta w) = Inl (Sentinel ErrInvalidCredentials)
        else u_is_active row \<or> fst (Login (NewService cr tokens ttl lower) lg meta w) = Inl (Sentinel ErrInactiveUser)"
  using assms
  by (auto simp: Login_def Let_def catch_def andThen_def fail_def ret_def pg_CredentialsByEmail_def calm_send getUserByEmail_def one_row_def
    recordAttempt_def ignore_def userFromRow_def split: option.split)

lemma login_reply:
  assumes "can_issue cr tokens w"
  shows "reply (fst (login_handler json (deployed cr tokens ttl lower) cfg r w)) =
    (case decode_login json (rq_Body r) of
       None \<Rightarrow> (400, ''invalid_request'')
     | Some lg \<Rightarrow>
         if normalizeEmail lower (lg_Email lg) = [] \<or> lg_Password lg = [] then (400, ''invalid_request'')
         else case find (\<lambda>u. u_email u = normalizeEmail lower (lg_Email lg)) (users w) of
             None \<Rightarrow> (401, ''invalid_credentials'')
           | Some row \<Rightarrow>
               if \<not> bcrypt_compare cr (u_password_hash row) (lg_Password lg) then (401, ''invalid_credentials'')
               else if \<not> u_is_active row then (403, ''account_inactive'') else (200, []))"
proof (cases "decode_login json (rq_Body r)")
  case (Some lg)
  let ?sv = "NewService cr tokens ttl lower" and ?email = "normalizeEmail lower (lg_Email lg)"
  have calm: "faults w = []" using assms by (simp add: can_issue_def)
  have refused: "reply (fst (login_handler json (deployed cr tokens ttl lower) cfg r w)) = reply (auth_error_response e :: auth_payload http_response)"
    if "fst (Login ?sv lg (requestMeta r) w) = Inl e" for e
    using that Some by (auto simp: login_handler_def split: prod.splits)
  show ?thesis
  proof (cases "?email = [] \<or> lg_Password lg = []")
    case True
    then have "fst (Login ?sv lg (requestMeta r) w) = Inl (Sentinel ErrEmailRequired)" by (auto simp: Login_def fail_def)
    then show ?thesis using refused Some True by (auto simp: auth_error_response_def)
  next
    case ok: False
    show ?thesis
    proof (cases "\<exists>row. find (\<lambda>u. u_email u = ?email) (users w) = Some row \<and> bcrypt_compare cr (u_password_hash row) (lg_Password lg) \<and> u_is_active row")
      case True
      then obtain row where row: "find (\<lambda>u. u_email u = ?email) (users w) = Some row" "bcrypt_compare cr (u_password_hash row) (lg_Password lg)"
        "u_is_active row" by blast
      then obtain res w' where "Login ?sv lg (requestMeta r) w = (Inr res, w')"
        using credentials_log_in [OF assms row(1)] ok by blast
      then show ?thesis using Some ok row by (simp add: login_handler_def)
    next
      case False
      then show ?thesis
        using login_refusals [OF calm, of lower lg cr tokens ttl "requestMeta r"] refused Some ok
        by (auto simp: auth_error_response_def split: option.splits if_splits)
    qed
  qed
qed (simp add: login_handler_def)

lemma lookup_missing:
  assumes "faults w = []" "sessions_of w h = None"
  shows "pg_SessionByHash h w = (Inl (Sentinel ErrSessionNotFound), w)"
  using assms by (auto simp: pg_SessionByHash_def getRefreshSessionByHash_def one_row_def sessions_of_def calm_send fail_def split: option.splits)

lemma refresh_reply:
  assumes "can_issue cr tokens w" "db_ok w"
  shows "reply (fst (refresh_handler (deployed cr tokens ttl lower) cfg r w)) =
    (if readRefreshCookie cfg r = [] then (401, ''invalid_refresh'')
     else case sessions_of w (hash_of cr (readRefreshCookie cfg r)) of
         None \<Rightarrow> (401, ''invalid_refresh'')
       | Some s \<Rightarrow> if IsRevoked s \<or> \<not> After (ss_ExpiresAt s) (process_clock w) then (401, ''invalid_refresh'') else (200, []))"
proof -
  let ?sv = "NewService cr tokens ttl lower" and ?raw = "readRefreshCookie cfg r"
  have calm: "faults w = []" using assms by (simp add: can_issue_def)
  show ?thesis
  proof (cases "\<exists>s. ?raw \<noteq> [] \<and> sessions_of w (hash_of cr ?raw) = Some s \<and> \<not> IsRevoked s \<and> After (ss_ExpiresAt s) (process_clock w)")
    case True
    then obtain s res w' where s: "?raw \<noteq> []" "sessions_of w (hash_of cr ?raw) = Some s" "\<not> IsRevoked s" "After (ss_ExpiresAt s) (process_clock w)"
      and "Refresh ?sv ?raw (requestMeta r) w = (Inr res, w')"
      using live_refresh [OF assms] by metis
    then show ?thesis by (simp add: refresh_handler_def)
  next
    case False
    then have "fst (refresh_read ?sv ?raw w) = Inl (Sentinel ErrInvalidRefresh)"
      using calm_lookup [OF calm] lookup_missing [OF calm]
      by (cases "sessions_of w (hash_of cr ?raw)") (auto simp: refresh_read_def catch_def fail_def world_surroundings_def)
    then have "fst (Refresh ?sv ?raw (requestMeta r) w) = Inl (Sentinel ErrInvalidRefresh)"
      by (auto simp: Refresh_split andThen_def split: prod.splits)
    then show ?thesis
      using False by (auto simp: refresh_handler_def auth_error_response_def split: prod.splits option.splits)
  qed
qed

lemma logout_reply:
  assumes "faults w = []"
  shows "reply (fst (logout_handler (deployed cr tokens ttl lower) cfg r w)) = (200, [])"
proof -
  let ?sv = "NewService cr tokens ttl lower" and ?raw = "readRefreshCookie cfg r"
  have "fst (Logout ?sv ?raw (requestMeta r) w) = Inr ()"
    using calm_lookup [OF assms] lookup_missing [OF assms] assms
    by (cases "sessions_of w (hash_of cr ?raw)")
      (auto simp: Logout_def catch_def andThen_def ret_def audit_def ignore_def pg_RevokeSession_def calm_send revokeRefreshSession_def)
  then show ?thesis by (auto simp: logout_handler_def split: prod.splits)
qed

abbreviation me_endpoint :: "crypto \<Rightarrow> TokenManager \<Rightarrow> int \<Rightarrow> (string \<Rightarrow> string) \<Rightarrow> (auth_world, User, auth_payload) handler" where
  "me_endpoint cr tokens ttl lower \<equiv> AuthMiddleware (Authenticate (NewService cr tokens ttl lower)) me_handler"

lemma me_reply:
  assumes "faults w = []"
  shows "reply (fst (me_endpoint cr tokens ttl lower r w)) =
    (if bearerToken r = [] then (401, ''unauthorized'')
     else case VerifyAccessToken cr tokens (process_clock w) (bearerToken r) of
         Inl e \<Rightarrow> (401, ''unauthorized'')
       | Inr i \<Rightarrow> (case find (\<lambda>u. u_id u = i) (users w) of
             None \<Rightarrow> (401, ''unauthorized'')
           | Some row \<Rightarrow> if u_is_active row then (200, []) else (401, ''unauthorized'')))"
  using assms
  by (auto simp: AuthMiddleware_def Let_def Authenticate_def catch_def fail_def ret_def world_surroundings_def pg_UserByID_def calm_send
    getUserByID_def one_row_def userFromRow_def me_handler_def UserFromContext_def WithUser_def split: sum.split option.split)

lemma me_statuses: "hr_Status (fst (me_endpoint cr tokens ttl lower r w)) \<in> {200, 401, 500}"
  by (auto simp: AuthMiddleware_def Let_def me_handler_def UserFromContext_def WithUser_def split: prod.splits sum.splits)

text \<open>C34. Every auth endpoint, \<open>/auth/me\<close> behind its middleware included. While the database, the random source and the signer answer,
  the answer is exactly this. Registration: 400 for a body that does not decode, an empty address or a password of less than 8 bytes, else
  500 if bcrypt refuses the password, as it does beyond 72 bytes, else 409 for a taken address, else 201. Login: 400 for a
  body that does not decode, an empty address or password, 401 for an unknown address and, with the same code, a wrong password, 403 for an
  inactive account, else 200. Refresh: 401 for no cookie or one of no session, of a revoked or of an expired one, else 200. Logout: 200.
  The account: 401 without a bearer token, or with one that does not verify or names no active account, else 200. Whatever fails, no other
  status is added to these but 500.\<close>

theorem auth_statuses:
  assumes "can_issue cr tokens w" "db_ok w" "random_supply w (random_next w) 16 = Inr salt"
    and "uuid_supply w (uuid_next w) \<notin> u_id ` set (users w)"
  shows "reply (fst (register_handler json (deployed cr tokens ttl lower) r w)) =
      (case decode_register json (rq_Body r) of
         None \<Rightarrow> (400, ''invalid_request'')
       | Some rg \<Rightarrow>
           if normalizeEmail lower (rg_Email rg) = [] \<or> length (rg_Password rg) < 8 then (400, ''invalid_request'')
           else case bcrypt_generate cr salt (rg_Password rg) 12 of
               Inl e \<Rightarrow> (500, ''internal_error'')
             | Inr h \<Rightarrow> if normalizeEmail lower (rg_Email rg) \<in> u_email ` set (users w) then (409, ''email_taken'') else (201, [])) \<and>
    reply (fst (login_handler json (deployed cr tokens ttl lower) cfg r w)) =
      (case decode_login json (rq_Body r) of
         None \<Rightarrow> (400, ''invalid_request'')
       | Some lg \<Rightarrow>
           if normalizeEmail lower (lg_Email lg) = [] \<or> lg_Password lg = [] then (400, ''invalid_request'')
           else case find (\<lambda>u. u_email u = normalizeEmail lower (lg_Email lg)) (users w) of
               None \<Rightarrow> (401, ''invalid_credentials'')
             | Some row \<Rightarrow>
                 if \<not> bcrypt_compare cr (u_password_hash row) (lg_Password lg) then (401, ''invalid_credentials'')
                 else if \<not> u_is_active row then (403, ''account_inactive'') else (200, [])) \<and>
    reply (fst (refresh_handler (deployed cr tokens ttl lower) cfg r w)) =
      (if readRefreshCookie cfg r = [] then (401, ''invalid_refresh'')
       else case sessions_of w (hash_of cr (readRefreshCookie cfg r)) of
           None \<Rightarrow> (401, ''invalid_refresh'')
         | Some s \<Rightarrow> if IsRevoked s \<or> \<not> After (ss_ExpiresAt s) (process_clock w) then (401, ''invalid_refresh'') else (200, [])) \<and>
    reply (fst (logout_handler (deployed cr tokens ttl lower) cfg r w)) = (200, []) \<and>
    reply (fst (me_endpoint cr tokens ttl lower r w)) =
      (if bearerToken r = [] then (401, ''unauthorized'')
       else case VerifyAccessToken cr tokens (process_clock w) (bearerToken r) of
           Inl e \<Rightarrow> (401, ''unauthorized'')
         | Inr i \<Rightarrow> (case find (\<lambda>u. u_id u = i) (users w) of
               None \<Rightarrow> (401, ''unauthorized'')
             | Some row \<Rightarrow> if u_is_active row then (200, []) else (401, ''unauthorized''))) \<and>
    hr_Status (fst (register_handler json (deployed cr tokens ttl lower) r v)) \<in> {201, 400, 409, 500} \<and>
    hr_Status (fst (login_handler json (deployed cr tokens ttl lower) cfg r v)) \<in> {200, 400, 401, 403, 500} \<and>
    hr_Status (fst (refresh_handler (deployed cr tokens ttl lower) cfg r v)) \<in> {200, 401, 500} \<and>
    hr_Status (fst (logout_handler (deployed cr tokens ttl lower) cfg r v)) \<in> {200, 500} \<and>
    hr_Status (fst (me_endpoint cr tokens ttl lower r v)) \<in> {200, 401, 500}"
proof -
  have calm: "faults w = []" using assms(1) by (simp add: can_issue_def)
  show ?thesis
    by (intro conjI register_reply [OF calm assms(3,4)] login_reply [OF assms(1)] refresh_reply [OF assms(1,2)] logout_reply [OF calm]
        me_reply [OF calm] handler_status_sets me_statuses)
qed

subsection \<open>Cookies\<close>

definition cookies :: "'p http_response \<Rightarrow> cookie list" where
  "cookies resp = concat (map (\<lambda>h. case h of SetCookie c \<Rightarrow> [c] | Header n v \<Rightarrow> []) (hr_Headers resp))"

lemma no_cookies [simp]: "cookies (WriteError n c m) = []" "cookies (WriteInvalidRequest m) = []" "cookies (WriteInternalError m) = []"
  "cookies (auth_error_response err) = []"
  by (simp_all add: cookies_def WriteError_def WriteInvalidRequest_def WriteInternalError_def auth_error_response_def)

lemma error_not_ok: "hr_Status (auth_error_response err) \<noteq> 200"
  by (simp add: error_status)

lemma json_cookies [simp]:
  "cookies (WriteJSON encodes [SetCookie c] n p) = [c]" "cookies (WriteJSON encodes [] n p) = []"
  by (simp_all add: cookies_def WriteJSON_def)

definition opens_session :: "crypto \<Rightarrow> CookieConfig \<Rightarrow> cookie \<Rightarrow> auth_world \<Rightarrow> bool" where
  "opens_session cr cfg c w \<longleftrightarrow> ck_Name c = cc_Name cfg \<and> ck_Path c = cc_Path cfg \<and> ck_MaxAge c = cc_MaxAge cfg \<and> ck_HttpOnly c \<and>
     (\<exists>s. sessions_of w (hash_of cr (ck_Value c)) = Some s \<and> \<not> IsRevoked s)"

lemma refreshed_live:
  assumes "Refresh (NewService cr tokens ttl lower) raw meta w = (Inr res, w')"
  shows "\<exists>s. sessions_of w' (hash_of cr (ar_RefreshToken res)) = Some s \<and> \<not> IsRevoked s"
proof -
  from store.Refresh_success [OF assms] obtain r where "sessions_of w (hash_of cr raw) = Some r"
    and rot: "rotated (ss_ID r) (sessionParams (NewService cr tokens ttl lower) (ss_UserID r) (ar_RefreshToken res) meta
      (sr_now (sv_sur (NewService cr tokens ttl lower)) w)) (sessions_of w) (sessions_of w')" by auto
  then have "ss_ID r \<in> ss_ID ` ran (sessions_of w)" by (auto intro: ranI)
  from live_after_rotation [OF rot this] show ?thesis by (auto simp: sessionParams_def)
qed

text \<open>The refresh token travels only in the cookie: an answer of login or refresh with status 200 sets exactly one
  cookie, HttpOnly, whose value opens a live session in the database; a logout with status 200 expires
  it; every other answer sets none.\<close>

theorem session_cookies:
  "(case login_handler json (deployed cr tokens ttl lower) cfg r w of (resp, w') \<Rightarrow>
      if hr_Status resp = 200 then \<exists>c. cookies resp = [c] \<and> opens_session cr cfg c w' else cookies resp = []) \<and>
   (case refresh_handler (deployed cr tokens ttl lower) cfg r w of (resp, w') \<Rightarrow>
      if hr_Status resp = 200 then \<exists>c. cookies resp = [c] \<and> opens_session cr cfg c w' else cookies resp = []) \<and>
   (case logout_handler (deployed cr tokens ttl lower) cfg r w of (resp, w') \<Rightarrow>
      if hr_Status resp = 200 then \<exists>c. cookies resp = [c] \<and> ck_Name c = cc_Name cfg \<and> ck_Value c = [] \<and> ck_MaxAge c = -1
      else cookies resp = [])"
proof (intro conjI)
  have login: "\<exists>s. sessions_of w' (hash_of cr (ar_RefreshToken res)) = Some s \<and> \<not> IsRevoked s"
    if "Login (NewService cr tokens ttl lower) req meta w = (Inr res, w')" for req meta res w'
    using login_session [OF that] by auto
  show "case login_handler json (deployed cr tokens ttl lower) cfg r w of (resp, w') \<Rightarrow>
      if hr_Status resp = 200 then \<exists>c. cookies resp = [c] \<and> opens_session cr cfg c w' else cookies resp = []"
    using login by (auto simp: login_handler_def setRefreshCookie_def opens_session_def error_not_ok split: option.split prod.split sum.split)
  show "case refresh_handler (deployed cr tokens ttl lower) cfg r w of (resp, w') \<Rightarrow>
      if hr_Status resp = 200 then \<exists>c. cookies resp = [c] \<and> opens_session cr cfg c w' else cookies resp = []"
    using refreshed_live
    by (auto simp: refresh_handler_def setRefreshCookie_def opens_session_def error_not_ok split: prod.split sum.split)
  show "case logout_handler (deployed cr tokens ttl lower) cfg r w of (resp, w') \<Rightarrow>
      if hr_Status resp = 200 then \<exists>c. cookies resp = [c] \<and> ck_Name c = cc_Name cfg \<and> ck_Value c = [] \<and> ck_MaxAge c = -1
      else cookies resp = []"
    by (auto simp: logout_handler_def clearRefreshCookie_def error_not_ok split: prod.split sum.split)
qed

subsection \<open>The guard\<close>

lemma authenticated_row:
  assumes "Authenticate (NewService cr tokens ttl lower) token w = (Inr user, w')"
  shows "\<exists>row\<in>set (users w). user = userFromRow row \<and> u_is_active row \<and> VerifyAccessToken cr tokens (process_clock w) token = Inr (u_id row)"
proof -
  obtain userID where verified: "VerifyAccessToken cr tokens (process_clock w) token = Inr userID"
    and read: "pg_UserByID userID w = (Inr user, w')" and active: "us_IsActive user"
    using assms by (auto simp: Authenticate_def catch_Inr world_surroundings_def fail_def split: sum.splits if_splits)
  have "send (\<lambda>w. (one_row (\<lambda>u. u_id u = userID) (users w), w)) w = send (getUserByID userID) w"
    by (rule arg_cong [where f = "\<lambda>st. send st w"], rule ext) (simp add: getUserByID_def)
  moreover obtain row v where row: "send (getUserByID userID) w = (Inr row, v)" "user = userFromRow row"
    using read by (auto simp: pg_UserByID_def split: prod.splits sum.splits pg_error.splits)
  ultimately have "one_row (\<lambda>u. u_id u = userID) (users w) = Inr row"
    using sent_user_read [of "\<lambda>u. u_id u = userID" w "Inr row" v] by simp
  then have "row \<in> set (users w) \<and> u_id row = userID"
    by (auto simp: one_row_def find_Some_iff split: option.splits)
  then show ?thesis using row(2) verified active by (auto simp: userFromRow_def)
qed

lemma authenticate_reads:
  assumes "Authenticate (NewService cr tokens ttl lower) token w = (x, w1)"
  shows "same_tables w w1"
proof -
  have "same_tables w (snd (pg_UserByID i w))" for i
    by (auto simp: call_runs same_tables_def send_def getUserByID_def Let_def split: list.split fault.split)
  then show ?thesis
    using assms by (auto simp: Authenticate_def catch_def same_tables_def fail_def ret_def split: sum.splits prod.splits if_splits)
      (metis snd_conv)+
qed

text \<open>A guarded handler runs only for an active account named by a valid access token, with this account in its
  context; otherwise the answer is 401, or 500 when the database fails, and the handler does not run.\<close>

theorem middleware_guards:
  "(\<exists>row\<in>set (users w). \<exists>w1. u_is_active row \<and>
      VerifyAccessToken cr tokens (process_clock w) (bearerToken r) = Inr (u_id row) \<and>
      AuthMiddleware (Authenticate (NewService cr tokens ttl lower)) next r w = next (WithUser r (userFromRow row)) w1) \<or>
   (hr_Status (fst (AuthMiddleware (Authenticate (NewService cr tokens ttl lower)) next r w)) \<in> {401, 500} \<and>
      same_tables w (snd (AuthMiddleware (Authenticate (NewService cr tokens ttl lower)) next r w)))"
proof -
  obtain x w1 where run: "Authenticate (NewService cr tokens ttl lower) (bearerToken r) w = (x, w1)" by (metis prod.collapse)
  then have "same_tables w w1" by (rule authenticate_reads)
  then show ?thesis
    using authenticated_row [of cr tokens ttl lower "bearerToken r" w] run
    by (cases x) (auto simp: AuthMiddleware_def Let_def same_tables_def)
qed

end
