(* ===== verification/AuthExamples.thy ===== *)
theory AuthExamples
  imports AuthHttpProperties
begin

section \<open>The auth properties on a concrete deployment\<close>

text \<open>
  One account with one live session, a hash function that is the identity, a signer with a
  constant token, random bytes that count up. Every property of the auth package is
  applied here, its hypotheses evaluated.
\<close>

definition toy_crypto :: crypto where
  "toy_crypto = \<lparr>sha256 = (\<lambda>bs. bs), bcrypt_generate = (\<lambda>salt pw cost. Inr (''bcrypt:'' @ pw)),
     bcrypt_compare = (\<lambda>h pw. h = ''bcrypt:'' @ pw), jwt_sign = (\<lambda>claims secret. Inr ''token''),
     jwt_parse = (\<lambda>now key token. Inl ''token is malformed''), uuid_String = (\<lambda>u. ''user''), uuid_Parse = (\<lambda>s. Inr 1)\<rparr>"

definition toy_tokens :: TokenManager where
  "toy_tokens = \<lparr>tm_secret = ''secret'', tm_accessTTL = 900000000000\<rparr>"

abbreviation toy_service :: "auth_world auth_service" where
  "toy_service \<equiv> NewService toy_crypto toy_tokens 86400000000000 (\<lambda>s. s)"

definition epoch :: go_time where "epoch = \<lparr>unixSec = 0, nsec = 0, utcOffset = 0\<rparr>"

definition ana :: user_row where
  "ana = \<lparr>u_id = 1, u_email = ''ana@example.org'', u_password_hash = ''bcrypt:contrasena'', u_is_active = True,
     u_created_at = epoch, u_updated_at = epoch\<rparr>"

definition ana_session :: session_row where
  "ana_session = \<lparr>r_id = 2, r_user_id = 1, r_token_hash = hashToken toy_crypto ''t0'', r_user_agent = None, r_ip_address = None,
     r_created_at = epoch, r_expires_at = epoch\<lparr>unixSec := 60\<rparr>, r_revoked_at = None, r_replaced_by = None\<rparr>"

definition toy_world :: auth_world where
  "toy_world = \<lparr>users = [ana], refresh_sessions = [ana_session], login_attempts = [], audit_logs = [],
     server_clock = epoch, process_clock = epoch, uuid_supply = (\<lambda>k. of_nat (k + 3)), uuid_next = 0,
     random_supply = (\<lambda>k n. Inr (replicate n (of_nat k))), random_next = 0, faults = []\<rparr>"

definition no_meta :: RequestMeta where "no_meta = \<lparr>meta_IP = None, meta_UserAgent = None\<rparr>"

lemma toy_hash: "hashToken toy_crypto s = hashToken toy_crypto t \<longleftrightarrow> s = t"
  by (simp add: hashToken_def hex_inj bytes_of_inj toy_crypto_def)

lemma toy_ok: "db_ok toy_world"
  by (simp add: db_ok_def users_ok_def sessions_ok_def logs_ok_def unique_def replaced_ok_def toy_world_def ana_def ana_session_def)

lemma toy_sign: "\<exists>token. jwt_sign toy_crypto claims secret = Inr token"
  by (simp add: toy_crypto_def)

lemma toy_token_new: "RawURLEncoding (replicate 32 b) \<noteq> ''t0''" "''t0'' \<noteq> RawURLEncoding (replicate 32 b)"
  using length_RawURLEncoding_32 [of "replicate 32 b"] by (auto dest: arg_cong [where f = length])

lemma toy_can_issue: "can_issue toy_crypto toy_tokens toy_world"
  using toy_token_new toy_sign by (auto simp: can_issue_def toy_world_def sessions_of_def ana_session_def toy_hash)

lemma toy_session: "sessions_of toy_world (hashToken toy_crypto ''t0'') = Some (sessionFromRow ana_session)"
  by (simp add: sessions_of_def toy_world_def ana_session_def)

lemma toy_live: "\<not> IsRevoked (sessionFromRow ana_session)" "After (ss_ExpiresAt (sessionFromRow ana_session)) (process_clock toy_world)"
  by (simp_all add: IsRevoked_def sessionFromRow_def ana_session_def toy_world_def After_def epoch_def)

lemma toy_refresh: "\<exists>res w1. Refresh toy_service ''t0'' no_meta toy_world = (Inr res, w1)"
  using live_refresh [OF toy_can_issue toy_ok _ toy_session toy_live] by auto

theorem live_token_refreshes_witness: "\<exists>res w'. Refresh toy_service ''t0'' no_meta toy_world = (Inr res, w')"
  using live_token_refreshes [OF toy_can_issue toy_ok _ toy_session toy_live] by auto

theorem refresh_single_use_witness:
  "\<exists>e w3. Refresh toy_service ''t0'' no_meta (snd (Refresh toy_service ''t0'' no_meta toy_world)) = (Inl e, w3)"
proof -
  obtain res w1 where run: "Refresh toy_service ''t0'' no_meta toy_world = (Inr res, w1)" using toy_refresh by blast
  show ?thesis using refresh_single_use [OF run auth_run.start, of no_meta] run by auto
qed

theorem refresh_rotates_witness:
  "\<exists>old. sessions_of toy_world (hashToken toy_crypto ''t0'') = Some old \<and>
     (\<exists>t. sessions_of (snd (Refresh toy_service ''t0'' no_meta toy_world)) (hashToken toy_crypto ''t0'') = Some (old\<lparr>ss_RevokedAt := Some t\<rparr>))"
proof -
  obtain res w1 where run: "Refresh toy_service ''t0'' no_meta toy_world = (Inr res, w1)" using toy_refresh by blast
  show ?thesis using refresh_rotates [OF toy_ok run] run by auto
qed

theorem logout_ends_session_witness:
  "\<exists>e w3. Refresh toy_service ''t0'' no_meta (snd (Logout toy_service ''t0'' no_meta toy_world)) = (Inl e, w3)"
proof -
  have "fst (Logout toy_service ''t0'' no_meta toy_world) = Inr ()"
    using calm_lookup [OF _ toy_session]
    by (simp add: Logout_def catch_def andThen_def pg_RevokeSession_def calm_send revokeRefreshSession_def ret_def audit_def ignore_def toy_world_def)
  then obtain w1 where run: "Logout toy_service ''t0'' no_meta toy_world = (Inr (), w1)" by (metis prod.collapse)
  show ?thesis using logout_ends_session [OF run _ auth_run.start, of no_meta] run toy_session by auto
qed

theorem auth_schema_invariant_witness: "db_ok (snd (Refresh toy_service ''t0'' no_meta toy_world))"
  using auth_schema_invariant [OF auth_run.request [OF auth_run.start, where c = "CallRefresh ''t0'' no_meta"] toy_ok] by simp

subsection \<open>Login and registration\<close>

definition ana_login :: "string \<Rightarrow> LoginRequest" where
  "ana_login pw = \<lparr>lg_Email = ''ana@example.org'', lg_Password = pw\<rparr>"

lemmas ascii_email = normalizeEmail_def TrimSpace_id graphic_def ToLower_def ascii_def lower_byte_def

lemma toy_email: "normalizeEmail (\<lambda>s. s) ''ana@example.org'' = ''ana@example.org''"
  by (simp add: ascii_email)

lemma toy_login: "\<exists>res w'. Login toy_service (ana_login ''contrasena'') no_meta toy_world = (Inr res, w')"
  by (rule credentials_log_in [OF toy_can_issue, where row = ana])
    (simp_all add: ana_login_def toy_email toy_world_def ana_def toy_crypto_def)

theorem login_requires_credentials_witness:
  "\<exists>new h. sessions_of (snd (Login toy_service (ana_login ''contrasena'') no_meta toy_world)) = (sessions_of toy_world)(h \<mapsto> new) \<and>
     ss_UserID new = 1"
proof -
  obtain res w1 where run: "Login toy_service (ana_login ''contrasena'') no_meta toy_world = (Inr res, w1)" using toy_login by blast
  have "users toy_world = [ana]" "u_id ana = 1" by (simp_all add: toy_world_def ana_def)
  then show ?thesis using login_requires_credentials [OF run] run by auto
qed

theorem login_failures_witness:
  "fst (Login toy_service (ana_login ''otra clave'') no_meta toy_world) = Inl (Sentinel ErrInvalidCredentials)"
  using login_failures [of toy_world "\<lambda>s. s" "ana_login ''otra clave''" toy_crypto toy_tokens 86400000000000 no_meta]
  by (simp add: ana_login_def toy_email toy_world_def ana_def toy_crypto_def)

definition beto :: RegisterRequest where
  "beto = \<lparr>rg_Email = ''Beto@example.org'', rg_Password = ''cafe con leche''\<rparr>"

lemma beto_email: "normalizeEmail (\<lambda>s. s) ''Beto@example.org'' = ''beto@example.org''"
  by (simp add: ascii_email) code_simp

definition beto_row :: user_row where
  "beto_row = \<lparr>u_id = 3, u_email = ''beto@example.org'', u_password_hash = ''bcrypt:cafe con leche'', u_is_active = True,
     u_created_at = epoch, u_updated_at = epoch\<rparr>"

definition beto_world :: auth_world where
  "beto_world = toy_world\<lparr>users := [ana, beto_row], random_next := 1, uuid_next := 2, audit_logs :=
     [\<lparr>l_id = 4, l_user_id = Some 3, l_action = ''register'', l_metadata = None, l_ip_address = None, l_user_agent = None,
       l_created_at = epoch\<rparr>]\<rparr>"

lemma beto_register:
  "Register toy_service beto no_meta toy_world = (Inr \<lparr>rgr_ID = 3, rgr_Email = ''beto@example.org''\<rparr>, beto_world)"
proof -
  let ?w1 = "toy_world\<lparr>random_next := 1\<rparr>" and ?w2 = "toy_world\<lparr>users := [ana, beto_row], random_next := 1, uuid_next := 1\<rparr>"
  have gen: "generatePassword toy_service ''cafe con leche'' toy_world = (Inr ''bcrypt:cafe con leche'', ?w1)"
    by (simp add: generatePassword_def world_surroundings_def toy_world_def toy_crypto_def ret_def)
  have cre: "pg_CreateUser ''beto@example.org'' ''bcrypt:cafe con leche'' ?w1 = (Inr (userFromRow beto_row), ?w2)"
    by (simp add: pg_CreateUser_def send_def createUser_def next_uuid_def toy_world_def ana_def beto_row_def Let_def ret_def)
  have aud: "audit toy_service 3 ActionRegister no_meta ?w2 = (Inr (), beto_world)"
    by (simp add: audit_def ignore_def pg_WriteAudit_def send_def insertAuditLog_def next_uuid_def toy_world_def beto_world_def
      beto_row_def Let_def ret_def no_meta_def ActionRegister_def)
  show ?thesis
    using gen cre aud
    by (simp add: Register_def beto_def beto_email passwordMinLen_def andThen_def ret_def userFromRow_def beto_row_def)
qed

lemma beto_can_issue: "can_issue toy_crypto toy_tokens beto_world"
  using toy_token_new toy_sign
  by (auto simp: can_issue_def beto_world_def toy_world_def sessions_of_def ana_session_def toy_hash)

theorem registered_account_logs_in_witness:
  "\<exists>res w3. Login toy_service \<lparr>lg_Email = ''BETO@example.org'', lg_Password = ''cafe con leche''\<rparr> no_meta beto_world = (Inr res, w3)"
proof -
  have "normalizeEmail (\<lambda>s. s) ''BETO@example.org'' = normalizeEmail (\<lambda>s. s) (rg_Email beto)"
    by (simp add: ascii_email beto_def) code_simp
  moreover have "\<forall>u\<in>set (users beto_world). u_id u = rgr_ID \<lparr>rgr_ID = 3, rgr_Email = ''beto@example.org''\<rparr> \<longrightarrow> u_is_active u"
    by (simp add: beto_world_def beto_row_def ana_def)
  moreover have "\<forall>salt h. bcrypt_generate toy_crypto salt (rg_Password beto) bcryptCost = Inr h \<longrightarrow> bcrypt_compare toy_crypto h (rg_Password beto)"
    by (simp add: toy_crypto_def)
  ultimately show ?thesis
    using registered_account_logs_in [OF beto_register toy_ok auth_run.start beto_can_issue, where meta' = no_meta]
    by (fastforce simp: beto_def)
qed

subsection \<open>A token that is parsed back\<close>

definition ana_claims :: accessClaims where
  "ana_claims = \<lparr>cl_Subject = ''user'', cl_IssuedAt = 0, cl_ExpiresAt = 900, cl_ID = ''user'', cl_Typ = ''access''\<rparr>"

text \<open>A signer for these claims only, and its parser.\<close>

definition toy_jwt :: crypto where
  "toy_jwt = toy_crypto\<lparr>jwt_sign := (\<lambda>claims secret. if claims = ana_claims then Inr ''token'' else Inl ''unsupported''),
     jwt_parse := (\<lambda>now key token. case key (SigningMethodHMAC ''HS256'') of
         Inl e \<Rightarrow> Inl e
       | Inr k \<Rightarrow> if k \<noteq> ''secret'' then Inl ''signature is invalid''
           else if unixSec now < 900 then Inr (ana_claims, True) else Inl ''token is expired'')\<rparr>"

lemma toy_jwt_laws: "jwt_laws toy_jwt ''secret''"
  by (simp add: jwt_laws_def toy_jwt_def ana_claims_def split: sum.split)

theorem access_token_lifetime_witness:
  "fst (Authenticate (NewService toy_jwt toy_tokens 0 (\<lambda>s. s)) ''token'' (toy_world\<lparr>process_clock := epoch\<lparr>unixSec := 899\<rparr>\<rparr>)) =
     Inr (userFromRow ana) \<and>
   fst (Authenticate (NewService toy_jwt toy_tokens 0 (\<lambda>s. s)) ''token'' (toy_world\<lparr>process_clock := epoch\<lparr>unixSec := 900\<rparr>\<rparr>)) =
     Inl (Sentinel ErrInvalidToken)"
proof -
  let ?w = "\<lambda>t. toy_world\<lparr>process_clock := epoch\<lparr>unixSec := t\<rparr>\<rparr>"
  obtain s' where "MintAccessToken toy_jwt (world_surroundings (uuid_String toy_jwt)) toy_tokens 1 epoch toy_world =
      (Inr (''token'', int_of_f64 (duration_Seconds 900000000000)), s')"
    by (simp add: MintAccessToken_def Let_def world_surroundings_def next_uuid_def toy_jwt_def toy_crypto_def ana_claims_def
      toy_tokens_def time_Add_def epoch_def accessTokenType_def ret_def)
  then have mint: "MintAccessToken toy_jwt (world_surroundings (uuid_String toy_jwt)) toy_tokens 1 epoch toy_world = (Inr (''token'', 900), s')"
    by (simp add: duration_whole_seconds)
  have ok: "db_ok (?w t)" for t using toy_ok by (simp add: db_ok_def)
  have "fst (Authenticate (NewService toy_jwt toy_tokens 0 (\<lambda>s. s)) ''token'' (?w t)) =
      (if t < 900 then Inr (userFromRow ana) else Inl (Sentinel ErrInvalidToken))" for t
    using access_token_lifetime [OF mint, of "?w t" ana 0 "\<lambda>s. s"] ok [of t] toy_jwt_laws
    by (simp add: toy_tokens_def toy_jwt_def toy_crypto_def epoch_def toy_world_def ana_def)
  then show ?thesis by simp
qed

subsection \<open>The race\<close>

definition new_row :: session_row where
  "new_row = \<lparr>r_id = 3, r_user_id = 1, r_token_hash = hashToken toy_crypto (RawURLEncoding (replicate 32 0)), r_user_agent = None,
     r_ip_address = None, r_created_at = epoch, r_expires_at = epoch\<lparr>unixSec := 86400\<rparr>, r_revoked_at = None, r_replaced_by = None\<rparr>"

definition raced :: auth_world where
  "raced = toy_world\<lparr>random_next := 1, uuid_next := 3,
     refresh_sessions := [ana_session\<lparr>r_revoked_at := Some epoch, r_replaced_by := Some 3\<rparr>, new_row],
     audit_logs := [\<lparr>l_id = 4, l_user_id = Some 1, l_action = ''refresh'', l_metadata = None, l_ip_address = None, l_user_agent = None,
       l_created_at = epoch\<rparr>]\<rparr>"

lemma toy_write: "\<exists>res. refresh_write toy_service no_meta (epoch, sessionFromRow ana_session) toy_world = (Inr res, raced)"
proof -
  let ?raw = "RawURLEncoding (replicate 32 0)" and ?w1 = "toy_world\<lparr>random_next := 1\<rparr>"
  let ?w2 = "?w1\<lparr>uuid_next := 1, refresh_sessions := [ana_session\<lparr>r_revoked_at := Some epoch, r_replaced_by := Some 3\<rparr>, new_row]\<rparr>"
  let ?w3 = "raced\<lparr>uuid_next := 2\<rparr>"
  have gen: "generateRefreshToken (world_surroundings (uuid_String toy_crypto)) toy_world = (Inr ?raw, ?w1)"
    by (simp add: generateRefreshToken_def world_surroundings_def toy_world_def ret_def)
  have rot: "pg_RotateSession 2 (sessionParams toy_service 1 ?raw no_meta epoch) ?w1 = (Inr 3, ?w2)"
    using toy_token_new
    by (simp add: pg_RotateSession_def send_def createRefreshSession_def next_uuid_def commit_def revokeAndReplaceRefreshSession_def
      update_sessions_def toy_world_def ana_def ana_session_def new_row_def sessionParams_def no_meta_def toy_hash Let_def ret_def
      timestamptz_def time_Add_def epoch_def)
  have aud: "audit toy_service 1 ActionRefresh no_meta ?w2 = (Inr (), ?w3)"
    by (simp add: audit_def ignore_def pg_WriteAudit_def send_def insertAuditLog_def next_uuid_def toy_world_def raced_def ana_def
      Let_def ret_def no_meta_def ActionRefresh_def)
  have "\<exists>res. buildResult toy_service 1 ?raw epoch ?w3 = (Inr res, raced)"
    by (simp add: buildResult_def MintAccessToken_def andThen_def Let_def ret_def world_surroundings_def next_uuid_def toy_crypto_def
      raced_def)
  then show ?thesis
    using gen rot aud by (auto simp: refresh_write_def andThen_def sessionFromRow_def ana_session_def)
qed

lemma raced_can_issue: "can_issue toy_crypto toy_tokens raced"
proof -
  have "replicate 32 b = b # b # b # replicate 29 b" for b :: "8 word"
    using replicate_add [of 3 29 b] by (simp add: numeral_3_eq_3)
  then have "RawURLEncoding (replicate 32 0) \<noteq> RawURLEncoding (replicate 32 1)" by (simp add: base64url_digit_inj)
  then show ?thesis using toy_token_new toy_sign
    by (auto simp: can_issue_def raced_def toy_world_def sessions_of_def ana_session_def new_row_def toy_hash)
qed

lemma toy_read: "refresh_read toy_service ''t0'' toy_world = (Inr (epoch, sessionFromRow ana_session), toy_world)"
  using calm_lookup [OF _ toy_session] toy_live
  by (simp add: refresh_read_def catch_def world_surroundings_def ret_def toy_world_def)

theorem refresh_race_witness:
  "\<exists>resB w4. refresh_write toy_service no_meta (epoch, sessionFromRow ana_session) raced = (Inr resB, w4) \<and>
     (\<exists>h k n m. h \<noteq> k \<and> sessions_of w4 h = Some n \<and> \<not> IsRevoked n \<and> sessions_of w4 k = Some m \<and> \<not> IsRevoked m)"
proof -
  obtain resA where first: "refresh_write toy_service no_meta (epoch, sessionFromRow ana_session) toy_world = (Inr resA, raced)"
    using toy_write by blast
  show ?thesis
    using refresh_race [OF toy_ok toy_read toy_read first raced_can_issue, of no_meta] by (metis toy_hash)
qed

subsection \<open>A request\<close>

definition toy_json :: json_bodies where
  "toy_json = \<lparr>decode_register = (\<lambda>body. if body = [] then None else Some \<lparr>rg_Email = ''ana@example.org'', rg_Password = body\<rparr>),
     decode_login = (\<lambda>body. Some \<lparr>lg_Email = ''ana@example.org'', lg_Password = body\<rparr>)\<rparr>"

text \<open>A request with this body and the cookie of the one session.\<close>

definition toy_request :: "string \<Rightarrow> User http_request" where
  "toy_request body = \<lparr>rq_Query = (\<lambda>k. []), rq_Header = (\<lambda>k. []), rq_RemoteAddr = ''192.0.2.7:49152'', rq_Cookie = (\<lambda>k. Some ''t0''),
     rq_Body = body, rq_User = None\<rparr>"

lemma toy_cookie: "readRefreshCookie cfg (toy_request body) = ''t0''"
  by (simp add: readRefreshCookie_def toy_request_def)

theorem auth_statuses_witness:
  "\<forall>cfg. reply (fst (register_handler toy_json (deployed toy_crypto toy_tokens 86400000000000 (\<lambda>s. s)) (toy_request ''otra clave'') toy_world)) =
       (409, ''email_taken'') \<and>
     reply (fst (register_handler toy_json (deployed toy_crypto toy_tokens 86400000000000 (\<lambda>s. s)) (toy_request ''corta'') toy_world)) =
       (400, ''invalid_request'') \<and>
     reply (fst (login_handler toy_json (deployed toy_crypto toy_tokens 86400000000000 (\<lambda>s. s)) cfg (toy_request ''contrasena'') toy_world)) =
       (200, []) \<and>
     reply (fst (login_handler toy_json (deployed toy_crypto toy_tokens 86400000000000 (\<lambda>s. s)) cfg (toy_request ''corta'') toy_world)) =
       (401, ''invalid_credentials'') \<and>
     reply (fst (refresh_handler (deployed toy_crypto toy_tokens 86400000000000 (\<lambda>s. s)) cfg (toy_request []) toy_world)) = (200, [])"
proof
  fix cfg
  have w: "users toy_world = [ana]" "u_email ana = ''ana@example.org''" "u_password_hash ana = ''bcrypt:contrasena''" "u_is_active ana"
    by (simp_all add: toy_world_def ana_def)
  have j: "decode_login toy_json (rq_Body (toy_request body)) = Some \<lparr>lg_Email = ''ana@example.org'', lg_Password = body\<rparr>"
    "decode_register toy_json (rq_Body (toy_request body)) =
      (if body = [] then None else Some \<lparr>rg_Email = ''ana@example.org'', rg_Password = body\<rparr>)" for body
    by (simp_all add: toy_json_def toy_request_def)
  have fresh: "random_supply toy_world (random_next toy_world) 16 = Inr (replicate 16 0)"
    "uuid_supply toy_world (uuid_next toy_world) \<notin> u_id ` set (users toy_world)"
    by (simp_all add: toy_world_def ana_def)
  have b: "bcrypt_generate toy_crypto salt pw cost = Inr (''bcrypt:'' @ pw)" "bcrypt_compare toy_crypto h pw \<longleftrightarrow> h = ''bcrypt:'' @ pw"
    for salt pw cost h by (simp_all add: toy_crypto_def)
  note S = auth_statuses [where json = toy_json and ttl = 86400000000000 and lower = "\<lambda>s. s" and v = toy_world,
      OF toy_can_issue toy_ok fresh, where cfg = cfg]
  note T = S [THEN conjunct1] S [THEN conjunct2, THEN conjunct1] S [THEN conjunct2, THEN conjunct2, THEN conjunct1]
  show "reply (fst (register_handler toy_json (deployed toy_crypto toy_tokens 86400000000000 (\<lambda>s. s)) (toy_request ''otra clave'') toy_world)) =
       (409, ''email_taken'') \<and>
     reply (fst (register_handler toy_json (deployed toy_crypto toy_tokens 86400000000000 (\<lambda>s. s)) (toy_request ''corta'') toy_world)) =
       (400, ''invalid_request'') \<and>
     reply (fst (login_handler toy_json (deployed toy_crypto toy_tokens 86400000000000 (\<lambda>s. s)) cfg (toy_request ''contrasena'') toy_world)) =
       (200, []) \<and>
     reply (fst (login_handler toy_json (deployed toy_crypto toy_tokens 86400000000000 (\<lambda>s. s)) cfg (toy_request ''corta'') toy_world)) =
       (401, ''invalid_credentials'') \<and>
     reply (fst (refresh_handler (deployed toy_crypto toy_tokens 86400000000000 (\<lambda>s. s)) cfg (toy_request []) toy_world)) = (200, [])"
    using toy_session toy_live by (simp add: T j toy_email w b toy_cookie)
qed

end
