(* ===== verification/Base64.thy ===== *)
theory Base64
  imports GoText
begin

section \<open>Reading base64url\<close>

text \<open>
  \<open>base64.RawURLEncoding.DecodeString\<close>: line breaks are skipped, every other byte must be a digit, a
  single left-over digit is an error, and the bits left over in the last digit are ignored.
\<close>

definition base64url_value :: "char \<Rightarrow> nat option" where
  "base64url_value c = (let n = of_char c :: nat in
     if 65 \<le> n \<and> n \<le> 90 then Some (n - 65) else if 97 \<le> n \<and> n \<le> 122 then Some (n - 71)
     else if 48 \<le> n \<and> n \<le> 57 then Some (n + 4) else if n = 45 then Some 62 else if n = 95 then Some 63 else None)"

fun base64_bytes :: "nat list \<Rightarrow> 8 word list option" where
  "base64_bytes [] = Some []"
| "base64_bytes [a] = None"
| "base64_bytes [a, b] = Some [of_nat (a * 4 + b div 16)]"
| "base64_bytes [a, b, c] = Some [of_nat (a * 4 + b div 16), of_nat (b mod 16 * 16 + c div 4)]"
| "base64_bytes (a # b # c # d # ds) = map_option
     (\<lambda>bs. of_nat (a * 4 + b div 16) # of_nat (b mod 16 * 16 + c div 4) # of_nat (c mod 4 * 64 + d) # bs)
     (base64_bytes ds)"

definition RawURLDecode :: "string \<Rightarrow> 8 word list option" where
  "RawURLDecode s =
     Option.bind (those (map base64url_value (filter (\<lambda>c. of_char c \<notin> {10, 13 :: nat}) s))) base64_bytes"

lemma base64url_digit_value: "n < 64 \<Longrightarrow> base64url_value (base64url_digit n) = Some n"
  by (auto simp: base64url_value_def base64url_digit_def Let_def)

lemma base64url_digit_not_break: "n < 64 \<Longrightarrow> of_char (base64url_digit n) \<noteq> (10 :: nat) \<and> of_char (base64url_digit n) \<noteq> (13 :: nat)"
  by (auto simp: base64url_digit_def)

text \<open>The digits of an encoding as numbers.\<close>

fun base64_digits :: "8 word list \<Rightarrow> nat list" where
  "base64_digits [] = []"
| "base64_digits [a] = [unat a div 4, unat a mod 4 * 16]"
| "base64_digits [a, b] = [unat a div 4, unat a mod 4 * 16 + unat b div 16, unat b mod 16 * 4]"
| "base64_digits (a # b # c # bs) =
     unat a div 4 # (unat a mod 4 * 16 + unat b div 16) # (unat b mod 16 * 4 + unat c div 64) # unat c mod 64 # base64_digits bs"

lemma RawURLEncoding_digits: "RawURLEncoding bs = map base64url_digit (base64_digits bs)"
  by (induction bs rule: RawURLEncoding.induct) simp_all

lemma byte_parts: "unat (a :: 8 word) div 4 < 64" "unat a mod 4 * 16 + k div 16 < 64 \<longleftrightarrow> k div 16 < 64 - unat a mod 4 * 16"
  "unat a div 16 < 16" "unat a div 64 < 4"
  using byte_bound [of a] by linarith+

lemma base64_digits_bound: "d \<in> set (base64_digits bs) \<Longrightarrow> d < 64"
proof (induction bs rule: base64_digits.induct)
  case (2 a)
  then show ?case using byte_bound [of a] by (auto; linarith)
next
  case (3 a b)
  then show ?case using byte_bound [of a] byte_bound [of b] by (auto; linarith)
next
  case (4 a b c bs)
  then show ?case using byte_bound [of a] byte_bound [of b] byte_bound [of c] by (auto; linarith)
qed simp

lemma base64_bytes_digits: "base64_bytes (base64_digits bs) = Some bs"
proof (induction bs rule: base64_digits.induct)
  case (2 a)
  have "unat a div 4 * 4 + unat a mod 4 * 16 div 16 = unat a" by simp
  then show ?case by simp
next
  case (3 a b)
  have "(unat a mod 4 * 16 + unat b div 16) div 16 = unat a mod 4" "(unat a mod 4 * 16 + unat b div 16) mod 16 = unat b div 16"
    using byte_parts(3) [of b] by simp_all
  then show ?case by simp
next
  case (4 a b c bs)
  have "(unat a mod 4 * 16 + unat b div 16) div 16 = unat a mod 4" "(unat a mod 4 * 16 + unat b div 16) mod 16 = unat b div 16"
    "(unat b mod 16 * 4 + unat c div 64) div 4 = unat b mod 16" "(unat b mod 16 * 4 + unat c div 64) mod 4 = unat c div 64"
    using byte_parts(3) [of b] byte_parts(4) [of c] by simp_all
  then show ?case using 4 by simp
qed simp

lemma those_map_Some: "(\<And>x. x \<in> set xs \<Longrightarrow> f x = Some (g x)) \<Longrightarrow> those (map f xs) = Some (map g xs)"
  by (induction xs) auto

theorem RawURLDecode_Encode: "RawURLDecode (RawURLEncoding bs) = Some bs"
proof -
  let ?ds = "base64_digits bs"
  have "filter (\<lambda>c. of_char c \<notin> {10, 13 :: nat}) (RawURLEncoding bs) = map base64url_digit ?ds"
    unfolding RawURLEncoding_digits
    by (rule filter_True) (use base64_digits_bound base64url_digit_not_break in auto)
  moreover have "those (map (base64url_value \<circ> base64url_digit) ?ds) = Some (map id ?ds)"
    by (rule those_map_Some) (simp add: base64url_digit_value base64_digits_bound)
  ultimately show ?thesis using base64_bytes_digits by (simp add: RawURLDecode_def)
qed

end
