(* ===== verification/Crimes.thy ===== *)
theory Crimes
  imports Base64 JsonText PgRows Requests ErrorSets "HOL-Library.Product_Lexorder"
begin

section \<open>Crimes near a point\<close>

text \<open>
  \<open>internal/crimes\<close>: the records, the cursor, the service, the PostgreSQL repository and the handler.
  The JSON encoder refuses a response only for a number that is not finite.
\<close>

subsection \<open>Data\<close>

datatype crimes_error = ErrInvalidCoordinates | ErrInvalidRadius | ErrInvalidLimit | ErrInvalidCursor

record Cursor =
  cur_Distance :: f64
  cur_ID :: i64

record GeoJSON =
  gj_Type :: string
  gj_Coordinates :: "f64 list"

record Crime =
  crime_SourceID :: string
  crime_Year :: i64
  crime_Month :: i64
  crime_Day :: i64
  crime_Date :: string
  crime_Hour :: "i64 option"
  crime_Type :: string
  crime_Subtype :: "string option"
  crime_WeaponUsed :: "bool option"
  crime_MotorcycleUsed :: "bool option"
  crime_Neighborhood :: "string option"
  crime_Commune :: "i64 option"
  crime_Quantity :: i64
  crime_Location :: GeoJSON

record NearbyCrimesQuery =
  nq_Lat :: f64
  nq_Lng :: f64
  nq_RadiusMeters :: i64
  nq_Limit :: i64
  nq_Cursor :: "Cursor option"

record NearbyCrimesResponse =
  nr_Lat :: f64
  nr_Lng :: f64
  nr_RadiusMeters :: i64
  nr_Count :: nat
  nr_Items :: "Crime list"
  nr_NextCursor :: "string option"
  nr_HasMore :: bool

record CrimePage =
  page_Items :: "Crime list"
  page_HasMore :: bool
  page_Next :: "Cursor option"

subsection \<open>The cursor\<close>

text \<open>Go strings and byte slices hold the same bytes.\<close>

definition to_bytes :: "string \<Rightarrow> 8 word list" where
  "to_bytes s = map (\<lambda>c. of_nat (of_char c)) s"

definition of_bytes :: "8 word list \<Rightarrow> string" where
  "of_bytes bs = map (\<lambda>b. char_of (unat b)) bs"

text \<open>An error of \<open>json.Marshal\<close> is dropped, and the token is that of no bytes.\<close>

definition enc_cursor :: "Cursor \<Rightarrow> json option" where
  "enc_cursor c = enc_struct [(''d'', enc_float (cur_Distance c)), (''id'', enc_int (cur_ID c))]"

definition cursor_text :: "Cursor \<Rightarrow> string" where
  "cursor_text c = (case enc_cursor c of None \<Rightarrow> [] | Some v \<Rightarrow> json_text v)"

definition Encode :: "Cursor \<Rightarrow> string" where
  "Encode c = RawURLEncoding (to_bytes (cursor_text c))"

definition store_cursor :: "json \<Rightarrow> Cursor \<Rightarrow> Cursor option" where
  "store_cursor = store_fields
     [(''d'', \<lambda>v c. map_option (\<lambda>d. c\<lparr>cur_Distance := d\<rparr>) (store_float v (cur_Distance c))),
      (''id'', \<lambda>v c. map_option (\<lambda>i. c\<lparr>cur_ID := i\<rparr>) (store_int64 v (cur_ID c)))]"

definition DecodeCursor :: "string \<Rightarrow> crimes_error goerr + Cursor" where
  "DecodeCursor token =
     (case RawURLDecode token of
        None \<Rightarrow> Inl (Sentinel ErrInvalidCursor)
      | Some raw \<Rightarrow>
          (case Unmarshal store_cursor \<lparr>cur_Distance = 0, cur_ID = 0\<rparr> (of_bytes raw) of
             None \<Rightarrow> Inl (Sentinel ErrInvalidCursor)
           | Some c \<Rightarrow> Inr c))"

subsection \<open>The repository\<close>

text \<open>A row as it is scanned: the crime but for its location, then longitude, latitude, id and distance.\<close>

record nearby_row =
  row_SourceID :: string
  row_Year :: i64
  row_Month :: i64
  row_Day :: i64
  row_Date :: string
  row_Hour :: i64
  row_CrimeType :: string
  row_CrimeSubtype :: "string option"
  row_WeaponUsed :: bool
  row_MotorcycleUsed :: bool
  row_Neighborhood :: "string option"
  row_Commune :: "i64 option"
  row_Quantity :: i64
  row_Longitude :: f64
  row_Latitude :: f64
  row_ID :: i64
  row_Distance :: f64

text \<open>The database's answer to \<open>findNearbyQuery\<close> with its six arguments.\<close>

type_synonym 's crimes_db =
  "f64 \<Rightarrow> f64 \<Rightarrow> i64 \<Rightarrow> f64 option \<Rightarrow> i64 option \<Rightarrow> i64 \<Rightarrow> 's \<Rightarrow> nearby_row pg_rows \<times> 's"

definition scan_crime :: "nearby_row \<Rightarrow> Crime" where
  "scan_crime r = \<lparr>crime_SourceID = row_SourceID r, crime_Year = row_Year r, crime_Month = row_Month r, crime_Day = row_Day r,
     crime_Date = row_Date r, crime_Hour = Some (row_Hour r), crime_Type = row_CrimeType r, crime_Subtype = row_CrimeSubtype r,
     crime_WeaponUsed = Some (row_WeaponUsed r), crime_MotorcycleUsed = Some (row_MotorcycleUsed r),
     crime_Neighborhood = row_Neighborhood r, crime_Commune = row_Commune r, crime_Quantity = row_Quantity r,
     crime_Location = \<lparr>gj_Type = ''Point'', gj_Coordinates = [row_Longitude r, row_Latitude r]\<rparr>\<rparr>"

definition row_key :: "nearby_row \<Rightarrow> Cursor" where
  "row_key r = \<lparr>cur_Distance = row_Distance r, cur_ID = row_ID r\<rparr>"

definition scan_nearby :: "nearby_row \<Rightarrow> Crime list \<times> Cursor list \<Rightarrow> crimes_error goerr + Crime list \<times> Cursor list" where
  "scan_nearby r acc = Inr (fst acc @ [scan_crime r], snd acc @ [row_key r])"

definition crime_page :: "i64 \<Rightarrow> Crime list \<Rightarrow> Cursor list \<Rightarrow> CrimePage" where
  "crime_page limit items keys =
     (if sint limit < int (length items)
      then \<lparr>page_Items = take (nat (sint limit)) items, page_HasMore = True, page_Next = Some (keys ! nat (sint limit - 1))\<rparr>
      else \<lparr>page_Items = items, page_HasMore = False, page_Next = None\<rparr>)"

definition FindNearby :: "'s crimes_db \<Rightarrow> NearbyCrimesQuery \<Rightarrow> ('s, crimes_error, CrimePage) prog" where
  "FindNearby db query s =
     (case db (nq_Lng query) (nq_Lat query) (nq_RadiusMeters query) (map_option cur_Distance (nq_Cursor query))
          (map_option cur_ID (nq_Cursor query)) (nq_Limit query + 1) s of
        (Inl e, s) \<Rightarrow> (Inl (Wrap ''crimes: find nearby'' (Opaque e)), s)
      | (Inr (rows, err), s) \<Rightarrow>
          (case scan_rows (\<lambda>e. Wrap ''crimes: scan nearby results'' (Opaque e)) scan_nearby rows ([], []) of
             Inl e \<Rightarrow> (Inl e, s)
           | Inr (items, keys) \<Rightarrow>
               (case err of
                  Some e \<Rightarrow> (Inl (Wrap ''crimes: read nearby results'' (Opaque e)), s)
                | None \<Rightarrow> (Inr (crime_page (nq_Limit query) items keys), s))))"

subsection \<open>The service\<close>

definition DefaultRadiusMeters :: i64 where "DefaultRadiusMeters = 300"
definition MaxRadiusMeters :: i64 where "MaxRadiusMeters = 2000"
definition DefaultLimit :: i64 where "DefaultLimit = 100"
definition MaxLimit :: i64 where "MaxLimit = 500"

definition crimes_isValidCABACoordinates :: "f64 \<Rightarrow> f64 \<Rightarrow> bool" where
  "crimes_isValidCABACoordinates lat lng \<longleftrightarrow> Fin (- 35) \<le> lat \<and> lat \<le> Fin (- 34) \<and> Fin (- 59) \<le> lng \<and> lng \<le> Fin (- 58)"

definition isValidRadius :: "i64 \<Rightarrow> bool" where
  "isValidRadius radius \<longleftrightarrow> 1 \<le>s radius \<and> radius \<le>s MaxRadiusMeters"

definition isValidLimit :: "i64 \<Rightarrow> bool" where
  "isValidLimit limit \<longleftrightarrow> 1 \<le>s limit \<and> limit \<le>s MaxLimit"

definition with_defaults :: "NearbyCrimesQuery \<Rightarrow> NearbyCrimesQuery" where
  "with_defaults query =
     (let query = (if nq_RadiusMeters query = 0 then query\<lparr>nq_RadiusMeters := DefaultRadiusMeters\<rparr> else query)
      in if nq_Limit query = 0 then query\<lparr>nq_Limit := DefaultLimit\<rparr> else query)"

definition GetNearby :: "(NearbyCrimesQuery \<Rightarrow> ('s, crimes_error, CrimePage) prog) \<Rightarrow>
    NearbyCrimesQuery \<Rightarrow> ('s, crimes_error, NearbyCrimesResponse) prog" where
  "GetNearby find_nearby query =
     (let query = with_defaults query in
      if \<not> crimes_isValidCABACoordinates (nq_Lat query) (nq_Lng query) then fail (Sentinel ErrInvalidCoordinates)
      else if \<not> isValidRadius (nq_RadiusMeters query) then fail (Sentinel ErrInvalidRadius)
      else if \<not> isValidLimit (nq_Limit query) then fail (Sentinel ErrInvalidLimit)
      else andThen (find_nearby query) (\<lambda>page.
        ret \<lparr>nr_Lat = nq_Lat query, nr_Lng = nq_Lng query, nr_RadiusMeters = nq_RadiusMeters query,
             nr_Count = length (page_Items page), nr_Items = page_Items page,
             nr_NextCursor = map_option Encode (page_Next page), nr_HasMore = page_HasMore page\<rparr>))"

subsection \<open>The endpoint\<close>

definition optional_int :: "crimes_error \<Rightarrow> string \<Rightarrow> crimes_error goerr + i64" where
  "optional_int e raw =
     (if raw = [] then Inr 0 else case Atoi raw of None \<Rightarrow> Inl (Sentinel e) | Some n \<Rightarrow> Inr n)"

definition optional_cursor :: "string \<Rightarrow> crimes_error goerr + Cursor option" where
  "optional_cursor raw =
     (if raw = [] then Inr None else case DecodeCursor raw of Inl e \<Rightarrow> Inl e | Inr c \<Rightarrow> Inr (Some c))"

definition parseNearbyCrimesQuery :: "(string \<Rightarrow> string) \<Rightarrow> crimes_error goerr + NearbyCrimesQuery" where
  "parseNearbyCrimesQuery get =
     (if get ''lat'' = [] \<or> get ''lng'' = [] then Inl (Sentinel ErrInvalidCoordinates)
      else case ParseFloat (get ''lat'') of None \<Rightarrow> Inl (Sentinel ErrInvalidCoordinates) | Some lat \<Rightarrow>
      case ParseFloat (get ''lng'') of None \<Rightarrow> Inl (Sentinel ErrInvalidCoordinates) | Some lng \<Rightarrow>
      case optional_int ErrInvalidRadius (get ''radius'') of Inl e \<Rightarrow> Inl e | Inr radius \<Rightarrow>
      case optional_int ErrInvalidLimit (get ''limit'') of Inl e \<Rightarrow> Inl e | Inr limit \<Rightarrow>
      case optional_cursor (get ''cursor'') of Inl e \<Rightarrow> Inl e | Inr cursor \<Rightarrow>
        Inr \<lparr>nq_Lat = lat, nq_Lng = lng, nq_RadiusMeters = radius, nq_Limit = limit, nq_Cursor = cursor\<rparr>)"

definition crimes_error_response :: "crimes_error goerr \<Rightarrow> 'p http_response" where
  "crimes_error_response err =
     (if errors_Is err ErrInvalidCoordinates then
        WriteInvalidRequest ''lat and lng are required and must be valid CABA coordinates''
      else if errors_Is err ErrInvalidRadius then WriteInvalidRequest ''radius must be between 1 and 2000 meters''
      else if errors_Is err ErrInvalidLimit then WriteInvalidRequest ''limit must be between 1 and 500''
      else if errors_Is err ErrInvalidCursor then WriteInvalidRequest ''cursor is not a valid pagination token''
      else WriteInternalError ''could not fetch nearby crimes'')"

definition nearby_encodable :: "NearbyCrimesResponse \<Rightarrow> bool" where
  "nearby_encodable resp \<longleftrightarrow> json_float (nr_Lat resp) \<noteq> None \<and> json_float (nr_Lng resp) \<noteq> None \<and>
     (\<forall>c\<in>set (nr_Items resp). \<forall>x\<in>set (gj_Coordinates (crime_Location c)). json_float x \<noteq> None)"

definition nearby_handler :: "(NearbyCrimesQuery \<Rightarrow> ('s, crimes_error, NearbyCrimesResponse) prog) \<Rightarrow> ('s, 'u, NearbyCrimesResponse) handler" where
  "nearby_handler service r s =
     (case parseNearbyCrimesQuery (rq_Query r) of
        Inl err \<Rightarrow> (crimes_error_response err, s)
      | Inr query \<Rightarrow>
          (case service query s of
             (Inl err, s) \<Rightarrow> (crimes_error_response err, s)
           | (Inr response, s) \<Rightarrow> (WriteJSON nearby_encodable [] 200 response, s)))"

end
