(* ===== verification/CrimesSql.thy ===== *)
theory CrimesSql
  imports Crimes
begin

section \<open>The statement of the crimes repository\<close>

text \<open>
  \<open>findNearbyQuery\<close> on the table \<open>crimes\<close>: what PostgreSQL answers. The PostGIS functions and the
  geometries are parameters. PostgreSQL orders \<open>float8\<close> values with not-a-number last and equal to
  itself; an id is a \<open>bigint\<close>.
\<close>

record 'g crime_record =
  tb_ID :: i64
  tb_SourceID :: string
  tb_Year :: i64
  tb_Month :: i64
  tb_Day :: i64
  tb_Date :: string
  tb_Hour :: i64
  tb_CrimeType :: string
  tb_CrimeSubtype :: "string option"
  tb_WeaponUsed :: bool
  tb_MotorcycleUsed :: bool
  tb_Neighborhood :: "string option"
  tb_Commune :: "i64 option"
  tb_Quantity :: i64
  tb_Geom :: 'g

record 'g postgis =
  ST_X :: "'g \<Rightarrow> f64"
  ST_Y :: "'g \<Rightarrow> f64"
  ST_Distance :: "'g \<Rightarrow> f64 \<Rightarrow> f64 \<Rightarrow> f64"
  ST_DWithin :: "'g \<Rightarrow> f64 \<Rightarrow> f64 \<Rightarrow> i64 \<Rightarrow> bool"

fun float8_key :: "f64 \<Rightarrow> nat \<times> rat" where
  "float8_key NInf = (0, 0)"
| "float8_key (Fin q) = (1, q)"
| "float8_key PInf = (2, 0)"
| "float8_key NaN = (3, 0)"

definition keyset :: "Cursor \<Rightarrow> (nat \<times> rat) \<times> int" where
  "keyset c = (float8_key (cur_Distance c), sint (cur_ID c))"

text \<open>The inner \<open>SELECT\<close>.\<close>

definition nearby_select :: "'g postgis \<Rightarrow> f64 \<Rightarrow> f64 \<Rightarrow> 'g crime_record \<Rightarrow> nearby_row" where
  "nearby_select gis lng lat r = \<lparr>row_SourceID = tb_SourceID r, row_Year = tb_Year r, row_Month = tb_Month r, row_Day = tb_Day r,
     row_Date = tb_Date r, row_Hour = tb_Hour r, row_CrimeType = tb_CrimeType r, row_CrimeSubtype = tb_CrimeSubtype r,
     row_WeaponUsed = tb_WeaponUsed r, row_MotorcycleUsed = tb_MotorcycleUsed r, row_Neighborhood = tb_Neighborhood r,
     row_Commune = tb_Commune r, row_Quantity = tb_Quantity r, row_Longitude = ST_X gis (tb_Geom r),
     row_Latitude = ST_Y gis (tb_Geom r), row_ID = tb_ID r, row_Distance = ST_Distance gis (tb_Geom r) lng lat\<rparr>"

definition rows_within :: "'g postgis \<Rightarrow> 'g crime_record list \<Rightarrow> f64 \<Rightarrow> f64 \<Rightarrow> i64 \<Rightarrow> nearby_row list" where
  "rows_within gis tbl lng lat radius =
     map (nearby_select gis lng lat) (filter (\<lambda>r. ST_DWithin gis (tb_Geom r) lng lat radius) tbl)"

definition after_cursor :: "f64 option \<Rightarrow> i64 option \<Rightarrow> nearby_row \<Rightarrow> bool" where
  "after_cursor cd ci r =
     (case cd of None \<Rightarrow> True
      | Some d \<Rightarrow> float8_key d < float8_key (row_Distance r) \<or>
          row_Distance r = d \<and> (case ci of None \<Rightarrow> False | Some i \<Rightarrow> i <s row_ID r))"

definition findNearbyQuery :: "'g postgis \<Rightarrow> 'g crime_record list \<Rightarrow> f64 \<Rightarrow> f64 \<Rightarrow> i64 \<Rightarrow> f64 option \<Rightarrow> i64 option \<Rightarrow> i64 \<Rightarrow>
    nearby_row list" where
  "findNearbyQuery gis tbl lng lat radius cd ci rowLimit =
     take (nat (sint rowLimit)) (sort_key (\<lambda>r. keyset (row_key r)) (filter (after_cursor cd ci) (rows_within gis tbl lng lat radius)))"

text \<open>A server that holds the table and answers without faults.\<close>

definition crimes_server :: "'g postgis \<Rightarrow> 'g crime_record list \<Rightarrow> 's crimes_db" where
  "crimes_server gis tbl lng lat radius cd ci rowLimit s =
     (if rowLimit <s 0 then Inl ''LIMIT must not be negative'' else all_rows (findNearbyQuery gis tbl lng lat radius cd ci rowLimit), s)"

subsection \<open>Keys\<close>

lemma float8_key_inject: "float8_key x = float8_key y \<longleftrightarrow> x = y"
  by (cases x; cases y) auto

lemma keyset_inject: "keyset c = keyset d \<longleftrightarrow> c = d"
  by (cases c; cases d) (auto simp: keyset_def float8_key_inject dest: signed_word_eqI)

lemma after_cursor_keyset:
  "after_cursor (map_option cur_Distance c) (map_option cur_ID c) r \<longleftrightarrow>
     (case c of None \<Rightarrow> True | Some c \<Rightarrow> keyset c < keyset (row_key r))"
proof (cases c)
  case (Some c)
  have "float8_key (row_Distance r) = float8_key (cur_Distance c) \<longleftrightarrow> row_Distance r = cur_Distance c"
    by (rule float8_key_inject)
  then show ?thesis
    using Some by (auto simp: after_cursor_def keyset_def row_key_def word_sless_alt less_prod_def' float8_key_inject)
qed (simp add: after_cursor_def)

text \<open>All rows within the radius, nearest first.\<close>

definition nearest :: "'g postgis \<Rightarrow> 'g crime_record list \<Rightarrow> f64 \<Rightarrow> f64 \<Rightarrow> i64 \<Rightarrow> nearby_row list" where
  "nearest gis tbl lng lat radius = sort_key (\<lambda>r. keyset (row_key r)) (rows_within gis tbl lng lat radius)"

lemma findNearbyQuery_nearest:
  "findNearbyQuery gis tbl lng lat radius (map_option cur_Distance c) (map_option cur_ID c) rowLimit =
     take (nat (sint rowLimit)) (filter (\<lambda>r. case c of None \<Rightarrow> True | Some c \<Rightarrow> keyset c < keyset (row_key r))
       (nearest gis tbl lng lat radius))"
  unfolding findNearbyQuery_def nearest_def filter_sort after_cursor_keyset ..

lemma nearest_strict:
  assumes "distinct (map tb_ID tbl)"
  shows "sorted_wrt (\<lambda>r r'. keyset (row_key r) < keyset (row_key r')) (nearest gis tbl lng lat radius)"
proof -
  let ?f = "\<lambda>r. keyset (row_key r)" and ?rows = "rows_within gis tbl lng lat radius"
  have "distinct (map tb_ID (filter P tbl))" for P using assms by (induction tbl) auto
  then have "distinct (map row_ID ?rows)" by (simp add: rows_within_def nearby_select_def comp_def)
  then have "distinct (map ?f ?rows)"
    by (auto simp: distinct_map inj_on_def keyset_inject row_key_def)
  then have "distinct (map ?f (nearest gis tbl lng lat radius))"
    unfolding nearest_def by (metis distinct_map distinct_sort set_sort)
  moreover have "sorted (map ?f (nearest gis tbl lng lat radius))" unfolding nearest_def by simp
  ultimately have "sorted_wrt (<) (map ?f (nearest gis tbl lng lat radius))" by (simp add: strict_sorted_iff)
  then show ?thesis by (simp add: sorted_wrt_map)
qed

lemma filter_above:
  assumes "sorted_wrt (\<lambda>r r'. k r < (k r' :: 'k :: linorder)) (xs @ y # ys)"
  shows "filter (\<lambda>r. k y < k r) (xs @ y # ys) = ys"
  using assms by (auto simp: sorted_wrt_append filter_empty_conv)

end
