(* ===== verification/CursorRoundtrip.thy ===== *)
theory CursorRoundtrip
  imports Crimes
begin

section \<open>A cursor is read back from its token\<close>

lemma bytes_inverse: "of_bytes (to_bytes s) = s"
proof -
  have "char_of (unat (of_nat (of_char c) :: 8 word)) = c" for c
  proof -
    have "of_char c < (256 :: nat)" using of_char_of [of "of_char c :: nat"] by (metis char_of_char mod_less_divisor of_char_of zero_less_numeral)
    then show ?thesis by (simp add: unat_of_nat)
  qed
  then show ?thesis by (simp add: of_bytes_def to_bytes_def comp_def)
qed

lemma cursor_text_parse:
  assumes "is_fin (cur_Distance c)"
  shows "Unmarshal store_cursor \<lparr>cur_Distance = 0, cur_ID = 0\<rparr> (cursor_text c) = Some c" "cursor_text c \<noteq> []"
proof -
  obtain t where t: "writes_float t (cur_Distance c)" using writes_float_exists [OF assms] by blast
  let ?v = "JObj [(''d'', JNum t), (''id'', JNum (fmt_d (cur_ID c)))]"
  have v: "enc_cursor c = Some ?v" using t by (simp add: enc_cursor_def)
  then show "cursor_text c \<noteq> []" by (simp add: cursor_text_def)
  have w: "writable ?v maxNestingDepth" using t by (simp add: maxNestingDepth_def)
  have "json_repair ?v = ?v" by (simp add: utf8_repair_plain plain_name_def in_range_def)
  then have "json_parse (cursor_text c) = Some ?v"
    using json_parse_text [OF w] by (simp only: cursor_text_def v option.case)
  then show "Unmarshal store_cursor \<lparr>cur_Distance = 0, cur_ID = 0\<rparr> (cursor_text c) = Some c"
    using t by (simp add: Unmarshal_def store_cursor_def store_next store_nil plain_name_def in_range_def)
qed

theorem Decode_Encode:
  assumes "is_fin (cur_Distance c)"
  shows "DecodeCursor (Encode c) = Inr c" "Encode c \<noteq> []"
proof -
  show "DecodeCursor (Encode c) = Inr c"
    using cursor_text_parse(1) [OF assms] by (simp add: DecodeCursor_def Encode_def RawURLDecode_Encode bytes_inverse)
  show "Encode c \<noteq> []" using cursor_text_parse(2) [OF assms] by (simp add: Encode_def to_bytes_def)
qed

end
