(* ===== verification/CrimesProperties.thy ===== *)
theory CrimesProperties
  imports CrimesSql CursorRoundtrip
begin

section \<open>Correctness of the crimes endpoint\<close>

subsection \<open>One page\<close>

definition rest_after :: "'g postgis \<Rightarrow> 'g crime_record list \<Rightarrow> NearbyCrimesQuery \<Rightarrow> nearby_row list" where
  "rest_after gis tbl q = filter (\<lambda>r. case nq_Cursor q of None \<Rightarrow> True | Some c \<Rightarrow> keyset c < keyset (row_key r))
     (nearest gis tbl (nq_Lng q) (nq_Lat q) (nq_RadiusMeters q))"

definition page_of :: "nat \<Rightarrow> nearby_row list \<Rightarrow> CrimePage" where
  "page_of L rows =
     (if L < length rows
      then \<lparr>page_Items = map scan_crime (take L rows), page_HasMore = True, page_Next = Some (row_key (rows ! (L - 1)))\<rparr>
      else \<lparr>page_Items = map scan_crime rows, page_HasMore = False, page_Next = None\<rparr>)"

lemma scan_nearby_rows: "scan_rows se scan_nearby (map Inr rows) (is, ks) = Inr (is @ map scan_crime rows, ks @ map row_key rows)"
  by (induction rows arbitrary: "is" ks) (simp_all add: scan_nearby_def)

lemma valid_limit: "isValidLimit n \<Longrightarrow> 1 \<le> sint n \<and> sint n \<le> 500 \<and> sint (n + 1) = sint n + 1"
  by (simp add: isValidLimit_def MaxLimit_def word_sle_eq sint_word_ariths(1) signed_take_bit_int_eq_self)

lemma crime_page_of:
  assumes "1 \<le> sint n"
  shows "crime_page n (map scan_crime (take (nat (sint n + 1)) rows)) (map row_key (take (nat (sint n + 1)) rows)) =
    page_of (nat (sint n)) rows"
proof -
  have "nat (sint n + 1) = Suc (nat (sint n))" "nat (sint n - 1) = nat (sint n) - 1" using assms by simp_all
  moreover have "nat (sint n) - 1 < Suc (nat (sint n))" by simp
  ultimately show ?thesis using assms
    by (auto simp: crime_page_def page_of_def take_map min_def)
qed

lemma FindNearby_server:
  assumes "isValidLimit (nq_Limit q)"
  shows "FindNearby (crimes_server gis tbl) q s = (Inr (page_of (nat (sint (nq_Limit q))) (rest_after gis tbl q)), s)"
proof -
  note v = valid_limit [OF assms]
  have "\<not> nq_Limit q + 1 <s 0" using v by (simp add: word_sless_alt)
  then have "crimes_server gis tbl (nq_Lng q) (nq_Lat q) (nq_RadiusMeters q) (map_option cur_Distance (nq_Cursor q))
      (map_option cur_ID (nq_Cursor q)) (nq_Limit q + 1) s = (all_rows (take (nat (sint (nq_Limit q) + 1)) (rest_after gis tbl q)), s)"
    using v by (simp add: crimes_server_def findNearbyQuery_nearest rest_after_def)
  then show ?thesis using crime_page_of [of "nq_Limit q"] v
    by (simp add: FindNearby_def all_rows_def scan_nearby_rows)
qed

subsection \<open>Following the cursor\<close>

definition with_cursor :: "'u http_request \<Rightarrow> string \<Rightarrow> 'u http_request" where
  "with_cursor r token = r\<lparr>rq_Query := (rq_Query r)(''cursor'' := token)\<rparr>"

lemma parse_with_cursor:
  assumes "parseNearbyCrimesQuery (rq_Query r) = Inr q" "is_fin (cur_Distance c)"
  shows "parseNearbyCrimesQuery (rq_Query (with_cursor r (Encode c))) = Inr (q\<lparr>nq_Cursor := Some c\<rparr>)"
  using assms(1) Decode_Encode [OF assms(2)]
  by (auto simp: parseNearbyCrimesQuery_def with_cursor_def optional_cursor_def split: option.splits sum.splits if_splits)

text \<open>A client that asks for the next page as long as it is given a cursor; the pages it gets.\<close>

partial_function (option) crawl :: "('u http_request \<Rightarrow> NearbyCrimesResponse http_response) \<Rightarrow> 'u http_request \<Rightarrow>
    NearbyCrimesResponse list option" where
  "crawl serve r =
     (case hr_Body (serve r) of
        Json page \<Rightarrow>
          (case nr_NextCursor page of
             None \<Rightarrow> Some [page]
           | Some token \<Rightarrow> Option.bind (crawl serve (with_cursor r token)) (\<lambda>pages. Some (page # pages)))
      | _ \<Rightarrow> None)"

abbreviation serve_nearby :: "'g postgis \<Rightarrow> 'g crime_record list \<Rightarrow> 'u http_request \<Rightarrow> NearbyCrimesResponse http_response" where
  "serve_nearby gis tbl r \<equiv>
     fst (nearby_handler (GetNearby (FindNearby (crimes_server gis tbl))) r ())"

definition valid_nearby :: "NearbyCrimesQuery \<Rightarrow> bool" where
  "valid_nearby q \<longleftrightarrow> crimes_isValidCABACoordinates (nq_Lat q) (nq_Lng q) \<and> isValidRadius (nq_RadiusMeters q) \<and> isValidLimit (nq_Limit q)"

definition finite_geometry :: "'g postgis \<Rightarrow> bool" where
  "finite_geometry gis \<longleftrightarrow> (\<forall>g. json_float (ST_X gis g) \<noteq> None \<and> json_float (ST_Y gis g) \<noteq> None) \<and>
     (\<forall>g x y. is_fin (ST_Distance gis g x y))"

lemma page_rows: "set (page_Items (page_of L rows)) \<subseteq> scan_crime ` set rows"
  by (auto simp: page_of_def dest: in_set_takeD)

lemma rest_rows: "set (rest_after gis tbl q) \<subseteq> set (nearest gis tbl (nq_Lng q) (nq_Lat q) (nq_RadiusMeters q))"
  by (auto simp: rest_after_def)

lemma valid_coordinates_encode:
  "crimes_isValidCABACoordinates lat lng \<Longrightarrow> json_float lat \<noteq> None \<and> json_float lng \<noteq> None"
  by (cases lat; cases lng) (auto simp: crimes_isValidCABACoordinates_def json_float_def)

lemma serve_valid:
  assumes "parseNearbyCrimesQuery (rq_Query r) = Inr q" "valid_nearby (with_defaults q)" "finite_geometry gis"
  shows "hr_Body (serve_nearby gis tbl r) =
    (let q = with_defaults q; page = page_of (nat (sint (nq_Limit q))) (rest_after gis tbl q) in
     Json \<lparr>nr_Lat = nq_Lat q, nr_Lng = nq_Lng q, nr_RadiusMeters = nq_RadiusMeters q, nr_Count = length (page_Items page),
       nr_Items = page_Items page, nr_NextCursor = map_option Encode (page_Next page), nr_HasMore = page_HasMore page\<rparr>)"
proof -
  let ?q = "with_defaults q"
  let ?page = "page_of (nat (sint (nq_Limit ?q))) (rest_after gis tbl ?q)"
  have "set (page_Items ?page) \<subseteq> scan_crime ` set (nearest gis tbl (nq_Lng ?q) (nq_Lat ?q) (nq_RadiusMeters ?q))"
    using page_rows rest_rows by (meson image_mono subset_trans)
  then have "\<forall>c\<in>set (page_Items ?page). \<forall>x\<in>set (gj_Coordinates (crime_Location c)). json_float x \<noteq> None"
    using assms(3) by (fastforce simp: finite_geometry_def nearest_def rows_within_def nearby_select_def scan_crime_def)
  then show ?thesis using assms(1,2) FindNearby_server [of ?q gis tbl "()"] valid_coordinates_encode [of "nq_Lat ?q" "nq_Lng ?q"]
    by (simp add: nearby_handler_def GetNearby_def Let_def valid_nearby_def andThen_def ret_def fail_def nearby_encodable_def)
qed

lemma with_defaults_cursor: "with_defaults (q\<lparr>nq_Cursor := c\<rparr>) = (with_defaults q)\<lparr>nq_Cursor := c\<rparr>"
  by (simp add: with_defaults_def Let_def)

lemma row_distance:
  assumes "r \<in> set (nearest gis tbl lng lat radius)" "finite_geometry gis"
  shows "is_fin (cur_Distance (row_key r))"
  using assms by (auto simp: nearest_def rows_within_def nearby_select_def row_key_def finite_geometry_def)

lemma crawl_rest:
  assumes "parseNearbyCrimesQuery (rq_Query r) = Inr q" "valid_nearby (with_defaults q)"
    "distinct (map tb_ID tbl)" "finite_geometry gis"
    "nearest gis tbl (nq_Lng q) (nq_Lat q) (nq_RadiusMeters (with_defaults q)) = before @ rest_after gis tbl (with_defaults q)"
  shows "\<exists>pages. crawl (serve_nearby gis tbl) r = Some pages \<and>
    concat (map nr_Items pages) = map scan_crime (rest_after gis tbl (with_defaults q)) \<and>
    length pages \<le> length (rest_after gis tbl (with_defaults q)) div nat (sint (nq_Limit (with_defaults q))) + 1"
  using assms(1,2,5)
proof (induction "length (rest_after gis tbl (with_defaults q))" arbitrary: r q before rule: less_induct)
  case less
  define q' where "q' = with_defaults q"
  define R where "R = rest_after gis tbl q'"
  define L where "L = nat (sint (nq_Limit q'))"
  note body = serve_valid [OF less.prems(1,2) assms(4), of tbl, folded q'_def, unfolded Let_def]
  have L: "1 \<le> L" using less.prems(2) valid_limit unfolding valid_nearby_def L_def q'_def by force
  show ?case
  proof (cases "L < length R")
    case False
    then show ?thesis using body
      by (subst crawl.simps) (simp add: page_of_def R_def L_def q'_def)
  next
    case True
    define y where "y = R ! (L - 1)"
    have split: "R = take (L - 1) R @ y # drop L R"
      using True L id_take_nth_drop [of "L - 1" R] unfolding y_def by simp
    let ?near = "nearest gis tbl (nq_Lng q) (nq_Lat q) (nq_RadiusMeters q')"
    have near: "?near = (before @ take (L - 1) R) @ y # drop L R"
      using less.prems(3) split unfolding R_def q'_def by simp
    have same: "nq_Lng q' = nq_Lng q" "nq_Lat q' = nq_Lat q" unfolding q'_def by (simp_all add: with_defaults_def Let_def)
    have "y \<in> set ?near" by (subst near) simp
    then have fin: "is_fin (cur_Distance (row_key y))" by (rule row_distance [OF _ assms(4)])
    define q2 where "q2 = q\<lparr>nq_Cursor := Some (row_key y)\<rparr>"
    have q2': "with_defaults q2 = q'\<lparr>nq_Cursor := Some (row_key y)\<rparr>"
      unfolding q2_def q'_def by (rule with_defaults_cursor)
    have rest: "rest_after gis tbl (with_defaults q2) = drop L R"
      unfolding q2' rest_after_def
      using filter_above [of "\<lambda>r. keyset (row_key r)" "before @ take (L - 1) R" y "drop L R"]
        nearest_strict [OF assms(3), of gis "nq_Lng q" "nq_Lat q" "nq_RadiusMeters q'"]
      by (simp add: same near del: append_assoc)
    let ?r2 = "with_cursor r (Encode (row_key y))"
    have "\<exists>pages. crawl (serve_nearby gis tbl) ?r2 = Some pages \<and>
        concat (map nr_Items pages) = map scan_crime (rest_after gis tbl (with_defaults q2)) \<and>
        length pages \<le> length (rest_after gis tbl (with_defaults q2)) div nat (sint (nq_Limit (with_defaults q2))) + 1"
    proof (rule less.hyps)
      show "length (rest_after gis tbl (with_defaults q2)) < length (rest_after gis tbl (with_defaults q))"
        using True L unfolding rest by (simp add: R_def q'_def)
      show "parseNearbyCrimesQuery (rq_Query ?r2) = Inr q2"
        unfolding q2_def by (rule parse_with_cursor [OF less.prems(1) fin])
      show "valid_nearby (with_defaults q2)"
        using less.prems(2) unfolding q2' q'_def [symmetric] by (simp add: valid_nearby_def)
      show "nearest gis tbl (nq_Lng q2) (nq_Lat q2) (nq_RadiusMeters (with_defaults q2)) =
          (before @ take (L - 1) R @ [y]) @ rest_after gis tbl (with_defaults q2)"
        unfolding rest unfolding q2' using near by (simp add: q2_def)
    qed
    then obtain pages where p: "crawl (serve_nearby gis tbl) ?r2 = Some pages"
      "concat (map nr_Items pages) = map scan_crime (drop L R)" "length pages \<le> length (drop L R) div L + 1"
      unfolding rest by (auto simp: q2' L_def)
    have "length (drop L R) div L + 1 = length R div L"
      using True L by (simp add: le_div_geq)
    then have "length pages + 1 \<le> length R div L + 1" using p(3) by simp
    moreover have "map scan_crime (take L R) @ map scan_crime (drop L R) = map scan_crime R"
      by (metis append_take_drop_id map_append)
    ultimately show ?thesis using body p True
      by (subst crawl.simps) (simp add: page_of_def R_def [symmetric] L_def [symmetric] q'_def [symmetric] y_def [symmetric, simplified])
  qed
qed

text \<open>C8. A client that follows \<open>next_cursor\<close> from a valid first request gets an answer to every request and stops
  after at most one page per full limit and one more; its pages hold the crimes within the radius,
  each exactly once and nearest first, ties in the order of the ids, as long as the table does not change.\<close>

theorem pagination_complete:
  assumes "parseNearbyCrimesQuery (rq_Query r) = Inr q" "nq_Cursor q = None" "valid_nearby (with_defaults q)"
    "distinct (map tb_ID tbl)" "finite_geometry gis"
  shows "\<exists>pages. crawl (serve_nearby gis tbl) r = Some pages \<and>
    concat (map nr_Items pages) = map scan_crime (nearest gis tbl (nq_Lng q) (nq_Lat q) (nq_RadiusMeters (with_defaults q))) \<and>
    length pages \<le> length (nearest gis tbl (nq_Lng q) (nq_Lat q) (nq_RadiusMeters (with_defaults q))) div
      nat (sint (nq_Limit (with_defaults q))) + 1"
proof -
  have same: "nq_Lng (with_defaults q) = nq_Lng q" "nq_Lat (with_defaults q) = nq_Lat q" "nq_Cursor (with_defaults q) = None"
    using assms(2) by (simp_all add: with_defaults_def Let_def)
  then have "rest_after gis tbl (with_defaults q) = nearest gis tbl (nq_Lng q) (nq_Lat q) (nq_RadiusMeters (with_defaults q))"
    by (simp add: rest_after_def)
  then show ?thesis using crawl_rest [OF assms(1,3,4,5), of "[]"] by simp
qed

definition toy_gis :: "bool postgis" where
  "toy_gis = \<lparr>ST_X = (\<lambda>g. 0), ST_Y = (\<lambda>g. 0), ST_Distance = (\<lambda>g x y. if g then 1 else 0), ST_DWithin = (\<lambda>g x y r. True)\<rparr>"

definition toy_crime :: "i64 \<Rightarrow> string \<Rightarrow> bool \<Rightarrow> bool crime_record" where
  "toy_crime i source far = \<lparr>tb_ID = i, tb_SourceID = source, tb_Year = 2023, tb_Month = 5, tb_Day = 1, tb_Date = ''2023-05-01'',
     tb_Hour = 3, tb_CrimeType = ''Robo'', tb_CrimeSubtype = None, tb_WeaponUsed = False, tb_MotorcycleUsed = False,
     tb_Neighborhood = None, tb_Commune = None, tb_Quantity = 1, tb_Geom = far\<rparr>"

definition toy_crimes :: "bool crime_record list" where
  "toy_crimes = [toy_crime 3 ''far'' True, toy_crime 2 ''second'' False, toy_crime 1 ''first'' False]"

definition toy_nearby :: "unit http_request" where
  "toy_nearby = \<lparr>rq_Query = (\<lambda>k. if k = ''lat'' then ''-34.5'' else if k = ''lng'' then ''-58.5'' else if k = ''limit'' then ''2'' else []),
     rq_Header = (\<lambda>k. []), rq_RemoteAddr = [], rq_Cookie = (\<lambda>k. None), rq_Body = [], rq_User = None\<rparr>"

lemma toy_nearby_texts: "ParseFloat ''-34.5'' = Some (Fin (- 69 / 2))" "ParseFloat ''-58.5'' = Some (Fin (- 117 / 2))" "Atoi ''2'' = Some 2"
  by code_simp+

lemma toy_nearest: "map (crime_SourceID \<circ> scan_crime) (nearest toy_gis toy_crimes lng lat 300) = [''first'', ''second'', ''far'']"
  by (simp add: nearest_def rows_within_def toy_gis_def toy_crimes_def toy_crime_def nearby_select_def keyset_def row_key_def
      zero_f64_def one_f64_def scan_crime_def less_prod_def')

theorem pagination_complete_witness:
  "\<exists>pages. crawl (serve_nearby toy_gis toy_crimes) toy_nearby = Some pages \<and>
     map crime_SourceID (concat (map nr_Items pages)) = [''first'', ''second'', ''far''] \<and> length pages \<le> 2"
proof -
  let ?q = "\<lparr>nq_Lat = Fin (- 69 / 2), nq_Lng = Fin (- 117 / 2), nq_RadiusMeters = 0, nq_Limit = 2, nq_Cursor = None\<rparr>"
  have p: "parseNearbyCrimesQuery (rq_Query toy_nearby) = Inr ?q"
    by (simp add: parseNearbyCrimesQuery_def toy_nearby_def optional_int_def optional_cursor_def toy_nearby_texts)
  have d: "with_defaults ?q = ?q\<lparr>nq_RadiusMeters := 300\<rparr>" by (simp add: with_defaults_def DefaultRadiusMeters_def)
  have v: "valid_nearby (with_defaults ?q)"
    unfolding d by (simp add: valid_nearby_def crimes_isValidCABACoordinates_def isValidRadius_def isValidLimit_def MaxRadiusMeters_def MaxLimit_def word_sle_eq)
  have n: "map (crime_SourceID \<circ> scan_crime) (nearest toy_gis toy_crimes (nq_Lng ?q) (nq_Lat ?q) (nq_RadiusMeters (with_defaults ?q))) =
      [''first'', ''second'', ''far'']"
    unfolding d using toy_nearest [of "nq_Lng ?q" "nq_Lat ?q"] by simp
  from arg_cong [OF n, of length] have l: "length (nearest toy_gis toy_crimes (nq_Lng ?q) (nq_Lat ?q) (nq_RadiusMeters (with_defaults ?q))) = 3" by simp
  have "distinct (map tb_ID toy_crimes)" by (simp add: toy_crimes_def toy_crime_def)
  moreover have "finite_geometry toy_gis" by (simp add: finite_geometry_def toy_gis_def json_float_def zero_f64_def)
      (simp add: is_fin_0 [unfolded zero_f64_def])
  ultimately show ?thesis
    using pagination_complete [OF p _ v, of toy_crimes toy_gis] n l unfolding d by (auto simp: comp_def simp del: map_concat)
qed

end
