(* ===== verification/RoadGraph.thy ===== *)
theory RoadGraph
  imports FloatText PgRows Requests ErrorSets
begin

section \<open>The walkable road graph\<close>

text \<open>
  \<open>internal/roadgraph\<close>: records, service, repository and handler. The two SQL statements are answered by the
  database, a parameter; the geometry it answers with is GeoJSON text.
\<close>

subsection \<open>Data\<close>

datatype roadgraph_error = ErrInvalidCoordinates | ErrNoRoute

record GraphStats =
  gs_NodesCount :: i64
  gs_EdgesCount :: i64
  gs_WalkableEdges :: i64
  gs_RoutableEdges :: i64
  gs_ExcludedEdges :: i64
  gs_RiskScoredEdges :: i64
  gs_MinLat :: f64
  gs_MinLng :: f64
  gs_MaxLat :: f64
  gs_MaxLng :: f64

record RoutePoint =
  pt_Lat :: f64
  pt_Lng :: f64
  pt_SnappedNodeID :: i64

record WalkGeometry =
  wg_Type :: string
  wg_Coordinates :: "f64 list list"

record WalkRoute =
  wr_From :: RoutePoint
  wr_To :: RoutePoint
  wr_DistanceMeters :: f64
  wr_DurationSeconds :: f64
  wr_EdgeCount :: i64
  wr_Geometry :: WalkGeometry

record WalkRouteQuery =
  wq_FromLat :: f64
  wq_FromLng :: f64
  wq_ToLat :: f64
  wq_ToLng :: f64

subsection \<open>The repository\<close>

text \<open>A row of \<open>walkRouteQuery\<close>: the snapped nodes, distance, duration, number of edges, geometry.\<close>

type_synonym walk_row = "i64 option \<times> i64 option \<times> f64 \<times> f64 \<times> i64 \<times> string option"

record 's road_db =
  q_Stats :: "'s \<Rightarrow> (pgx_error + GraphStats) \<times> 's"
  q_WalkRoute :: "f64 \<Rightarrow> f64 \<Rightarrow> f64 \<Rightarrow> f64 \<Rightarrow> 's \<Rightarrow> (pgx_error + walk_row) \<times> 's"

definition pg_GetStats :: "'s road_db \<Rightarrow> ('s, roadgraph_error, GraphStats) prog" where
  "pg_GetStats db s = (case q_Stats db s of
     (Inl e, s) \<Rightarrow> (Inl (Wrap ''roadgraph: get stats'' (Opaque (pgx_text e))), s)
   | (Inr stats, s) \<Rightarrow> (Inr stats, s))"

definition store_walk_geometry :: "json \<Rightarrow> WalkGeometry \<Rightarrow> WalkGeometry option" where
  "store_walk_geometry = store_fields
     [(''type'', \<lambda>v g. map_option (\<lambda>t. g\<lparr>wg_Type := t\<rparr>) (store_string v (wg_Type g))),
      (''coordinates'', \<lambda>v g. map_option (\<lambda>cs. g\<lparr>wg_Coordinates := cs\<rparr>)
         (store_list (store_list store_float 0) [] v (wg_Coordinates g)))]"

definition pg_FindWalkRoute :: "'s road_db \<Rightarrow> WalkRouteQuery \<Rightarrow> ('s, roadgraph_error, WalkRoute) prog" where
  "pg_FindWalkRoute db query s =
     (case q_WalkRoute db (wq_FromLng query) (wq_FromLat query) (wq_ToLng query) (wq_ToLat query) s of
        (Inl e, s) \<Rightarrow> (Inl (Wrap ''roadgraph: find walk route'' (Opaque (pgx_text e))), s)
      | (Inr (fromNode, toNode, distance, duration, edgeCount, geomJSON), s) \<Rightarrow>
          (case (fromNode, toNode, geomJSON) of
             (Some src, Some dst, Some geom) \<Rightarrow>
               if edgeCount = 0 then (Inl (Sentinel ErrNoRoute), s)
               else (case Unmarshal store_walk_geometry \<lparr>wg_Type = [], wg_Coordinates = []\<rparr> geom of
                   None \<Rightarrow> (Inl (Wrap ''roadgraph: decode route geometry'' (Opaque ''json'')), s)
                 | Some g \<Rightarrow>
                     if wg_Type g \<noteq> ''LineString'' then (Inl (Opaque (''roadgraph: unexpected route geometry type '' @ wg_Type g)), s)
                     else (Inr \<lparr>wr_From = \<lparr>pt_Lat = wq_FromLat query, pt_Lng = wq_FromLng query, pt_SnappedNodeID = src\<rparr>,
                         wr_To = \<lparr>pt_Lat = wq_ToLat query, pt_Lng = wq_ToLng query, pt_SnappedNodeID = dst\<rparr>,
                         wr_DistanceMeters = distance, wr_DurationSeconds = duration, wr_EdgeCount = edgeCount, wr_Geometry = g\<rparr>, s))
           | _ \<Rightarrow> (Inl (Sentinel ErrNoRoute), s)))"

subsection \<open>The service\<close>

definition roadgraph_isValidCABACoordinates :: "f64 \<Rightarrow> f64 \<Rightarrow> bool" where
  "roadgraph_isValidCABACoordinates lat lng \<longleftrightarrow> Fin (- 35) \<le> lat \<and> lat \<le> Fin (- 34) \<and> Fin (- 59) \<le> lng \<and> lng \<le> Fin (- 58)"

definition WalkRouteService :: "(WalkRouteQuery \<Rightarrow> ('s, roadgraph_error, WalkRoute) prog) \<Rightarrow> WalkRouteQuery \<Rightarrow> ('s, roadgraph_error, WalkRoute) prog" where
  "WalkRouteService find_route query =
     (if \<not> roadgraph_isValidCABACoordinates (wq_FromLat query) (wq_FromLng query) \<or>
         \<not> roadgraph_isValidCABACoordinates (wq_ToLat query) (wq_ToLng query) then fail (Sentinel ErrInvalidCoordinates)
      else if feq (wq_FromLat query) (wq_ToLat query) \<and> feq (wq_FromLng query) (wq_ToLng query) then fail (Sentinel ErrInvalidCoordinates)
      else find_route query)"

subsection \<open>The endpoints\<close>

definition parseWalkRouteQuery :: "(string \<Rightarrow> string) \<Rightarrow> WalkRouteQuery option" where
  "parseWalkRouteQuery get =
     (case ParseFloat (get ''from_lat'') of None \<Rightarrow> None | Some fromLat \<Rightarrow>
      case ParseFloat (get ''from_lng'') of None \<Rightarrow> None | Some fromLng \<Rightarrow>
      case ParseFloat (get ''to_lat'') of None \<Rightarrow> None | Some toLat \<Rightarrow>
      case ParseFloat (get ''to_lng'') of None \<Rightarrow> None | Some toLng \<Rightarrow>
        Some \<lparr>wq_FromLat = fromLat, wq_FromLng = fromLng, wq_ToLat = toLat, wq_ToLng = toLng\<rparr>)"

definition stats_encodable :: "GraphStats \<Rightarrow> bool" where
  "stats_encodable g \<longleftrightarrow> json_float (gs_MinLat g) \<noteq> None \<and> json_float (gs_MinLng g) \<noteq> None \<and>
     json_float (gs_MaxLat g) \<noteq> None \<and> json_float (gs_MaxLng g) \<noteq> None"

definition point_encodable :: "RoutePoint \<Rightarrow> bool" where
  "point_encodable p \<longleftrightarrow> json_float (pt_Lat p) \<noteq> None \<and> json_float (pt_Lng p) \<noteq> None"

definition walk_encodable :: "WalkRoute \<Rightarrow> bool" where
  "walk_encodable w \<longleftrightarrow> point_encodable (wr_From w) \<and> point_encodable (wr_To w) \<and>
     json_float (wr_DistanceMeters w) \<noteq> None \<and> json_float (wr_DurationSeconds w) \<noteq> None \<and>
     (\<forall>p\<in>set (wg_Coordinates (wr_Geometry w)). \<forall>x\<in>set p. json_float x \<noteq> None)"

definition stats_handler :: "('s, roadgraph_error, GraphStats) prog \<Rightarrow> ('s, 'u, GraphStats) handler" where
  "stats_handler get_stats r s =
     (case get_stats s of
        (Inl err, s) \<Rightarrow> (WriteInternalError ''could not fetch road graph stats'', s)
      | (Inr stats, s) \<Rightarrow> (WriteJSON stats_encodable [] 200 stats, s))"

definition walk_error_response :: "roadgraph_error goerr \<Rightarrow> 'p http_response" where
  "walk_error_response err =
     (if errors_Is err ErrInvalidCoordinates then WriteInvalidRequest ''endpoints must be distinct and within CABA''
      else if errors_Is err ErrNoRoute then WriteError 404 ''route_not_found'' ''no walkable route between the points''
      else WriteInternalError ''could not compute walkable route'')"

definition walk_handler :: "(WalkRouteQuery \<Rightarrow> ('s, roadgraph_error, WalkRoute) prog) \<Rightarrow> ('s, 'u, WalkRoute) handler" where
  "walk_handler service r s =
     (case parseWalkRouteQuery (rq_Query r) of
        None \<Rightarrow> (WriteInvalidRequest ''from_lat, from_lng, to_lat and to_lng are required and must be valid CABA coordinates'', s)
      | Some query \<Rightarrow>
          (case service query s of
             (Inl err, s) \<Rightarrow> (walk_error_response err, s)
           | (Inr route, s) \<Rightarrow> (WriteJSON walk_encodable [] 200 route, s)))"

end
