(* ===== verification/OrsRoutes.thy ===== *)
theory OrsRoutes
  imports FloatText Requests ErrorSets
begin

section \<open>Routes of the external service\<close>

text \<open>
  \<open>internal/routes\<close>: records, service, the client of OpenRouteService and the handler. The outside world is
  a parameter: whether a request can be built for a URL, and what sending it gives, a transport error or a status and a body.
\<close>

subsection \<open>Data\<close>

datatype routes_error = ErrInvalidCoordinates | ErrSamePoint | ErrInvalidProfile | ErrRouteNotFound | ErrExternalService

record OrsGeometry =
  og_Type :: string
  og_Coordinates :: "f64 list list"

record OrsRoute =
  or_Distance :: f64
  or_Duration :: f64
  or_Geometry :: OrsGeometry

record Waypoint =
  wp_Lat :: f64
  wp_Lng :: f64

record RouteQuery =
  oq_OriginLat :: f64
  oq_OriginLng :: f64
  oq_DestLat :: f64
  oq_DestLng :: f64
  oq_Profile :: string

record RouteResponse =
  os_Origin :: Waypoint
  os_Destination :: Waypoint
  os_Profile :: string
  os_Distance :: f64
  os_Duration :: f64
  os_Geometry :: OrsGeometry

subsection \<open>The client\<close>

record ORSClient =
  ors_apiKey :: string
  ors_baseURL :: string

record 's http_client =
  NewRequest :: "string \<Rightarrow> bool"
  Do :: "string \<Rightarrow> (string \<times> string) list \<Rightarrow> 's \<Rightarrow> (string + nat \<times> string) \<times> 's"

text \<open>\<open>%f\<close>: six decimals.\<close>

definition fmt_f :: "f64 \<Rightarrow> string" where
  "fmt_f x = (case x of
     NaN \<Rightarrow> ''NaN'' | PInf \<Rightarrow> ''+Inf'' | NInf \<Rightarrow> ''-Inf''
   | Fin q \<Rightarrow> (let n = nat (round_half_even (\<bar>q\<bar> * 1000000))
              in (if q < 0 then ''-'' else []) @ dec (n div 1000000) @ ''.'' @ dec_pad 6 (n mod 1000000)))"

definition ors_url :: "ORSClient \<Rightarrow> RouteQuery \<Rightarrow> string" where
  "ors_url c q = ors_baseURL c @ ''/v2/directions/'' @ oq_Profile q @ ''?start='' @ fmt_f (oq_OriginLng q) @ '','' @ fmt_f (oq_OriginLat q) @
     ''&end='' @ fmt_f (oq_DestLng q) @ '','' @ fmt_f (oq_DestLat q)"

record ors_feature =
  of_Geometry :: OrsGeometry
  of_Distance :: f64
  of_Duration :: f64

definition store_ors_geometry :: "json \<Rightarrow> OrsGeometry \<Rightarrow> OrsGeometry option" where
  "store_ors_geometry = store_fields
     [(''type'', \<lambda>v g. map_option (\<lambda>t. g\<lparr>og_Type := t\<rparr>) (store_string v (og_Type g))),
      (''coordinates'', \<lambda>v g. map_option (\<lambda>cs. g\<lparr>og_Coordinates := cs\<rparr>)
         (store_list (store_list store_float 0) [] v (og_Coordinates g)))]"

definition store_summary :: "json \<Rightarrow> ors_feature \<Rightarrow> ors_feature option" where
  "store_summary = store_fields
     [(''distance'', \<lambda>v f. map_option (\<lambda>d. f\<lparr>of_Distance := d\<rparr>) (store_float v (of_Distance f))),
      (''duration'', \<lambda>v f. map_option (\<lambda>d. f\<lparr>of_Duration := d\<rparr>) (store_float v (of_Duration f)))]"

definition store_feature :: "json \<Rightarrow> ors_feature \<Rightarrow> ors_feature option" where
  "store_feature = store_fields
     [(''geometry'', \<lambda>v f. map_option (\<lambda>g. f\<lparr>of_Geometry := g\<rparr>) (store_ors_geometry v (of_Geometry f))),
      (''properties'', store_fields [(''summary'', store_summary)])]"

definition zero_feature :: ors_feature where
  "zero_feature = \<lparr>of_Geometry = \<lparr>og_Type = [], og_Coordinates = []\<rparr>, of_Distance = 0, of_Duration = 0\<rparr>"

definition store_ors :: "json \<Rightarrow> ors_feature list \<Rightarrow> ors_feature list option" where
  "store_ors = store_fields [(''features'', store_list store_feature zero_feature)]"

definition FetchRoute :: "ORSClient \<Rightarrow> 's http_client \<Rightarrow> RouteQuery \<Rightarrow> ('s, routes_error, OrsRoute) prog" where
  "FetchRoute c net query s =
     (let url = ors_url c query in
      if \<not> NewRequest net url then (Inl (Wrap ''routes: build request'' (Sentinel ErrExternalService)), s)
      else case Do net url [(''Authorization'', ''Bearer '' @ ors_apiKey c), (''Accept'', ''application/geo+json'')] s of
          (Inl e, s) \<Rightarrow> (Inl (Wrap ''routes: ORS unreachable'' (Sentinel ErrExternalService)), s)
        | (Inr (status, body), s) \<Rightarrow>
            if 400 \<le> status then
              let detail = TrimSpace (take 1024 body) in
              if status = 404
              then (Inl (Wrap (''routes: ORS found no route (status '' @ dec status @ ''): '' @ detail) (Sentinel ErrRouteNotFound)), s)
              else (Inl (Wrap (''routes: ORS request failed (status '' @ dec status @ ''): '' @ detail) (Sentinel ErrExternalService)), s)
            else (case DecodeFirst store_ors [] body of
                None \<Rightarrow> (Inl (Wrap ''routes: decode ORS response'' (Sentinel ErrExternalService)), s)
              | Some [] \<Rightarrow> (Inl (Sentinel ErrRouteNotFound), s)
              | Some (f # fs) \<Rightarrow>
                  (Inr \<lparr>or_Distance = of_Distance f, or_Duration = of_Duration f, or_Geometry = of_Geometry f\<rparr>, s)))"

subsection \<open>The service\<close>

definition DefaultProfile :: string where "DefaultProfile = ''driving-car''"

definition allowedProfiles :: "string list" where
  "allowedProfiles = [''driving-car'', ''foot-walking'', ''cycling-regular'']"

definition routes_isValidCABACoordinates :: "f64 \<Rightarrow> f64 \<Rightarrow> bool" where
  "routes_isValidCABACoordinates lat lng \<longleftrightarrow> Fin (- 35) \<le> lat \<and> lat \<le> Fin (- 34) \<and> Fin (- 59) \<le> lng \<and> lng \<le> Fin (- 58)"

definition GetRoute :: "(RouteQuery \<Rightarrow> ('s, routes_error, OrsRoute) prog) \<Rightarrow> RouteQuery \<Rightarrow> ('s, routes_error, RouteResponse) prog" where
  "GetRoute fetch query =
     (let query = (if oq_Profile query = [] then query\<lparr>oq_Profile := DefaultProfile\<rparr> else query) in
      if oq_Profile query \<notin> set allowedProfiles then fail (Sentinel ErrInvalidProfile)
      else if \<not> routes_isValidCABACoordinates (oq_OriginLat query) (oq_OriginLng query) then fail (Sentinel ErrInvalidCoordinates)
      else if \<not> routes_isValidCABACoordinates (oq_DestLat query) (oq_DestLng query) then fail (Sentinel ErrInvalidCoordinates)
      else if feq (oq_OriginLat query) (oq_DestLat query) \<and> feq (oq_OriginLng query) (oq_DestLng query) then fail (Sentinel ErrSamePoint)
      else andThen (fetch query) (\<lambda>route.
        ret \<lparr>os_Origin = \<lparr>wp_Lat = oq_OriginLat query, wp_Lng = oq_OriginLng query\<rparr>,
             os_Destination = \<lparr>wp_Lat = oq_DestLat query, wp_Lng = oq_DestLng query\<rparr>, os_Profile = oq_Profile query,
             os_Distance = or_Distance route, os_Duration = or_Duration route, os_Geometry = or_Geometry route\<rparr>))"

subsection \<open>The endpoint\<close>

definition parseRequiredFloat :: "string \<Rightarrow> f64 option" where
  "parseRequiredFloat s = (if s = [] then None else ParseFloat s)"

definition parseRouteQuery :: "(string \<Rightarrow> string) \<Rightarrow> RouteQuery option" where
  "parseRouteQuery get =
     (case parseRequiredFloat (get ''origin_lat'') of None \<Rightarrow> None | Some originLat \<Rightarrow>
      case parseRequiredFloat (get ''origin_lng'') of None \<Rightarrow> None | Some originLng \<Rightarrow>
      case parseRequiredFloat (get ''dest_lat'') of None \<Rightarrow> None | Some destLat \<Rightarrow>
      case parseRequiredFloat (get ''dest_lng'') of None \<Rightarrow> None | Some destLng \<Rightarrow>
        Some \<lparr>oq_OriginLat = originLat, oq_OriginLng = originLng, oq_DestLat = destLat, oq_DestLng = destLng,
          oq_Profile = get ''profile''\<rparr>)"

definition routes_error_response :: "routes_error goerr \<Rightarrow> 'p http_response" where
  "routes_error_response err =
     (if errors_Is err ErrInvalidCoordinates then
        WriteError 400 ''invalid_request'' ''origin and destination must be valid CABA coordinates''
      else if errors_Is err ErrSamePoint then
        WriteError 400 ''invalid_request'' ''origin and destination must not be the same point''
      else if errors_Is err ErrInvalidProfile then
        WriteError 400 ''invalid_request'' ''profile must be one of: driving-car, foot-walking, cycling-regular''
      else if errors_Is err ErrRouteNotFound then
        WriteError 404 ''route_not_found'' ''no route found between the given points''
      else if errors_Is err ErrExternalService then
        WriteError 502 ''external_service_error'' ''route service is temporarily unavailable''
      else WriteInternalError ''could not calculate route'')"

definition waypoint_encodable :: "Waypoint \<Rightarrow> bool" where
  "waypoint_encodable p \<longleftrightarrow> json_float (wp_Lat p) \<noteq> None \<and> json_float (wp_Lng p) \<noteq> None"

definition route_encodable :: "RouteResponse \<Rightarrow> bool" where
  "route_encodable x \<longleftrightarrow> waypoint_encodable (os_Origin x) \<and> waypoint_encodable (os_Destination x) \<and>
     json_float (os_Distance x) \<noteq> None \<and> json_float (os_Duration x) \<noteq> None \<and>
     (\<forall>p\<in>set (og_Coordinates (os_Geometry x)). \<forall>c\<in>set p. json_float c \<noteq> None)"

definition route_handler :: "(RouteQuery \<Rightarrow> ('s, routes_error, RouteResponse) prog) \<Rightarrow> ('s, 'u, RouteResponse) handler" where
  "route_handler service r s =
     (case parseRouteQuery (rq_Query r) of
        None \<Rightarrow> (routes_error_response (Sentinel ErrInvalidCoordinates), s)
      | Some query \<Rightarrow>
          (case service query s of
             (Inl err, s) \<Rightarrow> (routes_error_response err, s)
           | (Inr response, s) \<Rightarrow> (WriteJSON route_encodable [] 200 response, s)))"

end
