(* ===== verification/EndpointProperties.thy ===== *)
theory EndpointProperties
  imports CrimesProperties RoadGraph OrsRoutes
begin

section \<open>Correctness of the read-only endpoints\<close>

subsection \<open>Crimes near a point\<close>











subsection \<open>Walking routes\<close>

definition valid_walk :: "WalkRouteQuery \<Rightarrow> bool" where
  "valid_walk q \<longleftrightarrow> roadgraph_isValidCABACoordinates (wq_FromLat q) (wq_FromLng q) \<and>
     roadgraph_isValidCABACoordinates (wq_ToLat q) (wq_ToLng q) \<and> \<not> (feq (wq_FromLat q) (wq_ToLat q) \<and> feq (wq_FromLng q) (wq_ToLng q))"

text \<open>C36. The answer to a request for a walking route, exactly, by what the database answers to its one statement. 400 without asking it for a
  query that does not parse or is not two distinct points of the bounding box; 500 when the statement fails; 404 when it gives no
  node, no geometry or no edge; 500 when its geometry is not the JSON of a \<open>LineString\<close>; else 200 with the route between the requested
  points, its nodes, distance, duration, number of edges and geometry those of the row, or 500 if a number of it cannot be written as JSON.\<close>

theorem walk_status:
  "case walk_handler (WalkRouteService (pg_FindWalkRoute db)) r s of (resp, s') \<Rightarrow>
     (case parseWalkRouteQuery (rq_Query r) of
        None \<Rightarrow> hr_Status resp = 400 \<and> (\<exists>msg. hr_Body resp = ErrorJson ''invalid_request'' msg) \<and> s' = s
      | Some q \<Rightarrow>
          if \<not> valid_walk q then hr_Status resp = 400 \<and> (\<exists>msg. hr_Body resp = ErrorJson ''invalid_request'' msg) \<and> s' = s
          else (case fst (q_WalkRoute db (wq_FromLng q) (wq_FromLat q) (wq_ToLng q) (wq_ToLat q) s) of
              Inl e \<Rightarrow> hr_Status resp = 500 \<and> (\<exists>msg. hr_Body resp = ErrorJson ''internal_error'' msg)
            | Inr (src, dst, distance, duration, n, geom) \<Rightarrow>
                if src = None \<or> dst = None \<or> geom = None \<or> n = 0
                then hr_Status resp = 404 \<and> (\<exists>msg. hr_Body resp = ErrorJson ''route_not_found'' msg)
                else (case Unmarshal store_walk_geometry \<lparr>wg_Type = [], wg_Coordinates = []\<rparr> (the geom) of
                    None \<Rightarrow> hr_Status resp = 500 \<and> (\<exists>msg. hr_Body resp = ErrorJson ''internal_error'' msg)
                  | Some g \<Rightarrow>
                      if wg_Type g \<noteq> ''LineString'' then hr_Status resp = 500 \<and> (\<exists>msg. hr_Body resp = ErrorJson ''internal_error'' msg)
                      else let w = \<lparr>wr_From = \<lparr>pt_Lat = wq_FromLat q, pt_Lng = wq_FromLng q, pt_SnappedNodeID = the src\<rparr>,
                             wr_To = \<lparr>pt_Lat = wq_ToLat q, pt_Lng = wq_ToLng q, pt_SnappedNodeID = the dst\<rparr>,
                             wr_DistanceMeters = distance, wr_DurationSeconds = duration, wr_EdgeCount = n, wr_Geometry = g\<rparr>
                        in if walk_encodable w then hr_Status resp = 200 \<and> hr_Body resp = Json w else hr_Status resp = 500)))"
proof (cases "parseWalkRouteQuery (rq_Query r)")
  case None
  then show ?thesis by (simp add: walk_handler_def)
next
  case (Some q)
  show ?thesis
  proof (cases "valid_walk q")
    case False
    then have "WalkRouteService (pg_FindWalkRoute db) q s = (Inl (Sentinel roadgraph_error.ErrInvalidCoordinates), s)"
      by (auto simp: WalkRouteService_def fail_def valid_walk_def)
    then show ?thesis using Some False by (simp add: walk_handler_def walk_error_response_def)
  next
    case True
    then have run: "WalkRouteService (pg_FindWalkRoute db) q s = pg_FindWalkRoute db q s"
      by (auto simp: WalkRouteService_def valid_walk_def)
    obtain x s1 where x: "q_WalkRoute db (wq_FromLng q) (wq_FromLat q) (wq_ToLng q) (wq_ToLat q) s = (x, s1)" by fastforce
    show ?thesis
    proof (cases x)
      case (Inl e)
      then show ?thesis using Some True by (simp add: walk_handler_def run pg_FindWalkRoute_def x walk_error_response_def)
    next
      case (Inr row)
      obtain src dst distance duration n geom where "row = (src, dst, distance, duration, n, geom)" by (cases row)
      then show ?thesis using Some True Inr
        by (cases src; cases dst; cases geom)
          (auto simp: walk_handler_def run pg_FindWalkRoute_def x walk_error_response_def Let_def split: option.split)
    qed
  qed
qed

subsection \<open>Routes of the external service\<close>

definition valid_route :: "RouteQuery \<Rightarrow> bool" where
  "valid_route q \<longleftrightarrow> (oq_Profile q = [] \<or> oq_Profile q \<in> set allowedProfiles) \<and>
     routes_isValidCABACoordinates (oq_OriginLat q) (oq_OriginLng q) \<and> routes_isValidCABACoordinates (oq_DestLat q) (oq_DestLng q) \<and>
     \<not> (feq (oq_OriginLat q) (oq_DestLat q) \<and> feq (oq_OriginLng q) (oq_DestLng q))"

definition with_profile :: "RouteQuery \<Rightarrow> RouteQuery" where
  "with_profile q = (if oq_Profile q = [] then q\<lparr>oq_Profile := DefaultProfile\<rparr> else q)"

definition ors_answer :: "ORSClient \<Rightarrow> 's http_client \<Rightarrow> RouteQuery \<Rightarrow> 's \<Rightarrow> string + nat \<times> string" where
  "ors_answer c net q s = (let url = ors_url c (with_profile q) in
     if NewRequest net url
     then fst (Do net url [(''Authorization'', ''Bearer '' @ ors_apiKey c), (''Accept'', ''application/geo+json'')] s)
     else Inl [])"

lemma GetRoute_valid:
  assumes "valid_route q"
  shows "GetRoute (FetchRoute c net) q = andThen (FetchRoute c net (with_profile q)) (\<lambda>route.
    ret \<lparr>os_Origin = \<lparr>wp_Lat = oq_OriginLat q, wp_Lng = oq_OriginLng q\<rparr>,
         os_Destination = \<lparr>wp_Lat = oq_DestLat q, wp_Lng = oq_DestLng q\<rparr>, os_Profile = oq_Profile (with_profile q),
         os_Distance = or_Distance route, os_Duration = or_Duration route, os_Geometry = or_Geometry route\<rparr>)"
  using assms unfolding GetRoute_def Let_def by (auto simp: valid_route_def with_profile_def DefaultProfile_def allowedProfiles_def)

lemma GetRoute_refused:
  assumes "\<not> valid_route q"
  shows "\<exists>e \<in> {ErrInvalidCoordinates, ErrSamePoint, ErrInvalidProfile}. GetRoute (FetchRoute c net) q s = (Inl (Sentinel e), s)"
  using assms unfolding GetRoute_def Let_def by (auto simp: valid_route_def fail_def DefaultProfile_def allowedProfiles_def)

text \<open>C37. The answer to a request for a route of the external service, exactly, by what that service answers to the request that is sent for the query. 400
  for a query that does not parse or is refused, and then nothing is sent; 502 when the service cannot be reached, answers
  with an error other than 404, or with what is not its format; 404 when it answers 404 or no feature; else 200 with the route of its first feature
  between the requested points, by the requested profile or the default one, or 500 if a number of it cannot be written as JSON.\<close>

theorem route_status:
  "case route_handler (GetRoute (FetchRoute c net)) r s of (resp, s') \<Rightarrow>
     (case parseRouteQuery (rq_Query r) of
        None \<Rightarrow> hr_Status resp = 400 \<and> (\<exists>msg. hr_Body resp = ErrorJson ''invalid_request'' msg) \<and> s' = s
      | Some q \<Rightarrow>
          if \<not> valid_route q then hr_Status resp = 400 \<and> (\<exists>msg. hr_Body resp = ErrorJson ''invalid_request'' msg) \<and> s' = s
          else (case ors_answer c net q s of
              Inl e \<Rightarrow> hr_Status resp = 502 \<and> (\<exists>msg. hr_Body resp = ErrorJson ''external_service_error'' msg)
            | Inr (status, body) \<Rightarrow>
                if status = 404 then hr_Status resp = 404 \<and> (\<exists>msg. hr_Body resp = ErrorJson ''route_not_found'' msg)
                else if 400 \<le> status then hr_Status resp = 502 \<and> (\<exists>msg. hr_Body resp = ErrorJson ''external_service_error'' msg)
                else (case DecodeFirst store_ors [] body of
                    None \<Rightarrow> hr_Status resp = 502 \<and> (\<exists>msg. hr_Body resp = ErrorJson ''external_service_error'' msg)
                  | Some [] \<Rightarrow> hr_Status resp = 404 \<and> (\<exists>msg. hr_Body resp = ErrorJson ''route_not_found'' msg)
                  | Some (f # fs) \<Rightarrow>
                      let x = \<lparr>os_Origin = \<lparr>wp_Lat = oq_OriginLat q, wp_Lng = oq_OriginLng q\<rparr>,
                        os_Destination = \<lparr>wp_Lat = oq_DestLat q, wp_Lng = oq_DestLng q\<rparr>,
                        os_Profile = (if oq_Profile q = [] then ''driving-car'' else oq_Profile q),
                        os_Distance = of_Distance f, os_Duration = of_Duration f, os_Geometry = of_Geometry f\<rparr>
                      in if route_encodable x then hr_Status resp = 200 \<and> hr_Body resp = Json x else hr_Status resp = 500)))"
proof (cases "parseRouteQuery (rq_Query r)")
  case None
  then show ?thesis by (simp add: route_handler_def routes_error_response_def WriteError_def)
next
  case (Some q)
  show ?thesis
  proof (cases "valid_route q")
    case False
    from GetRoute_refused [OF this, of c net s] show ?thesis
      using Some False by (auto simp: route_handler_def routes_error_response_def)
  next
    case True
    have profile: "oq_Profile (with_profile q) = (if oq_Profile q = [] then ''driving-car'' else oq_Profile q)"
      by (simp add: with_profile_def DefaultProfile_def)
    show ?thesis
    proof (cases "NewRequest net (ors_url c (with_profile q))")
      case False
      then show ?thesis using Some True
        by (simp add: ors_answer_def route_handler_def GetRoute_valid andThen_def FetchRoute_def routes_error_response_def)
    next
      case sent: True
      obtain a s1 where a: "Do net (ors_url c (with_profile q))
          [(''Authorization'', ''Bearer '' @ ors_apiKey c), (''Accept'', ''application/geo+json'')] s = (a, s1)" by fastforce
      then have answer: "ors_answer c net q s = a" using sent by (simp add: ors_answer_def)
      note step = route_handler_def GetRoute_valid andThen_def ret_def FetchRoute_def Let_def routes_error_response_def profile answer Some True sent
      show ?thesis
      proof (cases a)
        case (Inl e)
        then show ?thesis using a by (simp add: step)
      next
        case (Inr sb)
        obtain status body where sb: "sb = (status, body)" by fastforce
        show ?thesis
        proof (cases "DecodeFirst store_ors [] body")
          case None
          then show ?thesis using a by (simp add: step Inr sb)
        next
          case (Some fs)
          then show ?thesis using a by (cases fs) (simp_all add: step Inr sb)
        qed
      qed
    qed
  qed
qed

end
