(* ===== verification/TimeProperties.thy ===== *)
theory TimeProperties
  imports HandlerProperties
begin

section \<open>The time of a request\<close>

text \<open>
  What a client may do with the datetime of an answer: send it back. It is read again, as long as the texts the
  server writes are texts it reads.
\<close>

subsection \<open>Moments with an RFC 3339 text\<close>

definition rfc3339_moment :: "go_time \<Rightarrow> bool" where
  "rfc3339_moment t \<longleftrightarrow> (case date_of_day (civil_day t) of (year, m, d) \<Rightarrow> 0 \<le> year \<and> year < 10000) \<and>
     utcOffset t mod 60 = 0 \<and> \<bar>utcOffset t\<bar> < 25 * 3600"

lemma moment_text: "rfc3339_moment t \<Longrightarrow> Parse_RFC3339 (Format_RFC3339 t) = Some (t\<lparr>nsec := 0\<rparr>)"
  unfolding rfc3339_moment_def by (cases "date_of_day (civil_day t)") (auto intro: Parse_Format)

text \<open>The days of the years 0 to 9999.\<close>

lemma year_of_day:
  assumes "- 719528 \<le> n" "n \<le> 2932896"
  shows "0 \<le> fst (date_of_day n)" "fst (date_of_day n) < 10000"
proof -
  define era doe where "era = (n + 719468) div 146097" and "doe = (n + 719468) mod 146097"
  define c where "c = min 3 (doe div 36524)"
  define doc where "doc = doe - 36524 * c"
  define q doq where "q = doc div 1461" and "doq = doc mod 1461"
  define y where "y = min 3 (doq div 365)"
  define doy where "doy = doq - 365 * y"
  define mp where "mp = (5 * doy + 2) div 153"
  have n: "n + 719468 = 146097 * era + doe" unfolding era_def doe_def by simp
  have doe: "0 \<le> doe" "doe \<le> 4 * 36524" "doe < 146097" unfolding doe_def using pos_mod_bound [of 146097 "n + 719468"] by simp_all
  have C: "0 \<le> c" "c \<le> 3" "0 \<le> doc" "doc \<le> 36524"
    using min_div_bounds [OF doe(1) _ doe(2)] unfolding c_def doc_def by simp_all
  have q: "doc = 1461 * q + doq" "0 \<le> doq" "doq < 1461" "0 \<le> q" "q < 25"
    unfolding q_def doq_def using C(3,4) pos_mod_bound [of 1461 doc] by (simp_all add: pos_imp_zdiv_nonneg_iff)
  have Y: "0 \<le> y" "y \<le> 3" "0 \<le> doy" "doy \<le> 365"
    using min_div_bounds [OF q(2), of 365] q(3) unfolding y_def doy_def by simp_all
  have mp: "153 * mp \<le> 5 * doy + 2" "5 * doy + 2 < 153 * mp + 153" "0 \<le> mp" "mp < 12"
    unfolding mp_def using Y(3,4) by linarith+
  have year: "fst (date_of_day n) = 100 * c + 4 * q + y + era * 400 + (if mp < 10 then 0 else 1)"
    using mp(3,4) unfolding date_of_day_def Let_def era_def [symmetric] doe_def [symmetric] c_def [symmetric] doc_def [symmetric]
      q_def [symmetric] doq_def [symmetric] y_def [symmetric] doy_def [symmetric] mp_def [symmetric] by auto
  have doe_eq: "doe = 36524 * c + 1461 * q + 365 * y + doy" using q(1) unfolding doc_def doy_def by linarith
  have era: "- 1 \<le> era" "era \<le> 24" using n doe assms by linarith+
  show "0 \<le> fst (date_of_day n)"
  proof (cases "era = - 1")
    case True
    then have "146037 \<le> doe" using n assms(1) by simp
    then have "c = 3" "q = 24" "y = 3" "306 \<le> doy" using doe_eq C(2) q(5) Y by linarith+
    moreover from this(4) have "10 \<le> mp" using mp(2) by linarith
    ultimately show ?thesis using year True by simp
  qed (use era year C q Y mp in \<open>auto split: if_splits\<close>)
  show "fst (date_of_day n) < 10000"
  proof (cases "era = 24 \<and> c = 3 \<and> q = 24 \<and> y = 3")
    case True
    then have "doy \<le> 305" using n doe_eq assms(2) by simp
    then have "mp < 10" using mp(1) by linarith
    then show ?thesis using year True by simp
  next
    case False
    then have "era \<le> 23 \<or> c \<le> 2 \<or> q \<le> 23 \<or> y \<le> 2" using era C(2) q(5) Y(2) by linarith
    then show ?thesis using year era C q Y by (elim disjE) (auto split: if_splits)
  qed
qed

lemma day_range:
  assumes "0 \<le> year" "year < 10000" "1 \<le> m" "m \<le> 12" "1 \<le> d" "d \<le> 31"
  shows "- 719528 \<le> day_of_date (year, m, d)" "day_of_date (year, m, d) \<le> 2932896"
proof -
  define y where "y = (if m \<le> 2 then year - 1 else year)"
  define mp where "mp = (if 2 < m then m - 3 else m + 9)"
  define doy where "doy = (153 * mp + 2) div 5 + d - 1"
  have day: "day_of_date (year, m, d) = y div 400 * 146097 + (365 * (y mod 400) + y mod 400 div 4 - y mod 400 div 100 + doy) - 719468"
    by (simp add: day_of_date_def Let_def y_def mp_def doy_def)
  have yoe: "0 \<le> y mod 400" "y mod 400 < 400" "y = 400 * (y div 400) + y mod 400" by simp_all
  have doy: "0 \<le> doy" "doy \<le> (if 2 < m then 305 else 367)" "m \<le> 2 \<Longrightarrow> 306 \<le> doy"
    unfolding doy_def mp_def using assms(3-6) by (auto split: if_splits)
  show "- 719528 \<le> day_of_date (year, m, d)"
  proof (cases "y = - 1")
    case True
    then have "m \<le> 2" using assms(1) by (simp add: y_def split: if_splits)
    then show ?thesis using day doy True by simp
  next
    case False
    then have "0 \<le> y" using assms(1) by (simp add: y_def split: if_splits)
    then have "0 \<le> y div 400" by (simp add: pos_imp_zdiv_nonneg_iff)
    then show ?thesis using day yoe doy(1) by linarith
  qed
  have top: "365 * (y mod 400) + y mod 400 div 4 - y mod 400 div 100 \<le> 145731" using yoe(1,2) by linarith
  show "day_of_date (year, m, d) \<le> 2932896"
  proof (cases "y div 400 \<le> 23")
    case True
    moreover have "doy \<le> 367" using doy(2) by (simp split: if_splits)
    ultimately show ?thesis using day top by linarith
  next
    case False
    show ?thesis
    proof (cases "2 < m")
      case True
      then have "y div 400 \<le> 24" "doy \<le> 305" using assms(2) doy(2) by (simp_all add: y_def)
      then show ?thesis using day top by linarith
    next
      case m: False
      then have "y \<le> 9998" "doy \<le> 367" using assms(2) doy(2) by (simp_all add: y_def)
      moreover from this(1) False have "y div 400 = 24" "y mod 400 \<le> 398" using yoe by linarith+
      then have "y div 400 = 24" "365 * (y mod 400) + y mod 400 div 4 - y mod 400 div 100 \<le> 145366" using yoe(1) by linarith+
      ultimately show ?thesis using day by linarith
    qed
  qed
qed

lemma digits_bound: "two_digits s = Some (n, r) \<Longrightarrow> n \<le> 99" "four_digits s = Some (n, r) \<Longrightarrow> n < 10000"
proof -
  have two: "n \<le> 99" if "two_digits s = Some (n, r)" for s n r
    using that by (auto simp: two_digits_def char_digit_def is_digit_def split: list.splits if_splits)
  show "two_digits s = Some (n, r) \<Longrightarrow> n \<le> 99" by (rule two)
  show "four_digits s = Some (n, r) \<Longrightarrow> n < 10000"
    by (auto simp: four_digits_def split: Option.bind_splits dest!: two)
qed

lemma parsed_moment:
  assumes "Parse_RFC3339 s = Some t" "\<bar>utcOffset t\<bar> < 25 * 3600"
  shows "rfc3339_moment t"
proof -
  obtain year month day hour minute sec ns off s1 s3 s5 where
    y: "four_digits s = Some (year, s1)" and
    date: "1 \<le> month" "month \<le> 12" "1 \<le> day" "int day \<le> daysIn (int month) (int year)" and
    clock: "hour < 24" "minute < 60" "sec < 60" and
    z: "zone_offset s3 = Some (off, s5)" and
    t: "t = \<lparr>unixSec = day_of_date (int year, int month, int day) * 86400 + int hour * 3600 + int minute * 60 + int sec - off,
      nsec = ns, utcOffset = off\<rparr>"
    using assms(1) by (auto simp: Parse_RFC3339_def require_def Let_def split: Option.bind_splits prod.splits if_splits)
  have "wall t = day_of_date (int year, int month, int day) * 86400 + (int hour * 3600 + int minute * 60 + int sec)"
    by (simp add: wall_def t)
  moreover have "0 \<le> int hour * 3600 + int minute * 60 + int sec" "int hour * 3600 + int minute * 60 + int sec < 86400"
    using clock by linarith+
  ultimately have day: "civil_day t = day_of_date (int year, int month, int day)" by (simp add: civil_day_def)
  have "int day \<le> 31" using date(4) by (simp add: daysIn_def split: if_splits)
  then have "- 719528 \<le> civil_day t" "civil_day t \<le> 2932896"
    unfolding day using day_range [of "int year" "int month" "int day"] digits_bound(2) [OF y] date(1-3) by auto
  then have "0 \<le> fst (date_of_day (civil_day t))" "fst (date_of_day (civil_day t)) < 10000" by (rule year_of_day)+
  moreover have "off mod 60 = 0"
    using z by (auto simp: zone_offset_def require_def split: list.splits if_splits Option.bind_splits)
  ultimately show ?thesis using assms(2) by (auto simp: rfc3339_moment_def t split: prod.split)
qed

lemma repair_ascii: "list_all (in_range 0 0x7F) s \<Longrightarrow> utf8_repair s = s"
  by (induction s) (subst utf8_repair.simps, simp)+

lemma moment_ascii:
  assumes "rfc3339_moment t" shows "utf8_repair (Format_RFC3339 t) = Format_RFC3339 t"
proof (rule repair_ascii)
  have pad: "list_all (in_range 0 0x7F) (dec_pad w n)" for w n
    by (auto simp: list_all_iff in_range_def is_digit_def dest!: dec_pad_digits)
  show "list_all (in_range 0 0x7F) (Format_RFC3339 t)"
    using assms pad by (auto simp: rfc3339_moment_def Format_RFC3339_def pad_year_4 format_offset_def Let_def in_range_def split: prod.splits)
qed

subsection \<open>The datetime of an answer\<close>

lemma parse_with_datetime:
  assumes "parseSafeRoutesQuery get = Some q" "Parse_RFC3339 txt1 = Some t" "txt1 \<noteq> []"
  shows "parseSafeRoutesQuery (get(''datetime'' := txt1)) = Some (q\<lparr>At := t\<rparr>)"
  using assms by (auto simp: parseSafeRoutesQuery_def Let_def split: option.splits if_splits)

lemma clock_ignores_nsec: "Hour (t\<lparr>nsec := n\<rparr>) = Hour t" "dateToWeekdayType (t\<lparr>nsec := n\<rparr>) = dateToWeekdayType t"
  by (simp_all add: Hour_def wall_def dateToWeekdayType_def Weekday_def civil_day_def)

lemma query_datetime: "parseSafeRoutesQuery get = Some q \<Longrightarrow> At q = zero_time \<or> Parse_RFC3339 (get ''datetime'') = Some (At q)"
  by (auto simp: parseSafeRoutesQuery_def Let_def split: option.splits if_splits)

lemma request_moment:
  assumes "parseSafeRoutesQuery get = Some q" "\<bar>utcOffset (At q)\<bar> < 25 * 3600" "rfc3339_moment (time_In zone now)"
  shows "rfc3339_moment (resolve_at now zone q)"
  using query_datetime [OF assms(1)] parsed_moment assms(2,3) by (auto simp: resolve_at_def zero_time_def IsZero_def)

text \<open>
  A deployment serves requests that came over HTTP; in between the database, the clock and the counters may do anything and entries may
  expire. The one offset the parser takes and the printer does not write so that it is taken again is 24 hours and 60
  minutes: printed, it is 25:00.
\<close>

inductive http_step :: "'w Repository \<Rightarrow> 'r redis \<Rightarrow> ('r \<Rightarrow> string \<rightharpoonup> string) \<Rightarrow> ('w \<Rightarrow> go_time) \<Rightarrow> location \<Rightarrow>
    'w \<times> 'r redis_cache \<Rightarrow> 'w \<times> 'r redis_cache \<Rightarrow> bool"
  for repo client stored now zone where
  request: "parseSafeRoutesQuery get = Some q \<Longrightarrow> \<bar>utcOffset (At q)\<bar> < 25 * 3600 \<Longrightarrow>
    http_step repo client stored now zone s (snd (redis_service repo client now zone q s))"
| environment: "stored (server c') \<subseteq>\<^sub>m stored (server c) \<Longrightarrow> http_step repo client stored now zone (w, c) (w', c')"

text \<open>The answer \<open>first\<close>, computed for the request \<open>q0\<close> in \<open>s0\<close>, which left \<open>s1\<close>.\<close>

definition computed_for :: "'w Repository \<Rightarrow> 'r redis \<Rightarrow> ('w \<Rightarrow> go_time) \<Rightarrow> location \<Rightarrow> SafeRoutesQuery \<Rightarrow> 'w \<times> 'r redis_cache \<Rightarrow>
    SafeRoutesResponse \<Rightarrow> 'w \<times> 'r redis_cache \<Rightarrow> bool" where
  "computed_for repo client now zone q0 s0 first s1 \<longleftrightarrow>
     redis_service repo client now zone q0 s0 = (Inr first, s1) \<and> \<not> rr_FromCache first"

text \<open>Every entry was the answer to an earlier request of the run.\<close>

definition earlier_answer :: "'w Repository \<Rightarrow> 'r redis \<Rightarrow> ('r \<Rightarrow> string \<rightharpoonup> string) \<Rightarrow> ('w \<Rightarrow> go_time) \<Rightarrow> location \<Rightarrow>
    'w \<times> 'r redis_cache \<Rightarrow> 'w \<times> 'r redis_cache \<Rightarrow> SafeRoutesResponse \<Rightarrow> bool" where
  "earlier_answer repo client stored now zone start s r \<longleftrightarrow>
     (\<exists>get q0 s0 first s1. parseSafeRoutesQuery get = Some q0 \<and> \<bar>utcOffset (At q0)\<bar> < 25 * 3600 \<and>
        (http_step repo client stored now zone)\<^sup>*\<^sup>* start s0 \<and> computed_for repo client now zone q0 s0 first s1 \<and>
        (http_step repo client stored now zone)\<^sup>*\<^sup>* s1 s \<and> rr_Datetime r = utf8_repair (rr_Datetime first) \<and>
        rr_TimeBucket r = rr_TimeBucket first \<and> rr_WeekdayType r = rr_WeekdayType first)"

lemma entries_mono: "entries_ok v P s \<Longrightarrow> (\<And>k r. P k r \<Longrightarrow> Q k r) \<Longrightarrow> entries_ok v Q s"
  by (auto simp: entries_ok_def)

lemma earlier_step: "earlier_answer repo client stored now zone start s r \<Longrightarrow> http_step repo client stored now zone s s' \<Longrightarrow>
    earlier_answer repo client stored now zone start s' r"
  unfolding earlier_answer_def by (meson rtranclp.rtrancl_into_rtrancl)

lemma entries_earlier:
  assumes "redis_server client stored" "stored (server (snd start)) = Map.empty" "(http_step repo client stored now zone)\<^sup>*\<^sup>* start s"
  shows "entries_ok (\<lambda>w. redis_visible stored (snd w)) (\<lambda>k. earlier_answer repo client stored now zone start s) s"
  using assms(3)
proof induction
  case base
  then show ?case using assms(2) by (simp add: entries_ok_def redis_visible_def)
next
  case (step s s')
  note old = entries_mono [OF step.IH earlier_step [OF _ step.hyps(2)]]
  from step.hyps(2) show ?case
  proof cases
    case (request get q)
    have "entries_ok (\<lambda>w. redis_visible stored (snd w)) (\<lambda>k. earlier_answer repo client stored now zone start s')
        (snd (SafeRoutes (repo_fst repo) (cache_snd (RedisRouteCache client)) (\<lambda>w. now (fst w)) zone q s))"
    proof (rule service_world.keeps_request [OF redis_server.world [OF assms(1)] old refl])
      fix m s1 routes s2 s3
      let ?first = "build_response q (resolve_at (now (fst s)) zone q) m routes"
      assume "fst (SafeRoutes (repo_fst repo) (cache_snd (RedisRouteCache client)) (\<lambda>w. now (fst w)) zone q s) = Inr ?first"
      then have "computed_for repo client now zone q s ?first s'"
        unfolding request(1) by (simp add: computed_for_def redis_service_def prod_eq_iff build_response_def)
      then show "earlier_answer repo client stored now zone start s' (repair_response ?first)"
        unfolding earlier_answer_def using request(2,3) step.hyps(1)
        by (intro exI [of _ get] exI [of _ q] exI [of _ s] exI [of _ ?first] exI [of _ s']) (simp add: repair_response_def build_response_def repair_context)
    qed
    then show ?thesis unfolding request(1) redis_service_def .
  next
    case (environment c' c w w')
    have "stored (server c) k = Some v" if "stored (server c') k = Some v" for k v
      using environment(3) that unfolding map_le_def by (metis domI)
    then have mono: "redis_visible stored c' k = Some r \<Longrightarrow> redis_visible stored c k = Some r" for k r
      using redis_visible_mono [of stored c' c k r] by blast
    have "entries_ok (\<lambda>w. redis_visible stored (snd w)) (\<lambda>k. earlier_answer repo client stored now zone start s') (w, c)"
      using old unfolding environment(1) .
    then show ?thesis using mono unfolding environment(2) entries_ok_def snd_conv by blast
  qed
qed

lemma fresh_fields:
  assumes "computed_for repo client now zone q s first s'" "t = resolve_at (now (fst s)) zone q"
  shows "rr_Datetime first = Format_RFC3339 t" "rr_TimeBucket first = hourToTimeBucket (Hour t)" "rr_WeekdayType first = dateToWeekdayType t"
proof -
  have run: "SafeRoutes (repo_fst repo) (cache_snd (RedisRouteCache client)) (\<lambda>w. now (fst w)) zone q s = (Inr first, s')"
    and new: "\<not> rr_FromCache first"
    using assms(1) by (simp_all add: computed_for_def redis_service_def)
  show "rr_Datetime first = Format_RFC3339 t" "rr_TimeBucket first = hourToTimeBucket (Hour t)" "rr_WeekdayType first = dateToWeekdayType t"
    by (rule SafeRoutes_Inr [OF run]; use new assms(2) in \<open>auto simp: Let_def build_response_def\<close>)+
qed

lemma http_serving:
  assumes "(http_step repo client stored now zone)\<^sup>*\<^sup>* start s" "stored (server (snd start)) = Map.empty"
  shows "serving repo client stored now zone s"
  using assms(1)
proof induction
  case base
  then show ?case using assms(2) by (cases start) (auto intro: serving.start)
next
  case (step s s')
  from step.hyps(2) step.IH show ?case by cases (auto intro: serving.request serving.environment)
qed

text \<open>Where the datetime of an answer comes from.\<close>

lemma answer_source:
  assumes "redis_server client stored" "stored (server (snd start)) = Map.empty" "(http_step repo client stored now zone)\<^sup>*\<^sup>* start s"
    and "parseSafeRoutesQuery get = Some q" "\<bar>utcOffset (At q)\<bar> < 25 * 3600"
    and "redis_service repo client now zone q s = (Inr resp, s')"
  obtains get0 q0 s0 first s1 where "parseSafeRoutesQuery get0 = Some q0" "\<bar>utcOffset (At q0)\<bar> < 25 * 3600"
    "(http_step repo client stored now zone)\<^sup>*\<^sup>* start s0" "computed_for repo client now zone q0 s0 first s1"
    "if rr_FromCache resp then (http_step repo client stored now zone)\<^sup>*\<^sup>* s1 s else q0 = q \<and> s0 = s \<and> first = resp"
    "rr_Datetime resp \<in> {rr_Datetime first, utf8_repair (rr_Datetime first)}"
    "rr_TimeBucket resp = rr_TimeBucket first" "rr_WeekdayType resp = rr_WeekdayType first"
proof (cases "rr_FromCache resp")
  case False
  then show thesis using assms(3-6) by (intro that [of get q s resp s']) (auto simp: computed_for_def)
next
  case True
  from service_world.response_cases [OF redis_server.world [OF assms(1)] entries_earlier [OF assms(1-3)]
      assms(6) [unfolded redis_service_def] refl]
  obtain r where "earlier_answer repo client stored now zone start s r" "resp = r\<lparr>rr_FromCache := True\<rparr>"
    using True by cases (auto simp: build_response_def)
  then show thesis using True unfolding earlier_answer_def by (elim exE conjE) (rule that; force)
qed

text \<open>C38. The datetime of an answer, fresh or cached, sent back as the datetime of the request, is accepted. It is the moment, up to the
  fraction of a second that the text drops, of the request for which the answer was computed: this one, or, for an answer from the cache, an
  earlier one of the run, whose answer had the same datetime. It selects the time bucket and the weekday type the answer names, which are those
  of the present request, and does so whenever it is asked and in whatever zone the server runs, unless it is the zero time, which stands for no
  datetime. The clock of the server, in its zone, is in the years 0 to 9999 with an offset of whole minutes under 25 hours, and no
  request has the offset 24:60, which the server writes as 25:00 and does not read.\<close>

theorem datetime_roundtrip:
  assumes "redis_server client stored" "stored (server (snd start)) = Map.empty" "(http_step repo client stored now zone)\<^sup>*\<^sup>* start s"
    and "\<forall>w. rfc3339_moment (time_In zone (now w))" "parseSafeRoutesQuery get = Some q" "\<bar>utcOffset (At q)\<bar> < 25 * 3600"
    and "redis_service repo client now zone q s = (Inr resp, s')"
  shows "\<exists>q0 s0 first s1 u.
    (http_step repo client stored now zone)\<^sup>*\<^sup>* start s0 \<and>
    redis_service repo client now zone q0 s0 = (Inr first, s1) \<and> \<not> rr_FromCache first \<and>
    (if rr_FromCache resp then (http_step repo client stored now zone)\<^sup>*\<^sup>* s1 s else q0 = q \<and> s0 = s \<and> first = resp) \<and>
    rr_Datetime resp = rr_Datetime first \<and> u = (resolve_at (now (fst s0)) zone q0)\<lparr>nsec := 0\<rparr> \<and>
    parseSafeRoutesQuery (get(''datetime'' := rr_Datetime resp)) = Some (q\<lparr>At := u\<rparr>) \<and>
    hourToTimeBucket (Hour u) = rr_TimeBucket resp \<and> dateToWeekdayType u = rr_WeekdayType resp \<and>
    rr_TimeBucket resp = hourToTimeBucket (Hour (resolve_at (now (fst s)) zone q)) \<and>
    rr_WeekdayType resp = dateToWeekdayType (resolve_at (now (fst s)) zone q) \<and>
    (IsZero u \<or> (\<forall>later elsewhere. resolve_at later elsewhere (q\<lparr>At := u\<rparr>) = u))"
proof -
  define t where "t = resolve_at (now (fst s)) zone q"
  have ctx: "rr_TimeBucket resp = hourToTimeBucket (Hour t)" "rr_WeekdayType resp = dateToWeekdayType t"
    using service_world.served [OF redis_server.world [OF assms(1)] serving_entries [OF assms(1) http_serving [OF assms(3,2)] produced_stamped]
      assms(7) [unfolded redis_service_def]] unfolding answers_def t_def by auto
  obtain get0 q0 s0 first s1 where q0: "parseSafeRoutesQuery get0 = Some q0" "\<bar>utcOffset (At q0)\<bar> < 25 * 3600"
    and first: "(http_step repo client stored now zone)\<^sup>*\<^sup>* start s0" "computed_for repo client now zone q0 s0 first s1"
    and link: "if rr_FromCache resp then (http_step repo client stored now zone)\<^sup>*\<^sup>* s1 s else q0 = q \<and> s0 = s \<and> first = resp"
    and resp: "rr_Datetime resp \<in> {rr_Datetime first, utf8_repair (rr_Datetime first)}"
      "rr_TimeBucket resp = rr_TimeBucket first" "rr_WeekdayType resp = rr_WeekdayType first"
    by (rule answer_source [OF assms(1-3,5-7)])
  define t0 u where "t0 = resolve_at (now (fst s0)) zone q0" and "u = t0\<lparr>nsec := 0\<rparr>"
  note F = fresh_fields [OF first(2) t0_def]
  have moment: "rfc3339_moment t0" unfolding t0_def using assms(4) by (intro request_moment [OF q0]) blast
  have dt: "rr_Datetime resp = rr_Datetime first" using resp(1) moment_ascii [OF moment] unfolding F(1) by simp
  have parse: "Parse_RFC3339 (rr_Datetime resp) = Some u" using moment_text [OF moment] unfolding dt F(1) u_def .
  then have "rr_Datetime resp \<noteq> []" by (auto simp: Parse_RFC3339_def four_digits_def two_digits_def)
  then have again: "parseSafeRoutesQuery (get(''datetime'' := rr_Datetime resp)) = Some (q\<lparr>At := u\<rparr>)"
    by (rule parse_with_datetime [OF assms(5) parse])
  have "hourToTimeBucket (Hour u) = rr_TimeBucket resp" "dateToWeekdayType u = rr_WeekdayType resp"
    unfolding u_def clock_ignores_nsec resp(2,3) F(2,3) by simp_all
  moreover have "IsZero u \<or> (\<forall>later elsewhere. resolve_at later elsewhere (q\<lparr>At := u\<rparr>) = u)" by (simp add: resolve_at_def)
  ultimately show ?thesis
    using first link dt again ctx unfolding computed_for_def u_def t0_def t_def by blast
qed

theorem datetime_roundtrip_witness:
  "\<exists>u. parseSafeRoutesQuery (example_get(''datetime'' := rr_Datetime cached_response)) = Some (example_query\<lparr>At := u\<rparr>) \<and>
     hourToTimeBucket (Hour u) = rr_TimeBucket cached_response"
proof -
  let ?start = "((), NewRedisRouteCache Map.empty) :: unit \<times> (string \<rightharpoonup> string) redis_cache"
  let ?step = "http_step (reader example_data) mem_redis (\<lambda>m. m) (\<lambda>w. zero_time) (\<lambda>_. - 10800)"
  have off: "\<bar>utcOffset (At example_query)\<bar> < 25 * 3600" by (simp add: example_query_def example_time_def)
  have clock: "\<forall>w :: unit. rfc3339_moment (time_In (\<lambda>_. - 10800) zero_time)" by code_simp
  have empty: "server (snd ?start) = Map.empty" by (simp add: NewRedisRouteCache_def)
  have run: "?step\<^sup>*\<^sup>* ?start (snd (example_service example_query ?start))"
    unfolding example_service_def by (intro r_into_rtranclp http_step.request [OF example_parse off])
  obtain s' where "redis_service (reader example_data) mem_redis (\<lambda>w. zero_time) (\<lambda>_. - 10800)
      example_query (snd (example_service example_query ?start)) = (Inr cached_response, s')"
    using example_hit by blast
  from datetime_roundtrip [OF mem.redis_server_axioms empty run clock example_parse off this] show ?thesis by blast
qed

text \<open>The context is read off the clock of the request's own offset: two texts of one instant
  can select different time buckets.\<close>

theorem context_depends_on_offset:
  "\<exists>t u. Parse_RFC3339 ''2026-06-27T23:00:00Z'' = Some t \<and> Parse_RFC3339 ''2026-06-27T20:00:00-03:00'' = Some u \<and>
     unixSec t = unixSec u \<and> nsec t = nsec u \<and>
     hourToTimeBucket (Hour t) = ''night'' \<and> hourToTimeBucket (Hour u) = ''evening''"
proof -
  let ?t = "\<lparr>unixSec = 1782601200, nsec = 0, utcOffset = 0\<rparr>"
  have "Parse_RFC3339 ''2026-06-27T23:00:00Z'' = Some ?t" by code_simp
  moreover have "Parse_RFC3339 ''2026-06-27T20:00:00-03:00'' = Some (?t\<lparr>utcOffset := - 10800\<rparr>)" by code_simp
  ultimately show ?thesis by (simp add: hourToTimeBucket_def Hour_def wall_def)
qed

end
