(* ===== verification/Platform.thy ===== *)
theory Platform
  imports Requests
begin

section \<open>Connections and rate limits\<close>

text \<open>
  \<open>internal/platform/postgres/pool.go\<close>, \<open>internal/platform/redis/client.go\<close> and \<open>internal/ratelimit\<close>. The
  state is the connections the process holds open: a pool is known by its data source name, a client by its options. What
  \<open>pgxpool.New\<close> and the pings answer is a parameter, as are the rate limiter's library functions.
\<close>

record redis_options =
  ro_Addr :: string
  ro_Password :: string
  ro_DB :: i64

record connections =
  open_pools :: "string list"
  open_clients :: "redis_options list"

record drivers =
  pgxpool_New :: "string \<Rightarrow> string option"
  pool_Ping :: "string \<Rightarrow> string option"
  redis_Ping :: "redis_options \<Rightarrow> string option"

definition pool_Close :: "string \<Rightarrow> connections \<Rightarrow> connections" where
  "pool_Close dsn c = c\<lparr>open_pools := remove1 dsn (open_pools c)\<rparr>"

definition client_Close :: "redis_options \<Rightarrow> connections \<Rightarrow> connections" where
  "client_Close opts c = c\<lparr>open_clients := remove1 opts (open_clients c)\<rparr>"

definition NewPool :: "drivers \<Rightarrow> string \<Rightarrow> (connections, unit, string) prog" where
  "NewPool d dsn c =
     (case pgxpool_New d dsn of
        Some err \<Rightarrow> fail (Wrap ''postgres: create pool'' (Opaque err)) c
      | None \<Rightarrow>
          let c = c\<lparr>open_pools := dsn # open_pools c\<rparr> in
          (case pool_Ping d dsn of
             Some err \<Rightarrow> fail (Wrap ''postgres: ping'' (Opaque err)) (pool_Close dsn c)
           | None \<Rightarrow> ret dsn c))"

definition NewClient :: "drivers \<Rightarrow> string \<Rightarrow> string \<Rightarrow> i64 \<Rightarrow> (connections, unit, redis_options) prog" where
  "NewClient d addr password db c =
     (let opts = \<lparr>ro_Addr = addr, ro_Password = password, ro_DB = db\<rparr>;
          c = c\<lparr>open_clients := opts # open_clients c\<rparr> in
      case redis_Ping d opts of
        Some err \<Rightarrow> fail (Wrap ''redis: ping'' (Opaque err)) (client_Close opts c)
      | None \<Rightarrow> ret opts c)"

definition closeRedis :: "redis_options option \<Rightarrow> connections \<Rightarrow> connections" where
  "closeRedis client c = (case client of None \<Rightarrow> c | Some opts \<Rightarrow> client_Close opts c)"

lemma NewPool_connections:
  "NewPool d dsn c = (Inl e, c') \<Longrightarrow> c' = c"
  "NewPool d dsn c = (Inr p, c') \<Longrightarrow> p = dsn \<and> c' = c\<lparr>open_pools := dsn # open_pools c\<rparr>"
  by (auto simp: NewPool_def pool_Close_def Let_def split: option.splits)

lemma NewClient_connections:
  "NewClient d addr password db c = (Inl e, c') \<Longrightarrow> c' = c"
  "NewClient d addr password db c = (Inr opts, c') \<Longrightarrow>
     opts = \<lparr>ro_Addr = addr, ro_Password = password, ro_DB = db\<rparr> \<and> c' = c\<lparr>open_clients := opts # open_clients c\<rparr>"
  by (auto simp: NewClient_def client_Close_def Let_def split: option.splits)

subsection \<open>Rate limits\<close>

definition RoutesSafeRate :: string where "RoutesSafeRate = ''10-M''"
definition AuthLoginRate :: string where "AuthLoginRate = ''5-M''"
definition CrimesNearbyRate :: string where "CrimesNearbyRate = ''30-M''"
definition RoadgraphStatsRate :: string where "RoadgraphStatsRate = ''60-M''"

definition RoutesSafePrefix :: string where "RoutesSafePrefix = ''safe-routes:ratelimit:routes-safe''"
definition AuthLoginPrefix :: string where "AuthLoginPrefix = ''safe-routes:ratelimit:auth-login''"
definition CrimesNearbyPrefix :: string where "CrimesNearbyPrefix = ''safe-routes:ratelimit:crimes-nearby''"
definition RoadgraphStatsPrefix :: string where "RoadgraphStatsPrefix = ''safe-routes:ratelimit:roadgraph-stats''"

record ('rate, 'store, 's, 'u, 'p) limiter_library =
  NewRateFromFormatted :: "string \<Rightarrow> string + 'rate"
  NewStoreWithOptions :: "redis_options option \<Rightarrow> string \<Rightarrow> string + 'store"
  limiter_Handler :: "'store \<Rightarrow> 'rate \<Rightarrow> ('s, 'u, 'p) middleware"

definition NewMiddleware :: "('rate, 'store, 's, 'u, 'p) limiter_library \<Rightarrow> redis_options option \<Rightarrow> string \<Rightarrow> string \<Rightarrow>
    unit goerr + ('s, 'u, 'p) middleware" where
  "NewMiddleware lib client rateFormatted prefix =
     (case NewRateFromFormatted lib rateFormatted of
        Inl err \<Rightarrow> Inl (Wrap (''ratelimit: invalid rate '' @ rateFormatted) (Opaque err))
      | Inr rate \<Rightarrow>
          (case NewStoreWithOptions lib client prefix of
             Inl err \<Rightarrow> Inl (Wrap (''ratelimit: create redis store ('' @ prefix @ '')'') (Opaque err))
           | Inr store \<Rightarrow> Inr (limiter_Handler lib store rate)))"

record ('s, 'u, 'p) Middlewares =
  lim_RoutesSafe :: "('s, 'u, 'p) middleware"
  lim_AuthLogin :: "('s, 'u, 'p) middleware"
  lim_CrimesNearby :: "('s, 'u, 'p) middleware"
  lim_RoadgraphStats :: "('s, 'u, 'p) middleware"

definition NewMiddlewares :: "('rate, 'store, 's, 'u, 'p) limiter_library \<Rightarrow> redis_options option \<Rightarrow>
    unit goerr + ('s, 'u, 'p) Middlewares" where
  "NewMiddlewares lib client =
     (case NewMiddleware lib client RoutesSafeRate RoutesSafePrefix of Inl err \<Rightarrow> Inl err | Inr routesSafe \<Rightarrow>
      case NewMiddleware lib client AuthLoginRate AuthLoginPrefix of Inl err \<Rightarrow> Inl err | Inr authLogin \<Rightarrow>
      case NewMiddleware lib client CrimesNearbyRate CrimesNearbyPrefix of Inl err \<Rightarrow> Inl err | Inr crimesNearby \<Rightarrow>
      case NewMiddleware lib client RoadgraphStatsRate RoadgraphStatsPrefix of Inl err \<Rightarrow> Inl err | Inr roadgraphStats \<Rightarrow>
        Inr \<lparr>lim_RoutesSafe = routesSafe, lim_AuthLogin = authLogin, lim_CrimesNearby = crimesNearby,
             lim_RoadgraphStats = roadgraphStats\<rparr>)"

definition Passthrough :: "('s, 'u, 'p) Middlewares" where
  "Passthrough = (let i = (\<lambda>nxt. nxt) in
     \<lparr>lim_RoutesSafe = i, lim_AuthLogin = i, lim_CrimesNearby = i, lim_RoadgraphStats = i\<rparr>)"

end
