(* ===== verification/Observability.thy ===== *)
theory Observability
  imports NetAddr RouteCaches FloatText Requests AuthTokens
begin

section \<open>Runtime statistics and health\<close>

text \<open>
  \<open>internal/observability/handler.go\<close> and \<open>internal/health/handler.go\<close>. The statistics are read from the world by
  functions the wiring supplies; the record of the route cache's counters is the one of \<open>RouteCaches\<close>, field for field.
\<close>

record PoolStats =
  AcquiredConns :: "32 word"
  IdleConns :: "32 word"
  TotalConns :: "32 word"
  MaxConns :: "32 word"
  AcquireCount :: i64
  EmptyAcquireCount :: i64
  CanceledAcquireCount :: i64
  NewConnsCount :: i64
  AcquireDurationMS :: f64

record cacheBlock =
  cb_Enabled :: bool
  cb_Hits :: i64
  cb_Misses :: i64
  cb_Errors :: i64
  cb_Sets :: i64
  cb_HitRate :: f64

record snapshot =
  sn_UptimeSeconds :: f64
  sn_Goroutines :: int
  sn_PgxPool :: PoolStats
  sn_Cache :: cacheBlock

text \<open>\<open>time.Since\<close> saturates at the largest and smallest duration.\<close>

definition time_Sub :: "go_time \<Rightarrow> go_time \<Rightarrow> int" where
  "time_Sub t u = max (- (2 ^ 63)) (min (2 ^ 63 - 1) ((unixSec t - unixSec u) * 1000000000 + (nsec t - nsec u)))"

definition isLoopback :: "'u http_request \<Rightarrow> bool" where
  "isLoopback r =
     (let host = (case SplitHostPort (rq_RemoteAddr r) of None \<Rightarrow> rq_RemoteAddr r | Some (host, port) \<Rightarrow> host) in
      case ParseIP host of None \<Rightarrow> False | Some ip \<Rightarrow> IsLoopback ip)"

record 's observability_handler =
  sh_poolStats :: "'s \<Rightarrow> PoolStats"
  sh_cacheStats :: "('s \<Rightarrow> CacheStats) option"
  sh_started :: go_time

definition snapshot_encodable :: "snapshot \<Rightarrow> bool" where
  "snapshot_encodable sn \<longleftrightarrow> json_float (sn_UptimeSeconds sn) \<noteq> None \<and>
     json_float (AcquireDurationMS (sn_PgxPool sn)) \<noteq> None \<and> json_float (cb_HitRate (sn_Cache sn)) \<noteq> None"

text \<open>The clock and the number of goroutines come from the process.\<close>

definition debug_stats :: "('s \<Rightarrow> go_time) \<Rightarrow> ('s \<Rightarrow> int) \<Rightarrow> 's observability_handler \<Rightarrow> ('s, 'u, snapshot) handler" where
  "debug_stats now goroutines h r s =
     (if \<not> isLoopback r then (WriteError 403 ''forbidden'' ''debug stats are loopback-only'', s)
      else
        let snap = \<lparr>sn_UptimeSeconds = duration_Seconds (time_Sub (now s) (sh_started h)), sn_Goroutines = goroutines s,
              sn_PgxPool = sh_poolStats h s,
              sn_Cache = \<lparr>cb_Enabled = False, cb_Hits = 0, cb_Misses = 0, cb_Errors = 0, cb_Sets = 0, cb_HitRate = 0\<rparr>\<rparr>;
            snap = (case sh_cacheStats h of
                None \<Rightarrow> snap
              | Some cacheStats \<Rightarrow>
                  (let cs = cacheStats s in
                   snap\<lparr>sn_Cache := \<lparr>cb_Enabled = True, cb_Hits = cs_Hits cs, cb_Misses = cs_Misses cs, cb_Errors = cs_Errors cs,
                     cb_Sets = cs_Sets cs, cb_HitRate = cs_HitRate cs\<rparr>\<rparr>))
        in (WriteJSON snapshot_encodable [] 200 snap, s))"

definition health_Check :: "('s, 'u, (string \<times> string) list) handler" where
  "health_Check r s = (WriteJSON (\<lambda>_. True) [] 200 [(''status'', ''ok'')], s)"

end
