(* ===== verification/Codecs.thy ===== *)
theory Codecs
  imports ResponseJson SafeRoutesRepository AuthHttp
begin

section \<open>JSON of the safe routes and of the auth bodies\<close>

text \<open>
  What \<open>decodeRoutePath\<close> of \<open>internal/saferoutes/repository.go\<close> and \<open>decodeJSON\<close> of \<open>internal/auth/handler.go\<close> read, by
  the tags of the structs.
\<close>

definition store_edge :: "json \<Rightarrow> PathEdge \<Rightarrow> PathEdge option" where
  "store_edge = store_fields
     [(''edge_id'', \<lambda>v e. map_option (\<lambda>x. e\<lparr>pe_EdgeID := x\<rparr>) (store_int64 v (pe_EdgeID e))),
      (''length_meters'', \<lambda>v e. map_option (\<lambda>x. e\<lparr>pe_LengthMeters := x\<rparr>) (store_float v (pe_LengthMeters e))),
      (''duration_seconds'', \<lambda>v e. map_option (\<lambda>x. e\<lparr>pe_DurationSeconds := x\<rparr>) (store_float v (pe_DurationSeconds e))),
      (''risk_score'', \<lambda>v e. map_option (\<lambda>x. e\<lparr>pe_RiskScore := x\<rparr>) (store_float v (pe_RiskScore e))),
      (''crime_count'', \<lambda>v e. map_option (\<lambda>x. e\<lparr>pe_CrimeCount := x\<rparr>) (store_int64 v (pe_CrimeCount e))),
      (''robbery_count'', \<lambda>v e. map_option (\<lambda>x. e\<lparr>pe_RobberyCount := x\<rparr>) (store_int64 v (pe_RobberyCount e))),
      (''theft_count'', \<lambda>v e. map_option (\<lambda>x. e\<lparr>pe_TheftCount := x\<rparr>) (store_int64 v (pe_TheftCount e))),
      (''threats_count'', \<lambda>v e. map_option (\<lambda>x. e\<lparr>pe_ThreatsCount := x\<rparr>) (store_int64 v (pe_ThreatsCount e))),
      (''armed_count'', \<lambda>v e. map_option (\<lambda>x. e\<lparr>pe_ArmedCount := x\<rparr>) (store_int64 v (pe_ArmedCount e))),
      (''motorcycle_count'', \<lambda>v e. map_option (\<lambda>x. e\<lparr>pe_MotorcycleCount := x\<rparr>) (store_int64 v (pe_MotorcycleCount e))),
      (''same_bucket_crime_count'', \<lambda>v e. map_option (\<lambda>x. e\<lparr>pe_SameBucketCrimeCount := x\<rparr>) (store_int64 v (pe_SameBucketCrimeCount e))),
      (''point_lat'', \<lambda>v e. map_option (\<lambda>x. e\<lparr>pe_PointLat := x\<rparr>) (store_float v (pe_PointLat e))),
      (''point_lng'', \<lambda>v e. map_option (\<lambda>x. e\<lparr>pe_PointLng := x\<rparr>) (store_float v (pe_PointLng e)))]"

definition zero_edge :: PathEdge where
  "zero_edge = \<lparr>pe_EdgeID = 0, pe_LengthMeters = 0, pe_DurationSeconds = 0, pe_RiskScore = 0, pe_CrimeCount = 0, pe_RobberyCount = 0,
     pe_TheftCount = 0, pe_ThreatsCount = 0, pe_ArmedCount = 0, pe_MotorcycleCount = 0, pe_SameBucketCrimeCount = 0,
     pe_PointLat = 0, pe_PointLng = 0\<rparr>"

definition or_syntax_error :: "'a option \<Rightarrow> string + 'a" where
  "or_syntax_error x = (case x of None \<Rightarrow> Inl ''json'' | Some y \<Rightarrow> Inr y)"

definition path_json :: path_codec where
  "path_json =
     \<lparr>unmarshal_geom = (\<lambda>t. or_syntax_error (Unmarshal store_linestring zero_linestring t)),
      unmarshal_edges = (\<lambda>t. or_syntax_error (Unmarshal (store_list store_edge zero_edge) [] t))\<rparr>"

definition store_register :: "json \<Rightarrow> RegisterRequest \<Rightarrow> RegisterRequest option" where
  "store_register = store_fields
     [(''email'', \<lambda>v q. map_option (\<lambda>t. q\<lparr>rg_Email := t\<rparr>) (store_string v (rg_Email q))),
      (''password'', \<lambda>v q. map_option (\<lambda>t. q\<lparr>rg_Password := t\<rparr>) (store_string v (rg_Password q)))]"

definition store_login :: "json \<Rightarrow> LoginRequest \<Rightarrow> LoginRequest option" where
  "store_login = store_fields
     [(''email'', \<lambda>v q. map_option (\<lambda>t. q\<lparr>lg_Email := t\<rparr>) (store_string v (lg_Email q))),
      (''password'', \<lambda>v q. map_option (\<lambda>t. q\<lparr>lg_Password := t\<rparr>) (store_string v (lg_Password q)))]"

definition decodeJSON :: json_bodies where
  "decodeJSON = \<lparr>decode_register = DecodeFirst store_register \<lparr>rg_Email = [], rg_Password = []\<rparr>,
     decode_login = DecodeFirst store_login \<lparr>lg_Email = [], lg_Password = []\<rparr>\<rparr>"

end
