(* ===== verification/Router.thy ===== *)
theory Router
  imports Crimes RoadGraph OrsRoutes SafeRoutesHandler Observability Codecs
begin

section \<open>The routes of the server\<close>

text \<open>
  \<open>internal/app/routes.go\<close> and the \<open>Register\<close> methods of the handlers. A router is its stack of
  middlewares and its routes; \<open>ServeHTTP\<close> runs the stack around the handler of the request's method and path, as
  chi documents it for the patterns used here: literal paths, and a final asterisk for any rest. Middlewares and handlers of other modules are the fields of \<open>http_libraries\<close>.
\<close>

datatype payload =
  HealthPayload "(string \<times> string) list" | CrimesPayload NearbyCrimesResponse | RoutesPayload RouteResponse
  | StatsPayload GraphStats | WalkPayload WalkRoute | AuthPayload auth_payload | SafeRoutesPayload SafeRoutesResponse
  | SnapshotPayload snapshot

record cors_options =
  AllowedOrigins :: "string list"
  AllowedMethods :: "string list"
  AllowedHeaders :: "string list"
  ExposedHeaders :: "string list"
  AllowCredentials :: bool
  MaxAge :: int

record slog_config =
  WithRequestID :: bool
  WithClientIP :: bool

record 's http_libraries =
  lib_RequestID :: "('s, User, payload) middleware"
  lib_GetReqID :: "User http_request \<Rightarrow> string"
  lib_Cors :: "cors_options \<Rightarrow> ('s, User, payload) middleware"
  lib_Recovery :: "('s, User, payload) middleware"
  lib_Slog :: "slog_config \<Rightarrow> ('s, User, payload) middleware"
  lib_ServeFile :: "string \<Rightarrow> ('s, User, payload) handler"
  lib_Swagger :: "string \<Rightarrow> ('s, User, payload) handler"
  lib_NotFound :: "string \<Rightarrow> string \<Rightarrow> ('s, User, payload) handler"

record 's router =
  rt_stack :: "('s, User, payload) middleware list"
  rt_routes :: "('s, User, payload) route list"

subsection \<open>Registration\<close>

definition health_routes :: "('s, User, payload) route list" where
  "health_routes = [(''GET'', ''/health'', embed HealthPayload health_Check)]"

definition crimes_routes :: "(NearbyCrimesQuery \<Rightarrow> ('s, crimes_error, NearbyCrimesResponse) prog) \<Rightarrow> ('s, User, payload) middleware \<Rightarrow>
    ('s, User, payload) route list" where
  "crimes_routes svc rateLimit = [(''GET'', ''/crimes/nearby'', rateLimit (embed CrimesPayload (nearby_handler svc)))]"

definition ors_routes :: "(RouteQuery \<Rightarrow> ('s, routes_error, RouteResponse) prog) \<Rightarrow> ('s, User, payload) route list" where
  "ors_routes svc = [(''GET'', ''/routes'', embed RoutesPayload (route_handler svc))]"

definition roadgraph_routes :: "('s, roadgraph_error, GraphStats) prog \<Rightarrow> (WalkRouteQuery \<Rightarrow> ('s, roadgraph_error, WalkRoute) prog) \<Rightarrow>
    ('s, User, payload) middleware \<Rightarrow> ('s, User, payload) route list" where
  "roadgraph_routes get_stats svc rateLimit =
     [(''GET'', ''/roadgraph/stats'', rateLimit (embed StatsPayload (stats_handler get_stats))),
      (''GET'', ''/roadgraph/route'', embed WalkPayload (walk_handler svc))]"

definition saferoutes_routes :: "(SafeRoutesQuery \<Rightarrow> ('s, saferoutes_error, SafeRoutesResponse) prog) \<Rightarrow>
    ('s, User, payload) middleware \<Rightarrow> ('s, User, payload) route list" where
  "saferoutes_routes svc rateLimit =
     [(''GET'', ''/routes/safe'',
       rateLimit (embed SafeRoutesPayload (\<lambda>r. GetSafeRoutes safe_routes_encodable svc (rq_Query r))))]"

definition debug_routes :: "('s \<Rightarrow> go_time) \<Rightarrow> ('s \<Rightarrow> int) \<Rightarrow> 's observability_handler \<Rightarrow> ('s, User, payload) route list" where
  "debug_routes now goroutines h = [(''GET'', ''/debug/stats'', embed SnapshotPayload (debug_stats now goroutines h))]"

subsection \<open>The router\<close>

definition cors_config :: cors_options where
  "cors_config =
     \<lparr>AllowedOrigins = [''http://localhost:8081''],
      AllowedMethods = [''GET'', ''POST'', ''PUT'', ''PATCH'', ''DELETE'', ''OPTIONS''],
      AllowedHeaders = [''Accept'', ''Authorization'', ''Content-Type'', ''X-CSRF-Token''],
      ExposedHeaders = [''Link''], AllowCredentials = True, MaxAge = 300\<rparr>"

text \<open>The attribute it adds to the log line is not modelled.\<close>

definition injectRequestID :: "'s http_libraries \<Rightarrow> ('s, User, payload) middleware" where
  "injectRequestID lib nxt r s =
     (let i = lib_GetReqID lib r in
      case nxt r s of (resp, s) \<Rightarrow>
        (if i \<noteq> [] then resp\<lparr>hr_Headers := Header ''X-Request-Id'' i # hr_Headers resp\<rparr> else resp, s))"

definition mount :: "string \<Rightarrow> ('s, 'u, 'p) route list \<Rightarrow> ('s, 'u, 'p) route list" where
  "mount prefix = map (\<lambda>(m, p, h). (m, prefix @ p, h))"

definition behind :: "('s, 'u, 'p) middleware \<Rightarrow> ('s, 'u, 'p) route list \<Rightarrow> ('s, 'u, 'p) route list" where
  "behind mw = map (\<lambda>(m, p, h). (m, p, mw h))"

definition NewRouter :: "'s http_libraries \<Rightarrow> ('s, User, payload) middleware \<Rightarrow> ('s, User, payload) route list list \<Rightarrow>
    ('s, User, payload) route list list \<Rightarrow> 's router" where
  "NewRouter lib authMiddleware public protected =
     \<lparr>rt_stack = [lib_RequestID lib, lib_Cors lib cors_config, lib_Recovery lib,
        lib_Slog lib \<lparr>WithRequestID = False, WithClientIP = False\<rparr>, injectRequestID lib],
      rt_routes =
        [(''GET'', ''/openapi.yaml'', lib_ServeFile lib ''openapi.yaml''), (''GET'', ''/docs/*'', lib_Swagger lib ''/openapi.yaml'')] @
        mount ''/api/v1'' (concat public @ behind authMiddleware (concat protected))\<rparr>"

definition matches_pattern :: "string \<Rightarrow> string \<Rightarrow> bool" where
  "matches_pattern pattern path =
     (if pattern \<noteq> [] \<and> last pattern = CHR ''*'' then take (length pattern - 1) path = butlast pattern else path = pattern)"

definition handler_of :: "'s router \<Rightarrow> string \<Rightarrow> string \<Rightarrow> ('s, User, payload) handler option" where
  "handler_of rt method path = map_option (\<lambda>(m, p, h). h) (find (\<lambda>(m, p, h). m = method \<and> matches_pattern p path) (rt_routes rt))"

definition ServeHTTP :: "'s http_libraries \<Rightarrow> 's router \<Rightarrow> string \<Rightarrow> string \<Rightarrow> ('s, User, payload) handler" where
  "ServeHTTP lib rt method path =
     foldr (\<lambda>mw h. mw h) (rt_stack rt) (case handler_of rt method path of None \<Rightarrow> lib_NotFound lib method path | Some h \<Rightarrow> h)"

end
