(* ===== verification/App.thy ===== *)
theory App
  imports Config Platform Router AuthStore
begin

section \<open>Starting the server\<close>

text \<open>
  \<open>internal/app/app.go\<close>. The world the router serves is the tables and the process of the auth service
  (\<open>auth_world\<close>), the rest of the outside world \<open>'x\<close> (the routing and crime tables, the routing service), and the
  Redis server with the counters of the cache. \<open>New\<close> runs on the connections the process holds. Logging is
  not modelled.
\<close>

type_synonym ('x, 'r) served = "('x \<times> auth_world) \<times> 'r redis_cache"

text \<open>The values the methods of \<open>pgxpool.Stat\<close> return; the duration is in nanoseconds.\<close>

record pgxpool_Stat =
  st_AcquiredConns :: "32 word"
  st_IdleConns :: "32 word"
  st_TotalConns :: "32 word"
  st_MaxConns :: "32 word"
  st_AcquireCount :: i64
  st_EmptyAcquireCount :: i64
  st_CanceledAcquireCount :: i64
  st_NewConnsCount :: i64
  st_AcquireDuration :: i64

record ('x, 'r, 'rate, 'store) libraries =
  lb_drivers :: drivers
  lb_limiter :: "('rate, 'store, ('x, 'r) served, User, payload) limiter_library"
  lb_http :: "('x, 'r) served http_libraries"
  lb_routing_db :: "string \<Rightarrow> 'x routing_db"
  lb_crimes_db :: "string \<Rightarrow> 'x crimes_db"
  lb_road_db :: "string \<Rightarrow> 'x road_db"
  lb_ors :: "'x http_client"
  lb_redis :: "redis_options option \<Rightarrow> 'r redis"
  lb_crypto :: crypto
  lb_unicodeLower :: "string \<Rightarrow> string"
  lb_zone :: location
  lb_pool_Stat :: "string \<Rightarrow> 'x \<Rightarrow> pgxpool_Stat"
  lb_goroutines :: "'x \<Rightarrow> int"

definition clock :: "('x, 'r) served \<Rightarrow> go_time" where "clock w = process_clock (snd (fst w))"

subsection \<open>Checks of the configuration\<close>

definition weak_secret :: "Config \<Rightarrow> bool" where
  "weak_secret cfg \<longleftrightarrow> JWTSecret cfg = [] \<or> JWTSecret cfg = ''change_me''"

definition validateAuthConfig :: "Config \<Rightarrow> unit goerr option" where
  "validateAuthConfig cfg =
     (if \<not> weak_secret cfg then None
      else if IsDevelopment cfg then None
      else Some (Opaque ''app: JWT_SECRET must be set to a non-default value outside development''))"

definition validateRedisConfig :: "Config \<Rightarrow> unit goerr option" where
  "validateRedisConfig cfg =
     (if RateLimitEnabled cfg \<and> \<not> RedisEnabled cfg then
        Some (Opaque ''invalid config: RATE_LIMIT_ENABLED=true requires REDIS_ENABLED=true'')
      else if RouteCacheEnabled cfg \<and> \<not> RedisEnabled cfg then
        Some (Opaque ''invalid config: ROUTE_CACHE_ENABLED=true requires REDIS_ENABLED=true'')
      else None)"

definition parseSameSite :: "(string \<Rightarrow> string) \<Rightarrow> string \<Rightarrow> SameSite" where
  "parseSameSite unicodeLower s =
     (let l = ToLower unicodeLower s in
      if l = ''strict'' then SameSiteStrictMode else if l = ''none'' then SameSiteNoneMode else SameSiteLaxMode)"

definition refreshCookieConfig :: "(string \<Rightarrow> string) \<Rightarrow> Config \<Rightarrow> CookieConfig" where
  "refreshCookieConfig unicodeLower cfg =
     \<lparr>cc_Name = RefreshCookieName cfg, cc_Path = ''/api/v1/auth'', cc_Secure = CookieSecure cfg,
      cc_SameSite = parseSameSite unicodeLower (CookieSameSite cfg),
      cc_MaxAge = int_of_f64 (duration_Seconds (sint (RefreshTokenTTL cfg)))\<rparr>"

subsection \<open>Wiring\<close>

text \<open>The route cache: the type assertion of \<open>newObservabilityHandler\<close> succeeds on the one backed by Redis.\<close>

datatype active_cache = ActiveNoop | ActiveRedis "redis_options option"

fun cache_ops :: "('x, 'r, 'rate, 'store) libraries \<Rightarrow> active_cache \<Rightarrow> ('x, 'r) served RouteCache" where
  "cache_ops lb ActiveNoop = NoopRouteCache"
| "cache_ops lb (ActiveRedis client) = cache_snd (RedisRouteCache (lb_redis lb client))"

definition pool_stats :: "('x, 'r, 'rate, 'store) libraries \<Rightarrow> string \<Rightarrow> ('x, 'r) served \<Rightarrow> PoolStats" where
  "pool_stats lb pool w =
     (let s = lb_pool_Stat lb pool (fst (fst w)) in
      \<lparr>AcquiredConns = st_AcquiredConns s, IdleConns = st_IdleConns s, TotalConns = st_TotalConns s, MaxConns = st_MaxConns s,
       AcquireCount = st_AcquireCount s, EmptyAcquireCount = st_EmptyAcquireCount s,
       CanceledAcquireCount = st_CanceledAcquireCount s, NewConnsCount = st_NewConnsCount s,
       AcquireDurationMS = f64_of_i64 (word_of_int (sgn (sint (st_AcquireDuration s)) * (\<bar>sint (st_AcquireDuration s)\<bar> div 1000000)))\<rparr>)"

definition newObservabilityHandler :: "('x, 'r, 'rate, 'store) libraries \<Rightarrow> string \<Rightarrow> active_cache \<Rightarrow> go_time \<Rightarrow>
    ('x, 'r) served observability_handler" where
  "newObservabilityHandler lb pool cache started =
     \<lparr>sh_poolStats = pool_stats lb pool,
      sh_cacheStats = (case cache of ActiveNoop \<Rightarrow> None | ActiveRedis client \<Rightarrow> Some (\<lambda>w. Stats (snd w))),
      sh_started = started\<rparr>"

definition auth_operations :: "auth_world auth_service \<Rightarrow> ('x, 'r) served authService" where
  "auth_operations sv = \<lparr>as_Register = (\<lambda>q m. on_fst (on_snd (Register sv q m))), as_Login = (\<lambda>q m. on_fst (on_snd (Login sv q m))),
     as_Refresh = (\<lambda>t m. on_fst (on_snd (Refresh sv t m))), as_Logout = (\<lambda>t m. on_fst (on_snd (Logout sv t m)))\<rparr>"

definition auth_service_of :: "('x, 'r, 'rate, 'store) libraries \<Rightarrow> Config \<Rightarrow> auth_world auth_service" where
  "auth_service_of lb cfg = NewService (lb_crypto lb) \<lparr>tm_secret = JWTSecret cfg, tm_accessTTL = sint (AccessTokenTTL cfg)\<rparr>
     (sint (RefreshTokenTTL cfg)) (lb_unicodeLower lb)"

definition auth_middleware :: "('x, 'r, 'rate, 'store) libraries \<Rightarrow> Config \<Rightarrow> (('x, 'r) served, User, 'p) middleware" where
  "auth_middleware lb cfg = AuthMiddleware (\<lambda>token. on_fst (on_snd (Authenticate (auth_service_of lb cfg) token)))"

definition public_registrars :: "('x, 'r, 'rate, 'store) libraries \<Rightarrow> Config \<Rightarrow> string \<Rightarrow> (('x, 'r) served, User, payload) Middlewares \<Rightarrow>
    active_cache \<Rightarrow> go_time \<Rightarrow> (('x, 'r) served, User, payload) route list list" where
  "public_registrars lb cfg pool limiters cache startedAt =
     [health_routes,
      crimes_routes (\<lambda>q. on_fst (on_fst (GetNearby (FindNearby (lb_crimes_db lb pool)) q))) (lim_CrimesNearby limiters),
      ors_routes (\<lambda>q. on_fst (on_fst (GetRoute
        (FetchRoute \<lparr>ors_apiKey = ORSAPIKey cfg, ors_baseURL = ORSBaseURL cfg\<rparr> (lb_ors lb)) q))),
      roadgraph_routes (on_fst (on_fst (pg_GetStats (lb_road_db lb pool))))
        (\<lambda>q. on_fst (on_fst (WalkRouteService (pg_FindWalkRoute (lb_road_db lb pool)) q))) (lim_RoadgraphStats limiters),
      auth_routes AuthPayload decodeJSON (auth_operations (auth_service_of lb cfg)) (refreshCookieConfig (lb_unicodeLower lb) cfg)
        (auth_middleware lb cfg) (lim_AuthLogin limiters)] @
     (if MetricsEnabled cfg
      then [debug_routes clock (\<lambda>w. lb_goroutines lb (fst (fst w))) (newObservabilityHandler lb pool cache startedAt)] else [])"

definition protected_registrars :: "('x, 'r, 'rate, 'store) libraries \<Rightarrow> string \<Rightarrow> (('x, 'r) served, User, payload) Middlewares \<Rightarrow>
    active_cache \<Rightarrow> (('x, 'r) served, User, payload) route list list" where
  "protected_registrars lb pool limiters cache =
     [saferoutes_routes (SafeRoutes (repo_fst (repo_fst (PostgresRepository (lb_routing_db lb pool) path_json)))
        (cache_ops lb cache) clock (lb_zone lb)) (lim_RoutesSafe limiters)]"

subsection \<open>New and Close\<close>

record ('x, 'r) app =
  app_Router :: "('x, 'r) served router"
  app_pool :: string
  app_redis :: "redis_options option"

definition open_redis :: "drivers \<Rightarrow> Config \<Rightarrow> (connections, unit, redis_options option) prog" where
  "open_redis d cfg =
     (if RedisEnabled cfg
      then andThen (NewClient d (RedisAddr cfg) (RedisPassword cfg) (RedisDB cfg)) (\<lambda>client. ret (Some client))
      else ret None)"

definition New :: "('x, 'r, 'rate, 'store) libraries \<Rightarrow> Config \<Rightarrow> go_time \<Rightarrow> (connections, unit, ('x, 'r) app) prog" where
  "New lb cfg startedAt c =
     (case validateAuthConfig cfg of Some err \<Rightarrow> fail err c | None \<Rightarrow>
      case validateRedisConfig cfg of Some err \<Rightarrow> fail err c | None \<Rightarrow>
      case NewPool (lb_drivers lb) (DatabaseURL cfg) c of (Inl err, c) \<Rightarrow> fail err c | (Inr pool, c) \<Rightarrow>
      case open_redis (lb_drivers lb) cfg c of (Inl err, c) \<Rightarrow> fail err (pool_Close pool c) | (Inr client, c) \<Rightarrow>
      case (if RateLimitEnabled cfg then NewMiddlewares (lb_limiter lb) client else Inr Passthrough) of
        Inl err \<Rightarrow> fail err (closeRedis client (pool_Close pool c))
      | Inr limiters \<Rightarrow>
          let cache = (if RouteCacheEnabled cfg then ActiveRedis client else ActiveNoop) in
          ret \<lparr>app_Router = NewRouter (lb_http lb) (auth_middleware lb cfg)
                 (public_registrars lb cfg pool limiters cache startedAt) (protected_registrars lb pool limiters cache),
               app_pool = pool, app_redis = client\<rparr> c)"

definition Close :: "('x, 'r) app \<Rightarrow> connections \<Rightarrow> connections" where
  "Close a c = closeRedis (app_redis a) (pool_Close (app_pool a) c)"

end
