(* ===== verification/AppProperties.thy ===== *)
theory AppProperties
  imports App AuthHttpProperties
begin

section \<open>Correctness of the assembled server\<close>

subsection \<open>Startup\<close>

lemma open_redis_connections:
  "open_redis d cfg c = (Inl e, c') \<Longrightarrow> c' = c"
  "open_redis d cfg c = (Inr client, c') \<Longrightarrow>
     (if RedisEnabled cfg then \<exists>opts. client = Some opts \<and> c' = c\<lparr>open_clients := opts # open_clients c\<rparr> else client = None \<and> c' = c)"
  by (auto simp: open_redis_def andThen_def dest: NewClient_connections split: if_splits prod.splits sum.splits)

lemma New_Inl:
  assumes "New lb cfg t c = (Inl e, c')"
  shows "c' = c"
  using assms
  by (auto simp: New_def Let_def pool_Close_def closeRedis_def client_Close_def
      dest!: NewPool_connections open_redis_connections split: option.splits prod.splits sum.splits if_splits)

lemma New_Inr:
  assumes "New lb cfg t c = (Inr a, c')"
  obtains limiters cache where
    "validateAuthConfig cfg = None" "validateRedisConfig cfg = None" "app_pool a = DatabaseURL cfg"
    "app_Router a = NewRouter (lb_http lb) (auth_middleware lb cfg)
       (public_registrars lb cfg (app_pool a) limiters cache t) (protected_registrars lb (app_pool a) limiters cache)"
    "if RedisEnabled cfg then \<exists>opts. app_redis a = Some opts \<and> open_clients c' = opts # open_clients c
     else app_redis a = None \<and> open_clients c' = open_clients c"
    "open_pools c' = DatabaseURL cfg # open_pools c"
  using assms
  by (auto simp: New_def Let_def dest!: NewPool_connections open_redis_connections
      split: option.splits prod.splits sum.splits if_splits)

lemma New_Close:
  assumes "New lb cfg t c = (Inr a, c')"
  shows "Close a c' = c"
  by (rule New_Inr [OF assms]) (auto simp: Close_def pool_Close_def closeRedis_def client_Close_def split: if_splits)

lemma validateAuthConfig_None: "validateAuthConfig cfg = None \<longleftrightarrow> \<not> weak_secret cfg \<or> IsDevelopment cfg"
  by (simp add: validateAuthConfig_def)

lemma validateRedisConfig_None:
  "validateRedisConfig cfg = None \<longleftrightarrow> (RateLimitEnabled cfg \<or> RouteCacheEnabled cfg \<longrightarrow> RedisEnabled cfg)"
  by (auto simp: validateRedisConfig_def)

text \<open>C21. A start that fails leaves no connection open. One that succeeds has a real signing secret unless it runs in development, has Redis
  when rate limits or the route cache need it, holds exactly one pool and, with Redis, one client more than before, and \<open>Close\<close>
  gives both back.\<close>

theorem start_all_or_nothing:
  "case New lb cfg t c of
     (Inl e, c') \<Rightarrow> c' = c
   | (Inr a, c') \<Rightarrow>
       (if IsDevelopment cfg then True else JWTSecret cfg \<noteq> [] \<and> JWTSecret cfg \<noteq> ''change_me'') \<and>
       (if RateLimitEnabled cfg \<or> RouteCacheEnabled cfg then RedisEnabled cfg else True) \<and>
       (app_redis a = None \<longleftrightarrow> \<not> RedisEnabled cfg) \<and>
       open_pools c' = DatabaseURL cfg # open_pools c \<and>
       open_clients c' = (case app_redis a of None \<Rightarrow> [] | Some opts \<Rightarrow> [opts]) @ open_clients c \<and>
       Close a c' = c"
proof (cases "fst (New lb cfg t c)")
  case (Inl e)
  then show ?thesis using New_Inl [of lb cfg t c e] by (cases "New lb cfg t c") auto
next
  case (Inr a)
  obtain c' where run: "New lb cfg t c = (Inr a, c')" using Inr by (cases "New lb cfg t c") auto
  show ?thesis
    by (rule New_Inr [OF run])
      (auto simp: run validateAuthConfig_None validateRedisConfig_None weak_secret_def Close_def pool_Close_def closeRedis_def
        client_Close_def split: if_splits)
qed

subsection \<open>Routing\<close>

lemmas registrations = public_registrars_def protected_registrars_def health_routes_def crimes_routes_def ors_routes_def
  roadgraph_routes_def saferoutes_routes_def auth_routes_def debug_routes_def

text \<open>What is open to anyone.\<close>

definition open_endpoints :: "(string \<times> string) list" where
  "open_endpoints =
     [(''GET'', ''/openapi.yaml''), (''GET'', ''/docs/*''), (''GET'', ''/api/v1/health''), (''GET'', ''/api/v1/crimes/nearby''),
      (''GET'', ''/api/v1/routes''), (''GET'', ''/api/v1/roadgraph/stats''), (''GET'', ''/api/v1/roadgraph/route''),
      (''POST'', ''/api/v1/auth/register''), (''POST'', ''/api/v1/auth/login''), (''POST'', ''/api/v1/auth/refresh''),
      (''POST'', ''/api/v1/auth/logout''), (''GET'', ''/api/v1/debug/stats'')]"

definition tokens_of :: "Config \<Rightarrow> TokenManager" where
  "tokens_of cfg = \<lparr>tm_secret = JWTSecret cfg, tm_accessTTL = sint (AccessTokenTTL cfg)\<rparr>"

lemma served_endpoints:
  "map (\<lambda>(m, p, h). (m, p)) (rt_routes (NewRouter lib mw (public_registrars lb cfg pool limiters cache t)
       (protected_registrars lb pool limiters cache))) =
     (let v1 = ''/api/v1'' in
      [(''GET'', ''/openapi.yaml''), (''GET'', ''/docs/*''), (''GET'', v1 @ ''/health''), (''GET'', v1 @ ''/crimes/nearby''),
       (''GET'', v1 @ ''/routes''), (''GET'', v1 @ ''/roadgraph/stats''), (''GET'', v1 @ ''/roadgraph/route''),
       (''POST'', v1 @ ''/auth/register''), (''POST'', v1 @ ''/auth/login''), (''POST'', v1 @ ''/auth/refresh''),
       (''POST'', v1 @ ''/auth/logout''), (''GET'', v1 @ ''/auth/me'')] @
      (if MetricsEnabled cfg then [(''GET'', v1 @ ''/debug/stats'')] else []) @ [(''GET'', v1 @ ''/routes/safe'')])"
  unfolding NewRouter_def registrations mount_def behind_def Let_def
  by (cases "MetricsEnabled cfg")
    (simp_all only: if_True if_False router.select_convs concat.simps map_append append_Nil append_Nil2 append_Cons list.map prod.case)

lemma guarded_names:
  "filter (\<lambda>x. x \<notin> set open_endpoints)
     (map (\<lambda>(m, p, h). (m, p)) (rt_routes (NewRouter lib mw (public_registrars lb cfg pool limiters cache t)
       (protected_registrars lb pool limiters cache)))) =
     [(''GET'', ''/api/v1/auth/me''), (''GET'', ''/api/v1/routes/safe'')]"
  unfolding served_endpoints Let_def open_endpoints_def by (cases "MetricsEnabled cfg") simp_all

text \<open>The request carries a valid token of an active account.\<close>

definition entitled :: "('x, 'r, 'rate, 'store) libraries \<Rightarrow> Config \<Rightarrow> User http_request \<Rightarrow> ('x, 'r) served \<Rightarrow> bool" where
  "entitled lb cfg r w \<longleftrightarrow>
     (\<exists>row\<in>set (users (snd (fst w))). u_is_active row \<and>
        VerifyAccessToken (lb_crypto lb) (tokens_of cfg) (clock w) (bearerToken r) = Inr (u_id row))"

definition turns_away :: "('x, 'r) served \<Rightarrow> payload http_response \<times> ('x, 'r) served \<Rightarrow> bool" where
  "turns_away w out \<longleftrightarrow> hr_Status (fst out) \<in> {401, 500} \<and> fst (fst (snd out)) = fst (fst w) \<and>
     same_tables (snd (fst w)) (snd (fst (snd out))) \<and> snd (snd out) = snd w"

lemma auth_middleware_guards: "entitled lb cfg r w \<or> turns_away w (auth_middleware lb cfg h r w)"
proof -
  obtain x aw where run: "Authenticate (auth_service_of lb cfg) (bearerToken r) (snd (fst w)) = (x, aw)" by (metis prod.collapse)
  have same: "same_tables (snd (fst w)) aw"
    using run unfolding auth_service_of_def by (rule authenticate_reads)
  show ?thesis
  proof (cases x)
    case (Inl e)
    then have "turns_away w (auth_middleware lb cfg h r w)"
      using run same by (auto simp: auth_middleware_def AuthMiddleware_def Let_def on_fst_def on_snd_def turns_away_def same_tables_def)
    then show ?thesis ..
  next
    case (Inr user)
    then have "entitled lb cfg r w"
      using authenticated_row [OF run [unfolded Inr auth_service_of_def]]
      by (auto simp: entitled_def clock_def tokens_of_def)
    then show ?thesis ..
  qed
qed

text \<open>C3. Every endpoint of the server that is not in the list of open ones, and these are the safe routes and the account itself, turns a
  request away unless it carries a valid token of an active account: 401, or 500 when the database fails, and nothing changed.\<close>

theorem endpoints_guarded:
  "case New lb cfg t c of
     (Inl e, c') \<Rightarrow> True
   | (Inr a, c') \<Rightarrow>
       filter (\<lambda>x. x \<notin> set open_endpoints) (map (\<lambda>(m, p, h). (m, p)) (rt_routes (app_Router a))) =
         [(''GET'', ''/api/v1/auth/me''), (''GET'', ''/api/v1/routes/safe'')] \<and>
       list_all (\<lambda>(m, p, h). (m, p) \<in> set open_endpoints \<or> (\<forall>r w. entitled lb cfg r w \<or> turns_away w (h r w)))
         (rt_routes (app_Router a))"
proof (cases "fst (New lb cfg t c)")
  case (Inl e)
  then show ?thesis by (cases "New lb cfg t c") auto
next
  case (Inr a)
  obtain c' where run: "New lb cfg t c = (Inr a, c')" using Inr by (cases "New lb cfg t c") auto
  obtain limiters cache where rt: "app_Router a = NewRouter (lb_http lb) (auth_middleware lb cfg)
       (public_registrars lb cfg (app_pool a) limiters cache t) (protected_registrars lb (app_pool a) limiters cache)"
    by (rule New_Inr [OF run])
  have "list_all (\<lambda>(m, p, h). (m, p) \<in> set open_endpoints \<or> (\<forall>r w. entitled lb cfg r w \<or> turns_away w (h r w)))
         (rt_routes (app_Router a))"
    unfolding rt NewRouter_def registrations mount_def behind_def open_endpoints_def by (simp add: auth_middleware_guards)
  then show ?thesis using guarded_names by (simp add: run rt)
qed

text \<open>C39. The runtime statistics are served only when the configuration asks for them, change nothing, and go only to a
  client on a loopback address; any other gets 403.\<close>

theorem debug_stats_local:
  "case New lb cfg t c of
     (Inl e, c') \<Rightarrow> True
   | (Inr a, c') \<Rightarrow>
       (case handler_of (app_Router a) ''GET'' ''/api/v1/debug/stats'' of
          None \<Rightarrow> \<not> MetricsEnabled cfg
        | Some h \<Rightarrow> MetricsEnabled cfg \<and> snd (h r w) = w \<and> (hr_Status (fst (h r w)) = 403 \<longleftrightarrow> \<not> isLoopback r))"
proof (cases "fst (New lb cfg t c)")
  case (Inl e)
  then show ?thesis by (cases "New lb cfg t c") auto
next
  case (Inr a)
  obtain c' where run: "New lb cfg t c = (Inr a, c')" using Inr by (cases "New lb cfg t c") auto
  obtain limiters cache where rt: "app_Router a = NewRouter (lb_http lb) (auth_middleware lb cfg)
       (public_registrars lb cfg (app_pool a) limiters cache t) (protected_registrars lb (app_pool a) limiters cache)"
    by (rule New_Inr [OF run])
  have "handler_of (app_Router a) ''GET'' ''/api/v1/debug/stats'' =
      (if MetricsEnabled cfg
       then Some (embed SnapshotPayload (debug_stats clock (\<lambda>w. lb_goroutines lb (fst (fst w))) (newObservabilityHandler lb (app_pool a) cache t)))
       else None)"
    unfolding rt NewRouter_def registrations mount_def behind_def handler_of_def by (simp add: matches_pattern_def)
  then show ?thesis by (simp add: run embed_def debug_stats_def Let_def)
qed

subsection \<open>Lifetimes\<close>

text \<open>C40. For any number of days up to 106751 in \<open>REFRESH_TOKEN_TTL_DAYS\<close>, the cookie a login sets and the session it stores
  last exactly that long; from the next number on, the duration wraps to a negative one.\<close>

theorem refresh_lifetime:
  assumes "0 \<le> n" "n \<le> 106751" "getEnvInt env ''REFRESH_TOKEN_TTL_DAYS'' 7 = word_of_int n"
  shows "cc_MaxAge (refreshCookieConfig lower (Load env)) = n * 86400 \<and>
    unixSec (sp_ExpiresAt (sessionParams (auth_service_of lb (Load env)) i raw meta now)) =
      unixSec now + nsec now div 1000000000 + cc_MaxAge (refreshCookieConfig lower (Load env)) \<and>
    sint ((106751 + 1) * 24 * time_Hour) < 0"
proof -
  note ttl = refresh_ttl [OF assms]
  have "int_of_f64 (duration_Seconds (n * 86400 * 1000000000)) = n * 86400"
    using assms(1,2) by (subst duration_whole_seconds) simp_all
  moreover have "(nsec now + n * 86400 * 1000000000) div 1000000000 = nsec now div 1000000000 + n * 86400" by simp
  ultimately show ?thesis
    by (simp add: refreshCookieConfig_def sessionParams_def auth_service_of_def ttl time_Add_def time_Hour_def)
qed

theorem refresh_lifetime_witness:
  "cc_MaxAge (refreshCookieConfig id (Load (\<lambda>k. if k = ''REFRESH_TOKEN_TTL_DAYS'' then ''30'' else []))) = 2592000"
proof -
  have "getEnvInt (\<lambda>k. if k = ''REFRESH_TOKEN_TTL_DAYS'' then ''30'' else []) ''REFRESH_TOKEN_TTL_DAYS'' 7 = word_of_int 30"
    by code_simp
  show ?thesis by (rule trans [OF refresh_lifetime [OF _ _ \<open>getEnvInt _ _ _ = _\<close>, THEN conjunct1]]) simp_all
qed

end
