(* ===== verification/RoadTables.thy ===== *)
theory RoadTables
  imports CrimesSql SafeRoutesRepository Codecs
begin

section \<open>The tables behind the routes\<close>

text \<open>
  The tables of migrations 000004 to 000010 that the routing statements read, and what these use of PostGIS and
  pgRouting. A geometry is a value of \<open>'g\<close>; its distances to a point, the coordinates of a point, the text of merged lines and the
  midpoint of a line are parameters, as are the two routing functions, which get the rows \<open>(id, source, target, cost)\<close> of
  their inner statement and answer with the edges of paths.
\<close>

record 'g road_node =
  nd_ID :: i64
  nd_Geom :: 'g

record 'g road_edge =
  ed_ID :: i64
  ed_From :: i64
  ed_To :: i64
  ed_Length :: f64
  ed_Duration :: f64
  ed_Walkable :: bool
  ed_Routable :: bool
  ed_Geom :: 'g

type_synonym risk_context = "i64 \<times> string \<times> string"

record score_row =
  sc_Edge :: i64
  sc_Context :: risk_context
  sc_Risk :: f64

record component_row =
  co_Edge :: i64
  co_Context :: risk_context
  co_Crime :: "32 word"
  co_Robbery :: "32 word"
  co_Theft :: "32 word"
  co_Threats :: "32 word"
  co_Armed :: "32 word"
  co_Motorcycle :: "32 word"
  co_SameBucket :: "32 word"

text \<open>Of the parameters of a model version, the two risk levels.\<close>

record model_row =
  mr_ID :: i64
  mr_Name :: string
  mr_Type :: string
  mr_TrainUntil :: "string option"
  mr_LowMax :: "f64 option"
  mr_ModerateMax :: "f64 option"
  mr_IsActive :: bool

record profile_row =
  pr_Name :: string
  pr_Multiplier :: f64
  pr_Detour :: f64

record 'g road_tables =
  road_nodes :: "'g road_node list"
  road_edges :: "'g road_edge list"
  edge_risk_scores :: "score_row list"
  edge_risk_score_components :: "component_row list"
  risk_model_versions :: "model_row list"
  route_profiles :: "profile_row list"

record 'g geometry =
  knn_distance :: "'g \<Rightarrow> f64 \<Rightarrow> f64 \<Rightarrow> f64"
  geography_distance :: "'g \<Rightarrow> f64 \<Rightarrow> f64 \<Rightarrow> f64"
  planar_distance :: "'g \<Rightarrow> f64 \<Rightarrow> f64 \<Rightarrow> f64"
  merged_geojson :: "'g list \<Rightarrow> string"
  point_x :: "'g \<Rightarrow> f64"
  point_y :: "'g \<Rightarrow> f64"
  midpoint_x :: "'g \<Rightarrow> f64"
  midpoint_y :: "'g \<Rightarrow> f64"

type_synonym cost_row = "i64 \<times> i64 \<times> i64 \<times> f64"

record pgrouting =
  pgr_dijkstra :: "cost_row list \<Rightarrow> i64 \<Rightarrow> i64 \<Rightarrow> i64 list"
  pgr_ksp :: "cost_row list \<Rightarrow> i64 \<Rightarrow> i64 \<Rightarrow> int \<Rightarrow> i64 list list"

text \<open>The view \<open>routable_road_edges\<close>.\<close>

definition routable_road_edges :: "'g road_tables \<Rightarrow> 'g road_edge list" where
  "routable_road_edges tb = filter (\<lambda>e. ed_Walkable e \<and> ed_Routable e) (road_edges tb)"

definition node_of :: "'g road_tables \<Rightarrow> i64 \<Rightarrow> 'g road_node option" where
  "node_of tb i = find (\<lambda>n. nd_ID n = i) (road_nodes tb)"

definition edge_of :: "'g road_tables \<Rightarrow> i64 \<Rightarrow> 'g road_edge option" where
  "edge_of tb i = find (\<lambda>e. ed_ID e = i) (road_edges tb)"

definition score_of :: "'g road_tables \<Rightarrow> risk_context \<Rightarrow> i64 \<Rightarrow> f64" where
  "score_of tb ctx i = (case find (\<lambda>r. sc_Edge r = i \<and> sc_Context r = ctx) (edge_risk_scores tb) of None \<Rightarrow> 0 | Some r \<Rightarrow> sc_Risk r)"

text \<open>The order of \<open>float8\<close> places NaN above everything.\<close>

definition float8_le :: "f64 \<Rightarrow> f64 \<Rightarrow> bool" where
  "float8_le x y \<longleftrightarrow> float8_key x \<le> float8_key y"

subsection \<open>Snapping\<close>

text \<open>The first edge in the order of \<open>ORDER BY e.geom <-> point LIMIT 1\<close>; among equally near edges the server may choose any,
  here the first of the table.\<close>

definition nearest_edge :: "'g geometry \<Rightarrow> 'g road_tables \<Rightarrow> f64 \<Rightarrow> f64 \<Rightarrow> 'g road_edge option" where
  "nearest_edge g tb lng lat =
     (case sort_key (\<lambda>e. float8_key (knn_distance g (ed_Geom e) lng lat)) (routable_road_edges tb) of [] \<Rightarrow> None | e # es \<Rightarrow> Some e)"

definition nearer_end :: "('g \<Rightarrow> f64) \<Rightarrow> 'g road_tables \<Rightarrow> 'g road_edge \<Rightarrow> (i64 \<times> f64) option" where
  "nearer_end away tb e =
     (case (node_of tb (ed_From e), node_of tb (ed_To e)) of
        (Some nf, Some nt) \<Rightarrow>
          if float8_le (away (nd_Geom nf)) (away (nd_Geom nt)) then Some (ed_From e, away (nd_Geom nf)) else Some (ed_To e, away (nd_Geom nt))
      | _ \<Rightarrow> None)"

definition snap_end :: "'g geometry \<Rightarrow> 'g road_tables \<Rightarrow> f64 \<Rightarrow> f64 \<Rightarrow> (i64 \<times> f64) option" where
  "snap_end g tb lng lat =
     Option.bind (nearest_edge g tb lng lat) (nearer_end (\<lambda>n. geography_distance g n lng lat) tb)"

definition snapQuery :: "'g geometry \<Rightarrow> 'g road_tables \<Rightarrow> f64 \<Rightarrow> f64 \<Rightarrow> f64 \<Rightarrow> f64 \<Rightarrow>
    i64 option \<times> f64 option \<times> i64 option \<times> f64 option" where
  "snapQuery g tb lng1 lat1 lng2 lat2 =
     (let src = snap_end g tb lng1 lat1; dst = snap_end g tb lng2 lat2
      in (map_option fst src, map_option snd src, map_option fst dst, map_option snd dst))"

subsection \<open>Costs\<close>

text \<open>Arithmetic of the server: an overflow or underflow is an error.\<close>

definition float8_mul :: "f64 \<Rightarrow> f64 \<Rightarrow> f64 option" where
  "float8_mul x y = (let r = x * y in
     if \<not> is_fin r \<and> is_fin x \<and> is_fin y then None else if r = 0 \<and> x \<noteq> 0 \<and> y \<noteq> 0 then None else Some r)"

definition float8_pl :: "f64 \<Rightarrow> f64 \<Rightarrow> f64 option" where
  "float8_pl x y = (let r = x + y in if \<not> is_fin r \<and> is_fin x \<and> is_fin y then None else Some r)"

definition risk_cost :: "f64 \<Rightarrow> f64 \<Rightarrow> f64 \<Rightarrow> f64 option" where
  "risk_cost mult len risk = Option.bind (Option.bind (float8_mul mult risk) (float8_pl 1)) (float8_mul len)"

text \<open>The rows of the inner statement. A multiplier that is not finite is not a number in SQL.\<close>

fun cost_rows :: "'g road_tables \<Rightarrow> inner_cost \<Rightarrow> cost_row list option" where
  "cost_rows tb DistanceCostInner = Some (map (\<lambda>e. (ed_ID e, ed_From e, ed_To e, ed_Length e)) (routable_road_edges tb))"
| "cost_rows tb (RiskCostInner mult model bucket weekday) =
     (if \<not> is_fin mult then None
      else those (map (\<lambda>e. map_option (\<lambda>c. (ed_ID e, ed_From e, ed_To e, c))
             (risk_cost mult (ed_Length e) (score_of tb (model, bucket, weekday) (ed_ID e)))) (routable_road_edges tb)))"

subsection \<open>Paths\<close>

definition components_of :: "'g road_tables \<Rightarrow> risk_context \<Rightarrow> i64 \<Rightarrow> component_row option" where
  "components_of tb ctx i = find (\<lambda>r. co_Edge r = i \<and> co_Context r = ctx) (edge_risk_score_components tb)"

definition count_of :: "(component_row \<Rightarrow> 32 word) \<Rightarrow> component_row option \<Rightarrow> i64" where
  "count_of f c = (case c of None \<Rightarrow> 0 | Some r \<Rightarrow> scast (f r))"

definition enriched_edge :: "'g geometry \<Rightarrow> 'g road_tables \<Rightarrow> risk_context \<Rightarrow> 'g road_edge \<Rightarrow> PathEdge" where
  "enriched_edge g tb ctx e =
     (let c = components_of tb ctx (ed_ID e) in
      \<lparr>pe_EdgeID = ed_ID e, pe_LengthMeters = ed_Length e, pe_DurationSeconds = ed_Duration e, pe_RiskScore = score_of tb ctx (ed_ID e),
       pe_CrimeCount = count_of co_Crime c, pe_RobberyCount = count_of co_Robbery c, pe_TheftCount = count_of co_Theft c,
       pe_ThreatsCount = count_of co_Threats c, pe_ArmedCount = count_of co_Armed c, pe_MotorcycleCount = count_of co_Motorcycle c,
       pe_SameBucketCrimeCount = count_of co_SameBucket c, pe_PointLat = midpoint_y g (ed_Geom e), pe_PointLng = midpoint_x g (ed_Geom e)\<rparr>)"

definition path_edges :: "'g road_tables \<Rightarrow> i64 list \<Rightarrow> 'g road_edge list" where
  "path_edges tb es = List.map_filter (edge_of tb) es"

text \<open>\<open>json_agg\<close> of \<open>json_build_object\<close>; \<open>float8out\<close> is the text of a float.\<close>

definition json_member :: "string \<Rightarrow> string \<Rightarrow> string" where
  "json_member k t = CHR 0x22 # k @ [CHR 0x22, CHR '' '', CHR '':'', CHR '' ''] @ t"

fun join_texts :: "string \<Rightarrow> string list \<Rightarrow> string" where
  "join_texts sep [] = []"
| "join_texts sep [x] = x"
| "join_texts sep (x # y # xs) = x @ sep @ join_texts sep (y # xs)"

definition json_object :: "(string \<times> string) list \<Rightarrow> string" where
  "json_object kvs = [CHR 0x7B] @ join_texts '', '' (map (\<lambda>(k, t). json_member k t) kvs) @ [CHR 0x7D]"

definition json_array :: "string list \<Rightarrow> string" where
  "json_array xs = [CHR 0x5B] @ join_texts [CHR '','', CHR '' '', CHR 0x0A, CHR '' ''] xs @ [CHR 0x5D]"

definition edge_members :: "(f64 \<Rightarrow> string) \<Rightarrow> PathEdge \<Rightarrow> (string \<times> string) list" where
  "edge_members float8out e =
     [(''edge_id'', fmt_d (pe_EdgeID e)), (''length_meters'', float8out (pe_LengthMeters e)),
      (''duration_seconds'', float8out (pe_DurationSeconds e)), (''risk_score'', float8out (pe_RiskScore e)),
      (''crime_count'', fmt_d (pe_CrimeCount e)), (''robbery_count'', fmt_d (pe_RobberyCount e)), (''theft_count'', fmt_d (pe_TheftCount e)),
      (''threats_count'', fmt_d (pe_ThreatsCount e)), (''armed_count'', fmt_d (pe_ArmedCount e)),
      (''motorcycle_count'', fmt_d (pe_MotorcycleCount e)), (''same_bucket_crime_count'', fmt_d (pe_SameBucketCrimeCount e)),
      (''point_lng'', float8out (pe_PointLng e)), (''point_lat'', float8out (pe_PointLat e))]"

definition edges_json :: "(f64 \<Rightarrow> string) \<Rightarrow> PathEdge list \<Rightarrow> string" where
  "edges_json float8out es = json_array (map (\<lambda>e. json_object (edge_members float8out e)) es)"

text \<open>One path, joined and aggregated: the number of its edges, the geometry and the JSON text of the edges.\<close>

definition path_row :: "'g geometry \<Rightarrow> (f64 \<Rightarrow> string) \<Rightarrow> 'g road_tables \<Rightarrow> risk_context \<Rightarrow> i64 list \<Rightarrow> int \<times> string option \<times> string" where
  "path_row g float8out tb ctx es =
     (let rows = path_edges tb es in
      (int (length rows), if rows = [] then None else Some (merged_geojson g (map ed_Geom rows)),
       edges_json float8out (map (enriched_edge g tb ctx) rows)))"

definition routeQuery :: "'g geometry \<Rightarrow> pgrouting \<Rightarrow> (f64 \<Rightarrow> string) \<Rightarrow> 'g road_tables \<Rightarrow> inner_cost \<Rightarrow> i64 \<Rightarrow> i64 \<Rightarrow> risk_context \<Rightarrow>
    pgx_error + (int \<times> string option \<times> string)" where
  "routeQuery g pgr float8out tb inner src dst ctx =
     (case cost_rows tb inner of
        None \<Rightarrow> Inl (PgxError ''value out of range'')
      | Some rows \<Rightarrow> Inr (path_row g float8out tb ctx (pgr_dijkstra pgr rows src dst)))"

text \<open>The group of a path exists when one of its edges joins; paths are numbered from 1.\<close>

definition kspQuery :: "'g geometry \<Rightarrow> pgrouting \<Rightarrow> (f64 \<Rightarrow> string) \<Rightarrow> 'g road_tables \<Rightarrow> inner_cost \<Rightarrow> i64 \<Rightarrow> i64 \<Rightarrow> int \<Rightarrow> risk_context \<Rightarrow>
    (int \<times> string option \<times> string) pg_rows" where
  "kspQuery g pgr float8out tb inner src dst k ctx =
     (case cost_rows tb inner of
        None \<Rightarrow> Inl ''value out of range''
      | Some rows \<Rightarrow>
          all_rows (map (\<lambda>(i, es). case path_row g float8out tb ctx es of (n, geom, edges) \<Rightarrow> (int i, geom, edges))
            (filter (\<lambda>(i, es). path_edges tb es \<noteq> []) (enumerate 1 (pgr_ksp pgr rows src dst k)))))"

definition activeModelQuery :: "'g road_tables \<Rightarrow> pgx_error + (i64 \<times> string \<times> string \<times> string \<times> f64 \<times> f64)" where
  "activeModelQuery tb =
     (case filter mr_IsActive (risk_model_versions tb) of
        [] \<Rightarrow> Inl ErrNoRows
      | r # rs \<Rightarrow> Inr (mr_ID r, mr_Name r, mr_Type r, case mr_TrainUntil r of None \<Rightarrow> [] | Some d \<Rightarrow> d,
          case mr_LowMax r of None \<Rightarrow> f64_of_rat (33 / 100) | Some x \<Rightarrow> x, case mr_ModerateMax r of None \<Rightarrow> f64_of_rat (66 / 100) | Some x \<Rightarrow> x))"

definition routeRiskByBucketQuery :: "'g road_tables \<Rightarrow> i64 list \<Rightarrow> i64 \<Rightarrow> string \<Rightarrow> (i64 \<times> string \<times> f64) list" where
  "routeRiskByBucketQuery tb ids model weekday =
     map (\<lambda>r. (sc_Edge r, fst (snd (sc_Context r)), sc_Risk r))
       (filter (\<lambda>r. sc_Edge r \<in> set ids \<and> fst (sc_Context r) = model \<and> snd (snd (sc_Context r)) = weekday \<and>
          fst (snd (sc_Context r)) \<in> set [''morning'', ''afternoon'', ''evening'', ''night'']) (edge_risk_scores tb))"

text \<open>A server that holds the tables and answers without faults.\<close>

definition road_server :: "'g geometry \<Rightarrow> pgrouting \<Rightarrow> (f64 \<Rightarrow> string) \<Rightarrow> 'g road_tables \<Rightarrow> 's routing_db" where
  "road_server g pgr float8out tb =
     \<lparr>q_ActiveModel = Pair (activeModelQuery tb),
      q_RouteProfiles = Pair (all_rows (map (\<lambda>r. (pr_Name r, pr_Multiplier r, pr_Detour r)) (route_profiles tb))),
      q_Snap = (\<lambda>lng1 lat1 lng2 lat2. Pair (Inr (snapQuery g tb lng1 lat1 lng2 lat2))),
      q_Route = (\<lambda>inner src dst model bucket weekday. Pair (routeQuery g pgr float8out tb inner src dst (model, bucket, weekday))),
      q_Ksp = (\<lambda>inner src dst k model bucket weekday. Pair (kspQuery g pgr float8out tb inner src dst k (model, bucket, weekday))),
      q_RiskByBucket = (\<lambda>ids model weekday. Pair (all_rows (routeRiskByBucketQuery tb ids model weekday)))\<rparr>"

end
