(* ===== verification/RoadGraphSql.thy ===== *)
theory RoadGraphSql
  imports RoadGraph RoadTables
begin

section \<open>The statements of the road graph\<close>

text \<open>
  \<open>statsQuery\<close> and \<open>walkRouteQuery\<close> of \<open>internal/roadgraph/repository.go\<close> over the tables of \<open>RoadTables\<close>.
\<close>

definition sql_count :: "'a list \<Rightarrow> i64" where
  "sql_count xs = of_nat (length xs)"

text \<open>A bound of the extent; \<open>COALESCE\<close> makes it zero without nodes.\<close>

definition bound_of :: "(f64 \<Rightarrow> f64 \<Rightarrow> bool) \<Rightarrow> f64 list \<Rightarrow> f64" where
  "bound_of before xs = (case xs of [] \<Rightarrow> 0 | x # xs \<Rightarrow> foldl (\<lambda>b y. if before y b then y else b) x xs)"

definition statsQuery :: "'g geometry \<Rightarrow> 'g road_tables \<Rightarrow> GraphStats" where
  "statsQuery g tb =
     (let xs = map (point_x g \<circ> nd_Geom) (road_nodes tb); ys = map (point_y g \<circ> nd_Geom) (road_nodes tb) in
      \<lparr>gs_NodesCount = sql_count (road_nodes tb), gs_EdgesCount = sql_count (road_edges tb),
       gs_WalkableEdges = sql_count (filter ed_Walkable (road_edges tb)),
       gs_RoutableEdges = sql_count (filter ed_Routable (road_edges tb)),
       gs_ExcludedEdges = sql_count (filter (\<lambda>e. \<not> ed_Routable e) (road_edges tb)),
       gs_RiskScoredEdges = sql_count (edge_risk_scores tb),
       gs_MinLat = bound_of float8_le ys, gs_MinLng = bound_of float8_le xs,
       gs_MaxLat = bound_of (\<lambda>y b. float8_le b y) ys, gs_MaxLng = bound_of (\<lambda>x b. float8_le b x) xs\<rparr>)"

definition walk_snap :: "'g geometry \<Rightarrow> 'g road_tables \<Rightarrow> f64 \<Rightarrow> f64 \<Rightarrow> i64 option" where
  "walk_snap g tb lng lat =
     map_option fst (Option.bind (nearest_edge g tb lng lat) (nearer_end (\<lambda>n. planar_distance g n lng lat) tb))"

text \<open>\<open>SUM\<close>, \<open>NULL\<close> and so zero without rows; an overflow is an error.\<close>

definition sql_sum :: "f64 list \<Rightarrow> f64 option" where
  "sql_sum xs = foldl (\<lambda>acc x. Option.bind acc (\<lambda>a. float8_pl a x)) (Some 0) xs"

text \<open>\<open>pgr_dijkstra\<close> of a missing node has no rows.\<close>

definition walk_path :: "'g geometry \<Rightarrow> pgrouting \<Rightarrow> 'g road_tables \<Rightarrow> i64 option \<Rightarrow> i64 option \<Rightarrow> i64 list" where
  "walk_path g pgr tb src dst = (case (src, dst, cost_rows tb DistanceCostInner) of
     (Some u, Some v, Some rows) \<Rightarrow> pgr_dijkstra pgr rows u v | _ \<Rightarrow> [])"

definition walkRouteQuery :: "'g geometry \<Rightarrow> pgrouting \<Rightarrow> 'g road_tables \<Rightarrow> f64 \<Rightarrow> f64 \<Rightarrow> f64 \<Rightarrow> f64 \<Rightarrow> pgx_error + walk_row" where
  "walkRouteQuery g pgr tb lng1 lat1 lng2 lat2 =
     (let src = walk_snap g tb lng1 lat1; dst = walk_snap g tb lng2 lat2;
          rows = path_edges tb (walk_path g pgr tb src dst) in
      case (sql_sum (map ed_Length rows), sql_sum (map ed_Duration rows)) of
        (Some len, Some duration) \<Rightarrow>
          Inr (src, dst, len, duration, sql_count rows, if rows = [] then None else Some (merged_geojson g (map ed_Geom rows)))
      | _ \<Rightarrow> Inl (PgxError ''value out of range: overflow''))"

text \<open>A server that holds the tables and answers without faults.\<close>

definition walk_server :: "'g geometry \<Rightarrow> pgrouting \<Rightarrow> 'g road_tables \<Rightarrow> 's road_db" where
  "walk_server g pgr tb = \<lparr>q_Stats = Pair (Inr (statsQuery g tb)),
     q_WalkRoute = (\<lambda>lng1 lat1 lng2 lat2. Pair (walkRouteQuery g pgr tb lng1 lat1 lng2 lat2))\<rparr>"

end
