(* ===== verification/PathText.thy ===== *)
theory PathText
  imports RoadTables
begin

section \<open>The edges of a path are read back from their text\<close>

subsection \<open>Objects of numbers\<close>

lemma next_token_space: "json_space c \<Longrightarrow> next_token (c # s) = next_token s"
  by (simp add: next_token_def)

lemma json_space_blank [simp]: "json_space CHR '' ''" "json_space CHR 0x0A"
  by code_simp+

lemma next_token_name: "plain_name k \<Longrightarrow> next_token (CHR 0x22 # k @ CHR 0x22 # s) = Some (Scalar (JStr k), s)"
  by (rule next_token_string) (auto simp: plain_name_def in_range_def elim!: list.pred_mono_strong)

lemma run_member:
  assumes "plain_name k" "is_number t" "r = [] \<or> \<not> is_digit (hd r) \<and> hd r \<noteq> CHR ''e'' \<and> hd r \<noteq> CHR ''E'' \<and> hd r \<noteq> CHR ''.''"
    "m = WantKey \<or> m = WantKeyOrClose"
  shows "json_run m (ObjFrame acc x # st) (json_member k t @ r) = json_run AfterValue (ObjFrame ((k, JNum t) # acc) [] # st) r"
proof -
  have "json_run m (ObjFrame acc x # st) (CHR 0x22 # k @ CHR 0x22 # CHR '' '' # CHR '':'' # CHR '' '' # t @ r) =
      json_run WantColon (ObjFrame acc k # st) (CHR '' '' # CHR '':'' # CHR '' '' # t @ r)"
    by (rule json_run_cont(1) [OF next_token_name [OF assms(1)]]) (use assms(4) in \<open>auto simp: begin_key_def\<close>)
  also have "\<dots> = json_run WantValue (ObjFrame acc k # st) (CHR '' '' # t @ r)"
    by (rule json_run_cont(1) [where t = Colon]) (simp_all add: next_token_space next_token_punctuation)
  also have "\<dots> = json_run AfterValue (ObjFrame ((k, JNum t) # acc) [] # st) r"
    by (rule json_run_cont(1) [where t = "Scalar (JNum t)"])
      (simp_all add: next_token_space next_token_numeral [OF assms(2,3)] begin_value_def)
  finally show ?thesis by (simp add: json_member_def)
qed

definition numbers :: "(string \<times> string) list \<Rightarrow> (string \<times> json) list" where
  "numbers = map (\<lambda>(k, t). (k, JNum t))"

lemma run_members:
  assumes "kvs \<noteq> []" "\<forall>(k, t)\<in>set kvs. plain_name k \<and> is_number t" "m = WantKey \<or> m = WantKeyOrClose"
  shows "json_run m (ObjFrame acc x # st) (join_texts '', '' (map (\<lambda>(k, t). json_member k t) kvs) @ CHR 0x7D # r) =
    json_run AfterValue (ObjFrame (rev (numbers kvs) @ acc) [] # st) (CHR 0x7D # r)"
  using assms
proof (induction kvs arbitrary: m acc x rule: induct_list012)
  case (2 kt)
  obtain k t where "kt = (k, t)" by (cases kt)
  then show ?case using 2 by (auto simp: numbers_def run_member is_digit_def)
next
  case (3 kt kt' kvs)
  obtain k t where kt: "kt = (k, t)" by (cases kt)
  define rest where "rest = join_texts '', '' (map (\<lambda>(k, t). json_member k t) (kt' # kvs)) @ CHR 0x7D # r"
  have "json_run m (ObjFrame acc x # st) (json_member k t @ CHR '','' # CHR '' '' # rest) =
      json_run AfterValue (ObjFrame ((k, JNum t) # acc) [] # st) (CHR '','' # CHR '' '' # rest)"
    using 3(4,5) kt by (intro run_member) (auto simp: is_digit_def)
  also have "\<dots> = json_run WantKey (ObjFrame ((k, JNum t) # acc) [] # st) (CHR '' '' # rest)"
    by (rule json_run_cont(1) [where t = Comma]) (simp_all add: next_token_punctuation)
  also have "\<dots> = json_run WantKey (ObjFrame ((k, JNum t) # acc) [] # st) rest"
    by (subst (1 2) json_run.simps) (simp add: next_token_space)
  also have "\<dots> = json_run AfterValue (ObjFrame (rev (numbers (kt' # kvs)) @ (k, JNum t) # acc) [] # st) (CHR 0x7D # r)"
    unfolding rest_def by (rule 3(2)) (use 3(4) in auto)
  finally show ?case by (simp add: kt rest_def numbers_def)
qed simp

lemma run_object:
  assumes "kvs \<noteq> []" "\<forall>(k, t)\<in>set kvs. plain_name k \<and> is_number t" "m = WantValue \<or> m = WantValueOrClose"
  shows "json_run m [ArrFrame vs] (json_object kvs @ r) = json_run AfterValue [ArrFrame (JObj (numbers kvs) # vs)] r"
proof -
  have "json_run m [ArrFrame vs] (json_object kvs @ r) =
      json_run WantKeyOrClose [ObjFrame [] [], ArrFrame vs] (join_texts '', '' (map (\<lambda>(k, t). json_member k t) kvs) @ CHR 0x7D # r)"
    by (rule json_run_cont(1) [where t = LBrace])
      (use assms(3) in \<open>auto simp: json_object_def next_token_punctuation begin_value_def push_def maxNestingDepth_def\<close>)
  also have "\<dots> = json_run AfterValue [ObjFrame (rev (numbers kvs)) [], ArrFrame vs] (CHR 0x7D # r)"
    using run_members [OF assms(1,2), of WantKeyOrClose "[]" "[]" "[ArrFrame vs]" r] by simp
  also have "\<dots> = json_run AfterValue [ArrFrame (JObj (numbers kvs) # vs)] r"
    by (rule json_run_cont(1) [where t = RBrace]) (simp_all add: next_token_punctuation end_frame_def)
  finally show ?thesis .
qed

lemma run_objects:
  assumes "os \<noteq> []" "\<forall>kvs\<in>set os. kvs \<noteq> [] \<and> (\<forall>(k, t)\<in>set kvs. plain_name k \<and> is_number t)" "m = WantValue \<or> m = WantValueOrClose"
  shows "json_run m [ArrFrame vs] (join_texts [CHR '','', CHR '' '', CHR 0x0A, CHR '' ''] (map json_object os) @ CHR 0x5D # r) =
    json_run AfterValue [ArrFrame (rev (map (\<lambda>kvs. JObj (numbers kvs)) os) @ vs)] (CHR 0x5D # r)"
  using assms
proof (induction os arbitrary: m vs rule: induct_list012)
  case (2 kvs)
  then show ?case by (simp add: run_object)
next
  case (3 kvs kvs' os)
  define rest where "rest = join_texts [CHR '','', CHR '' '', CHR 0x0A, CHR '' ''] (map json_object (kvs' # os)) @ CHR 0x5D # r"
  have "json_run m [ArrFrame vs] (json_object kvs @ CHR '','' # CHR '' '' # CHR 0x0A # CHR '' '' # rest) =
      json_run AfterValue [ArrFrame (JObj (numbers kvs) # vs)] (CHR '','' # CHR '' '' # CHR 0x0A # CHR '' '' # rest)"
    using 3(4,5) by (intro run_object) auto
  also have "\<dots> = json_run WantValue [ArrFrame (JObj (numbers kvs) # vs)] (CHR '' '' # CHR 0x0A # CHR '' '' # rest)"
    by (rule json_run_cont(1) [where t = Comma]) (simp_all add: next_token_punctuation)
  also have "\<dots> = json_run WantValue [ArrFrame (JObj (numbers kvs) # vs)] rest"
    by (subst (1 2) json_run.simps) (simp add: next_token_space)
  also have "\<dots> = json_run AfterValue [ArrFrame (rev (map (\<lambda>kvs. JObj (numbers kvs)) (kvs' # os)) @ JObj (numbers kvs) # vs)] (CHR 0x5D # r)"
    unfolding rest_def by (rule 3(2)) (use 3(4) in auto)
  finally show ?case by (simp add: rest_def)
qed simp

lemma parse_array:
  assumes "\<forall>kvs\<in>set os. kvs \<noteq> [] \<and> (\<forall>(k, t)\<in>set kvs. plain_name k \<and> is_number t)"
  shows "json_parse (json_array (map json_object os)) = Some (JArr (map (\<lambda>kvs. JObj (numbers kvs)) os))"
proof -
  have "json_run WantValue [] (json_array (map json_object os)) =
      json_run WantValueOrClose [ArrFrame []] (join_texts [CHR '','', CHR '' '', CHR 0x0A, CHR '' ''] (map json_object os) @ [CHR 0x5D])"
    by (rule json_run_cont(1) [where t = LBracket])
      (simp_all add: json_array_def next_token_punctuation begin_value_def push_def maxNestingDepth_def)
  also have "\<dots> = Some (JArr (map (\<lambda>kvs. JObj (numbers kvs)) os), [])"
  proof (cases "os = []")
    case True
    then show ?thesis
      by (simp, intro json_run_cont(2) [where t = RBracket]) (simp_all add: next_token_punctuation end_frame_def)
  next
    case False
    have "json_run AfterValue [ArrFrame (rev (map (\<lambda>kvs. JObj (numbers kvs)) os) @ [])] [CHR 0x5D] = Some (JArr (map (\<lambda>kvs. JObj (numbers kvs)) os), [])"
      by (rule json_run_cont(2) [where t = RBracket]) (simp_all add: next_token_punctuation end_frame_def rev_map)
    then show ?thesis using run_objects [OF False assms, of WantValueOrClose "[]" "[]"] by simp
  qed
  finally show ?thesis by (simp add: json_parse_def)
qed

subsection \<open>Edges\<close>

text \<open>The text of a finite float is a number of JSON that is read back as it, as PostgreSQL documents.\<close>

definition float_text_law :: "(f64 \<Rightarrow> string) \<Rightarrow> bool" where
  "float_text_law float8out \<longleftrightarrow> (\<forall>x. is_fin x \<longrightarrow> is_number (float8out x) \<and> ParseFloat (float8out x) = Some x)"

definition finite_edge :: "PathEdge \<Rightarrow> bool" where
  "finite_edge e \<longleftrightarrow> is_fin (pe_LengthMeters e) \<and> is_fin (pe_DurationSeconds e) \<and> is_fin (pe_RiskScore e) \<and> is_fin (pe_PointLat e) \<and> is_fin (pe_PointLng e)"

lemma edge_members_ok:
  assumes "float_text_law f" "finite_edge e"
  shows "edge_members f e \<noteq> []" "\<forall>(k, t)\<in>set (edge_members f e). plain_name k \<and> is_number t"
  using assms unfolding edge_members_def by (simp, simp add: is_number_fmt_d float_text_law_def finite_edge_def plain_name_def in_range_def)

lemma store_edge_members:
  assumes "float_text_law f" "finite_edge e"
  shows "store_edge (JObj (numbers (edge_members f e))) zero_edge = Some e"
proof -
  have num: "ParseFloat (f (pe_LengthMeters e)) = Some (pe_LengthMeters e)" "ParseFloat (f (pe_DurationSeconds e)) = Some (pe_DurationSeconds e)"
    "ParseFloat (f (pe_RiskScore e)) = Some (pe_RiskScore e)" "ParseFloat (f (pe_PointLat e)) = Some (pe_PointLat e)"
    "ParseFloat (f (pe_PointLng e)) = Some (pe_PointLng e)"
    using assms by (simp_all add: float_text_law_def finite_edge_def)
  note step = trans [OF store_next]
  have "plain_name ''edge_id'' \<and> plain_name ''length_meters'' \<and> plain_name ''duration_seconds'' \<and> plain_name ''risk_score'' \<and>
      plain_name ''crime_count'' \<and> plain_name ''robbery_count'' \<and> plain_name ''theft_count'' \<and> plain_name ''threats_count'' \<and>
      plain_name ''armed_count'' \<and> plain_name ''motorcycle_count'' \<and> plain_name ''same_bucket_crime_count'' \<and>
      plain_name ''point_lng'' \<and> plain_name ''point_lat''"
    by (simp add: plain_name_def in_range_def)
  then show ?thesis
    unfolding numbers_def edge_members_def list.map prod.case store_edge_def
    by (simp add: store_next store_nil store_float_def store_int64_def num Atoi_fmt_d zero_edge_def)
qed

lemma unmarshal_edges_json:
  assumes "float_text_law f" "\<forall>e\<in>set es. finite_edge e"
  shows "unmarshal_edges path_json (edges_json f es) = Inr es"
proof -
  have "json_parse (edges_json f es) = Some (JArr (map (\<lambda>e. JObj (numbers (edge_members f e))) es))"
    using parse_array [of "map (edge_members f) es"] edge_members_ok [OF assms(1)] assms(2)
    by (fastforce simp: edges_json_def comp_def)
  moreover have "those (map (\<lambda>(i, v). store_edge v zero_edge) (enumerate n (map (\<lambda>e. JObj (numbers (edge_members f e))) es))) = Some es" for n
    using assms(2) by (induction es arbitrary: n) (simp_all add: store_edge_members [OF assms(1)])
  ultimately show ?thesis
    by (simp add: path_json_def or_syntax_error_def Unmarshal_def store_list_def)
qed

end
