(* ===== verification/RouteOptimality.thy ===== *)
theory RouteOptimality
  imports PathText SafeRoutesProperties
begin

section \<open>The routes served are cheapest walks\<close>

subsection \<open>Walks\<close>

text \<open>A walk over edges that may be used in both directions; an edge of negative cost is not part of the graph.\<close>

fun walk :: "cost_row list \<Rightarrow> i64 \<Rightarrow> i64 list \<Rightarrow> i64 \<Rightarrow> bool" where
  "walk rows u [] v \<longleftrightarrow> u = v"
| "walk rows u (e # es) v \<longleftrightarrow>
     (\<exists>(i, s, t, c)\<in>set rows. i = e \<and> 0 \<le> c \<and> (s = u \<and> walk rows t es v \<or> t = u \<and> walk rows s es v))"

definition rat_of :: "f64 \<Rightarrow> rat" where
  "rat_of x = (case x of Fin q \<Rightarrow> q | _ \<Rightarrow> 0)"

definition edge_cost :: "cost_row list \<Rightarrow> i64 \<Rightarrow> rat" where
  "edge_cost rows e = (case find (\<lambda>(i, s, t, c). i = e) rows of None \<Rightarrow> 0 | Some (i, s, t, c) \<Rightarrow> rat_of c)"

definition walk_cost :: "cost_row list \<Rightarrow> i64 list \<Rightarrow> rat" where
  "walk_cost rows es = (\<Sum>e\<leftarrow>es. edge_cost rows e)"

definition cheapest :: "cost_row list \<Rightarrow> i64 \<Rightarrow> i64 list \<Rightarrow> i64 \<Rightarrow> bool" where
  "cheapest rows u es v \<longleftrightarrow> walk rows u es v \<and> (\<forall>es'. walk rows u es' v \<longrightarrow> walk_cost rows es \<le> walk_cost rows es')"

text \<open>What pgRouting documents of \<open>pgr_dijkstra\<close>: the edges of a shortest path; nothing for equal ends and for unconnected ones.\<close>

definition dijkstra_law :: "pgrouting \<Rightarrow> cost_row list \<Rightarrow> bool" where
  "dijkstra_law pgr rows \<longleftrightarrow>
     (\<forall>u v. if u = v \<or> (\<forall>es. \<not> walk rows u es v) then pgr_dijkstra pgr rows u v = [] else cheapest rows u (pgr_dijkstra pgr rows u v) v)"

definition answers_shortest :: "pgrouting \<Rightarrow> 'g road_tables \<Rightarrow> bool" where
  "answers_shortest pgr tb \<longleftrightarrow> (\<forall>inner rows. cost_rows tb inner = Some rows \<longrightarrow> dijkstra_law pgr rows)"

definition finite_tables :: "'g geometry \<Rightarrow> 'g road_tables \<Rightarrow> bool" where
  "finite_tables g tb \<longleftrightarrow>
     (\<forall>e\<in>set (road_edges tb). is_fin (ed_Length e) \<and> is_fin (ed_Duration e) \<and> is_fin (midpoint_x g (ed_Geom e)) \<and> is_fin (midpoint_y g (ed_Geom e))) \<and>
     (\<forall>r\<in>set (edge_risk_scores tb). is_fin (sc_Risk r))"

subsection \<open>From the tables to a path\<close>

lemma cost_rows_edges:
  assumes "cost_rows tb inner = Some rows" "(i, s, t, c) \<in> set rows"
  shows "\<exists>e\<in>set (routable_road_edges tb). i = ed_ID e \<and> s = ed_From e \<and> t = ed_To e"
proof (cases inner)
  case DistanceCostInner
  then show ?thesis using assms by auto
next
  case (RiskCostInner mult model bucket weekday)
  have "those (map (\<lambda>e. map_option (f e) (h e)) xs) = Some rows \<Longrightarrow> y \<in> set rows \<Longrightarrow> \<exists>e\<in>set xs. \<exists>c. y = f e c"
    for f :: "'a road_edge \<Rightarrow> f64 \<Rightarrow> cost_row" and h xs y rows
    by (induction xs arbitrary: rows) (auto split: option.splits)
  from this [of "\<lambda>e c. (ed_ID e, ed_From e, ed_To e, c)"] show ?thesis
    using assms RiskCostInner by (fastforce split: if_splits)
qed

lemma walk_edges:
  assumes "cost_rows tb inner = Some rows" "walk rows u es v"
  shows "\<forall>e\<in>set es. edge_of tb e \<noteq> None"
  using assms(2)
proof (induction es arbitrary: u)
  case (Cons e es)
  then obtain s t c where row: "(e, s, t, c) \<in> set rows" and rest: "\<exists>w. walk rows w es v" by auto
  obtain x where "x \<in> set (road_edges tb)" "ed_ID x = e"
    using cost_rows_edges [OF assms(1) row] by (auto simp: routable_road_edges_def)
  then have "edge_of tb e \<noteq> None" by (auto simp: edge_of_def find_None_iff)
  then show ?case using Cons.IH rest by auto
qed simp

lemma edge_of_Some: "edge_of tb i = Some e \<Longrightarrow> e \<in> set (road_edges tb) \<and> ed_ID e = i"
  by (auto simp: edge_of_def find_Some_iff)

lemma path_edges_ids: "\<forall>e\<in>set es. edge_of tb e \<noteq> None \<Longrightarrow> map ed_ID (path_edges tb es) = es"
  by (induction es) (auto simp: path_edges_def List.map_filter_def dest: edge_of_Some)

lemma path_edges_in: "e \<in> set (path_edges tb es) \<Longrightarrow> e \<in> set (road_edges tb)"
  by (auto simp: path_edges_def List.map_filter_def dest: edge_of_Some)

lemma finite_enriched:
  assumes "finite_tables g tb" "e \<in> set (road_edges tb)"
  shows "finite_edge (enriched_edge g tb ctx e)"
proof -
  have "is_fin (score_of tb ctx (ed_ID e))"
    using assms(1) by (auto simp: score_of_def finite_tables_def find_Some_iff split: option.splits)
  then show ?thesis using assms by (auto simp: finite_edge_def enriched_edge_def Let_def finite_tables_def)
qed

lemma route_of_server:
  assumes "finite_tables g tb" "float_text_law f" "found (PostgresRepository (road_server g pgr f tb) path_json :: 's Repository) rq path"
  obtains rows es where "cost_rows tb (route_cost rq) = Some rows" "es = pgr_dijkstra pgr rows (rq_FromNodeID rq) (rq_ToNodeID rq)"
    "path_edges tb es \<noteq> []"
    "path_Edges path = map (enriched_edge g tb (rq_ModelVersionID rq, rq_TimeBucket rq, rq_WeekdayType rq)) (path_edges tb es)"
proof -
  define ctx where "ctx = (rq_ModelVersionID rq, rq_TimeBucket rq, rq_WeekdayType rq)"
  obtain s s' :: 's where "pg_FindRoute (road_server g pgr f tb) path_json rq s = (Inr path, s')"
    using assms(3) by (auto simp: found_def PostgresRepository_def)
  then obtain rows where rows: "cost_rows tb (route_cost rq) = Some rows"
    and dec: "let es = pgr_dijkstra pgr rows (rq_FromNodeID rq) (rq_ToNodeID rq) in path_edges tb es \<noteq> [] \<and>
      decodeRoutePath path_json (merged_geojson g (map ed_Geom (path_edges tb es)))
        (edges_json f (map (enriched_edge g tb ctx) (path_edges tb es))) = Inr path"
    by (auto simp: pg_FindRoute_def road_server_def routeQuery_def path_row_def Let_def ctx_def split: option.splits if_splits)
  define es where "es = pgr_dijkstra pgr rows (rq_FromNodeID rq) (rq_ToNodeID rq)"
  have "\<forall>e\<in>set (map (enriched_edge g tb ctx) (path_edges tb es)). finite_edge e"
    using finite_enriched [OF assms(1) path_edges_in] by auto
  from unmarshal_edges_json [OF assms(2) this]
  have "path_Edges path = map (enriched_edge g tb ctx) (path_edges tb es)"
    using dec by (auto simp: decodeRoutePath_def es_def Let_def split: sum.splits if_splits)
  then show thesis using that [OF rows es_def] dec by (simp add: ctx_def es_def Let_def)
qed

text \<open>The profiles are the rows of their table.\<close>

lemma profiles_of_server:
  assumes "repo_RouteProfiles (PostgresRepository (road_server g pgr f tb) path_json :: 's Repository) s1 = (Inr profiles, s2)"
    "profiles k = Some p"
  shows "\<exists>r\<in>set (route_profiles tb). pr_Name r = k \<and> p = \<lparr>rp_Name = k, rp_SafetyMultiplier = pr_Multiplier r, rp_MaxDetourRatio = pr_Detour r\<rparr>"
proof -
  let ?step = "\<lambda>(name, mult, detour) ps. ps(name \<mapsto> \<lparr>rp_Name = name, rp_SafetyMultiplier = mult, rp_MaxDetourRatio = detour\<rparr>)"
  have "fold ?step (map (\<lambda>r. (pr_Name r, pr_Multiplier r, pr_Detour r)) rs) acc k = Some p \<Longrightarrow>
      acc k = Some p \<or> (\<exists>r\<in>set rs. pr_Name r = k \<and> p = \<lparr>rp_Name = k, rp_SafetyMultiplier = pr_Multiplier r, rp_MaxDetourRatio = pr_Detour r\<rparr>)"
    for rs and acc :: "string \<rightharpoonup> RouteProfile"
    by (induction rs arbitrary: acc) (fastforce split: if_splits)+
  moreover have "profiles = fold ?step (map (\<lambda>r. (pr_Name r, pr_Multiplier r, pr_Detour r)) (route_profiles tb)) Map.empty"
  proof -
    have step: "(\<lambda>(name, mult, detour) ps. Inr (ps(name \<mapsto> \<lparr>rp_Name = name, rp_SafetyMultiplier = mult, rp_MaxDetourRatio = detour\<rparr>))) =
        (\<lambda>r ps. Inr (?step r ps))" by (auto simp: fun_eq_iff)
    show ?thesis using assms(1) unfolding PostgresRepository_def Repository.select_convs pg_RouteProfiles_def step read_rows_all
      by (simp add: road_server_def read_rows_all)
  qed
  ultimately show ?thesis using assms(2) by fastforce
qed

lemma snap_of_server:
  assumes "repo_SnapEndpoints (PostgresRepository (road_server g pgr f tb) path_json :: 's Repository) q s1 = (Inr snap, s2)"
  shows "snap_end g tb (OriginLng q) (OriginLat q) = Some (sn_OriginNodeID snap, sn_OriginDistance snap) \<and>
    snap_end g tb (DestLng q) (DestLat q) = Some (sn_DestNodeID snap, sn_DestDistance snap)"
  using assms by (auto simp: PostgresRepository_def pg_SnapEndpoints_def road_server_def snapQuery_def Let_def split: option.splits)

subsection \<open>What a response shows\<close>

text \<open>The costs a profile puts on the edges in a context: their lengths, inflated by the risk for a positive multiplier.\<close>

definition profile_costs :: "'g road_tables \<Rightarrow> risk_context \<Rightarrow> f64 \<Rightarrow> cost_row list option" where
  "profile_costs tb ctx mult = cost_rows tb
     (if 0 < mult then RiskCostInner mult (fst ctx) (fst (snd ctx)) (snd (snd ctx)) else DistanceCostInner)"

lemma profile_cheapest:
  assumes "finite_tables g tb" "float_text_law float8out" "answers_shortest pgr tb"
    and "\<exists>s1 s2. repo_RouteProfiles (PostgresRepository (road_server g pgr float8out tb) path_json) s1 = (Inr profiles, s2)"
    and p: "profiles k = Some p"
    and f: "found (PostgresRepository (road_server g pgr float8out tb) path_json) (profile_request profiles (base_request snap m b w) k) path"
  shows "\<exists>r\<in>set (route_profiles tb). \<exists>rows es. pr_Name r = k \<and> profile_costs tb (mv_ID m, b, w) (pr_Multiplier r) = Some rows \<and>
    es \<noteq> [] \<and> cheapest rows (sn_OriginNodeID snap) es (sn_DestNodeID snap) \<and> map ed_ID (path_edges tb es) = es \<and>
    path_Edges path = map (enriched_edge g tb (mv_ID m, b, w)) (path_edges tb es)"
proof -
  let ?rq = "profile_request profiles (base_request snap m b w) k"
  obtain r where r: "r \<in> set (route_profiles tb)" "pr_Name r = k" "rp_SafetyMultiplier p = pr_Multiplier r"
    using assms(4) profiles_of_server [where k = k and p = p] p by force
  obtain rows es where rows: "cost_rows tb (route_cost ?rq) = Some rows" and es: "es = pgr_dijkstra pgr rows (rq_FromNodeID ?rq) (rq_ToNodeID ?rq)"
    and ne: "path_edges tb es \<noteq> []"
    and path: "path_Edges path = map (enriched_edge g tb (rq_ModelVersionID ?rq, rq_TimeBucket ?rq, rq_WeekdayType ?rq)) (path_edges tb es)"
    by (rule route_of_server [OF assms(1,2) f])
  have costs: "profile_costs tb (mv_ID m, b, w) (pr_Multiplier r) = Some rows"
    using rows by (simp add: profile_costs_def route_cost_def profile_request_def base_request_def p r(3) del: cost_rows.simps cong: if_cong)
  have "es \<noteq> []" using ne by (auto simp: path_edges_def)
  then have best: "cheapest rows (sn_OriginNodeID snap) es (sn_DestNodeID snap)"
    using assms(3) [unfolded answers_shortest_def, rule_format, OF rows] es unfolding dijkstra_law_def by (auto simp: profile_request_def base_request_def split: if_splits)
  then have ids: "map ed_ID (path_edges tb es) = es"
    by (intro path_edges_ids walk_edges [OF rows]) (auto simp: cheapest_def)
  from path have "path_Edges path = map (enriched_edge g tb (mv_ID m, b, w)) (path_edges tb es)"
    by (simp add: profile_request_def base_request_def)
  then show ?thesis using r(1,2) costs \<open>es \<noteq> []\<close> best ids by blast
qed

text \<open>C2. The routes \<open>fastest\<close>, \<open>balanced\<close> and \<open>safest\<close> of a response that is not from the cache are what their profiles mean: each shows,
  segment by segment, the edges of a cheapest walk of the routable graph between the nodes at which the
  request enters it, at most 150 meters away, where the cost of an edge is its length, inflated by the profile's
  multiplier times its risk in the context of the request under the active model.\<close>

theorem routes_cheapest:
  fixes s :: 's
  assumes "SafeRoutes (PostgresRepository (road_server g pgr float8out tb) path_json) cache now zone q s = (Inr resp, s')"
    and "\<not> rr_FromCache resp"
    and "finite_tables g tb" "float_text_law float8out" "answers_shortest pgr tb"
  shows "\<exists>src dst d1 d2. snap_end g tb (OriginLng q) (OriginLat q) = Some (src, d1) \<and> \<not> f64_of_rat 150 < d1 \<and>
    snap_end g tb (DestLng q) (DestLat q) = Some (dst, d2) \<and> \<not> f64_of_rat 150 < d2 \<and>
    (\<forall>(i, k)\<in>set (enumerate 0 profile_names).
       \<exists>r\<in>set (route_profiles tb). \<exists>rows es. pr_Name r = k \<and>
         profile_costs tb (mi_ID (rr_ModelVersion resp), rr_TimeBucket resp, rr_WeekdayType resp) (pr_Multiplier r) = Some rows \<and>
         es \<noteq> [] \<and> cheapest rows src es dst \<and> map ed_ID (path_edges tb es) = es \<and>
         Segments (rr_Routes resp ! i) = map (route_segment \<circ> enriched_edge g tb
           (mi_ID (rr_ModelVersion resp), rr_TimeBucket resp, rr_WeekdayType resp)) (path_edges tb es))"
proof -
  let ?repo = "PostgresRepository (road_server g pgr float8out tb) path_json :: 's Repository"
  obtain m profiles snap paths tods extra where
    m: "mv_ID m = mi_ID (rr_ModelVersion resp)" and ps: "\<exists>s1 s2. repo_RouteProfiles ?repo s1 = (Inr profiles, s2)"
    and snap: "\<exists>s1 s2. repo_SnapEndpoints ?repo q s1 = (Inr snap, s2)"
      "\<not> f64_of_rat 150 < sn_OriginDistance snap" "\<not> f64_of_rat 150 < sn_DestDistance snap"
    and found: "\<forall>k \<in> set profile_names. profiles k \<noteq> None \<and>
       found ?repo (profile_request profiles (base_request snap m (rr_TimeBucket resp) (rr_WeekdayType resp)) k) (paths k)"
    and routes: "rr_Routes resp = map (\<lambda>k. shown k (paths k) m (aggregateRoute ''fastest'' (paths ''fastest'') m) (tods k)) profile_names @ extra"
    by (rule fresh_routes [OF assms(1,2)])
  define ctx where "ctx = (mi_ID (rr_ModelVersion resp), rr_TimeBucket resp, rr_WeekdayType resp)"
  have each: "\<exists>r\<in>set (route_profiles tb). \<exists>rows es. pr_Name r = k \<and> profile_costs tb ctx (pr_Multiplier r) = Some rows \<and>
      es \<noteq> [] \<and> cheapest rows (sn_OriginNodeID snap) es (sn_DestNodeID snap) \<and> map ed_ID (path_edges tb es) = es \<and>
      path_Edges (paths k) = map (enriched_edge g tb ctx) (path_edges tb es)" if k: "k \<in> set profile_names" for k
  proof -
    obtain p where "profiles k = Some p"
      "found ?repo (profile_request profiles (base_request snap m (rr_TimeBucket resp) (rr_WeekdayType resp)) k) (paths k)"
      using found k by blast
    then show ?thesis unfolding ctx_def m [symmetric] by (rule profile_cheapest [OF assms(3-5) ps])
  qed
  have nth: "rr_Routes resp ! i = shown k (paths k) m (aggregateRoute ''fastest'' (paths ''fastest'') m) (tods k) \<and> k \<in> set profile_names"
    if "(i, k) \<in> set (enumerate 0 profile_names)" for i k
    using that routes by (auto simp: in_set_enumerate_eq nth_append)
  have segs: "Segments (shown k p m f tod) = map route_segment (path_Edges p)" for k p f tod
    by (simp add: shown_def setComparisons_def aggregateRoute_scores)
  have "\<forall>(i, k)\<in>set (enumerate 0 profile_names).
       \<exists>r\<in>set (route_profiles tb). \<exists>rows es. pr_Name r = k \<and> profile_costs tb ctx (pr_Multiplier r) = Some rows \<and>
         es \<noteq> [] \<and> cheapest rows (sn_OriginNodeID snap) es (sn_DestNodeID snap) \<and> map ed_ID (path_edges tb es) = es \<and>
         Segments (rr_Routes resp ! i) = map (route_segment \<circ> enriched_edge g tb ctx) (path_edges tb es)"
    using each nth by (fastforce simp: segs)
  moreover obtain s1 s2 where "repo_SnapEndpoints ?repo q s1 = (Inr snap, s2)" using snap(1) by blast
  note snap_of_server [OF this]
  ultimately show ?thesis unfolding ctx_def using snap(2,3)
    by (intro exI [of _ "sn_OriginNodeID snap"] exI [of _ "sn_DestNodeID snap"] exI [of _ "sn_OriginDistance snap"]
        exI [of _ "sn_DestDistance snap"] conjI) (assumption | erule conjunct1 conjunct2)+
qed

end
