(* ===== verification/RouteExample.thy ===== *)
theory RouteExample
  imports RouteOptimality
begin

section \<open>A graph of two streets\<close>

text \<open>
  Two streets join the nodes 1 and 2: street 10 is short and risky, street 20 is long and safe. The
  fastest and the balanced profile take the short one, the safest profile the long one.
\<close>

definition two_nodes :: "bool geometry" where
  "two_nodes = \<lparr>knn_distance = (\<lambda>_ _ _. 0), geography_distance = (\<lambda>far lng lat. if far = (lat = Fin (- 277 / 8)) then 0 else Fin 100),
     planar_distance = (\<lambda>_ _ _. 0), merged_geojson = (\<lambda>_. ''{\"type\":\"LineString\",\"coordinates\":[]}''),
     point_x = (\<lambda>_. 0), point_y = (\<lambda>far. if far then 1 else 0), midpoint_x = (\<lambda>_. 0), midpoint_y = (\<lambda>_. 0)\<rparr>"

definition short_street :: "bool road_edge" where
  "short_street = \<lparr>ed_ID = 10, ed_From = 1, ed_To = 2, ed_Length = Fin 100, ed_Duration = Fin 80, ed_Walkable = True, ed_Routable = True, ed_Geom = False\<rparr>"

definition long_street :: "bool road_edge" where
  "long_street = \<lparr>ed_ID = 20, ed_From = 1, ed_To = 2, ed_Length = Fin 300, ed_Duration = Fin 240, ed_Walkable = True, ed_Routable = True, ed_Geom = False\<rparr>"

definition two_streets :: "bool road_tables" where
  "two_streets = \<lparr>road_nodes = [\<lparr>nd_ID = 1, nd_Geom = False\<rparr>, \<lparr>nd_ID = 2, nd_Geom = True\<rparr>], road_edges = [short_street, long_street],
     edge_risk_scores = [\<lparr>sc_Edge = 10, sc_Context = (7, hourToTimeBucket (Hour example_time), dateToWeekdayType example_time), sc_Risk = Fin (3 / 4)\<rparr>],
     edge_risk_score_components = [],
     risk_model_versions = [\<lparr>mr_ID = 7, mr_Name = ''kde'', mr_Type = ''network'', mr_TrainUntil = None, mr_LowMax = None, mr_ModerateMax = None, mr_IsActive = True\<rparr>],
     route_profiles = [\<lparr>pr_Name = ''fastest'', pr_Multiplier = 0, pr_Detour = 1\<rparr>, \<lparr>pr_Name = ''balanced'', pr_Multiplier = Fin 2, pr_Detour = 1\<rparr>,
       \<lparr>pr_Name = ''safest'', pr_Multiplier = Fin 6, pr_Detour = 1\<rparr>]\<rparr>"

text \<open>The cheapest single edge, which in this graph is a shortest path.\<close>

definition cheaper :: "cost_row \<Rightarrow> cost_row \<Rightarrow> cost_row" where
  "cheaper r r' = (if rat_of (snd (snd (snd r'))) < rat_of (snd (snd (snd r))) then r' else r)"

fun single_edge :: "cost_row list \<Rightarrow> i64 \<Rightarrow> i64 \<Rightarrow> i64 list" where
  "single_edge rows u v =
     (case filter (\<lambda>(i, s, t, c). 0 \<le> c \<and> (s = u \<and> t = v \<or> s = v \<and> t = u)) rows of
        [] \<Rightarrow> []
      | r # rs \<Rightarrow> if u = v then [] else [fst (foldl cheaper r rs)])"

definition toy_routing :: pgrouting where
  "toy_routing = \<lparr>pgr_dijkstra = single_edge, pgr_ksp = (\<lambda>rows u v k. [])\<rparr>"

definition go_float_text :: "f64 \<Rightarrow> string" where "go_float_text x = the (json_float x)"

lemma go_float_text_law: "float_text_law go_float_text"
  unfolding float_text_law_def
proof (intro allI impI)
  fix x assume "is_fin x"
  then obtain t neg a b y where "json_float x = Some t" "t = number_text neg a b y" "number_parts a b" "ParseFloat t = Some x"
    by (rule json_float_reads)
  then show "is_number (go_float_text x) \<and> ParseFloat (go_float_text x) = Some x" by (auto simp: go_float_text_def is_number_def)
qed

lemma walk_cost_nonneg: "distinct (map fst rows) \<Longrightarrow> walk rows u es v \<Longrightarrow> 0 \<le> walk_cost rows es"
proof (induction es arbitrary: u)
  case (Cons e es)
  then obtain s t c where row: "(e, s, t, c) \<in> set rows" "0 \<le> c" and rest: "\<exists>w. walk rows w es v" by auto
  have "find (\<lambda>(i, s, t, c). i = e) rows = Some (e, s, t, c)"
    using Cons.prems(1) row(1) by (induction rows) (force simp: image_iff split: if_splits)+
  moreover have "0 \<le> rat_of c" using row(2) by (cases c) (auto simp: rat_of_def)
  ultimately have "0 \<le> edge_cost rows e" by (simp add: edge_cost_def)
  then show ?case using Cons rest by (auto simp: walk_cost_def)
qed (simp add: walk_cost_def)

lemma two_edges_law: "dijkstra_law toy_routing [(10, 1, 2, c), (20, 1, 2, d)]"
proof -
  let ?rows = "[(10, 1, 2, c), (20, 1, 2, d)] :: cost_row list"
  have ends: "walk ?rows u es v \<Longrightarrow> u = v \<or> {u, v} = {1, 2}" for u es v
    by (induction es arbitrary: u) (auto, blast+)
  have first: "\<exists>i. {u, v} = {1, 2} \<and> (i = 10 \<and> 0 \<le> c \<and> rat_of c \<le> walk_cost ?rows es \<or> i = (20 :: i64) \<and> 0 \<le> d \<and> rat_of d \<le> walk_cost ?rows es)"
    if W: "walk ?rows u es v" and ne: "u \<noteq> v" for u es v
  proof -
    obtain e es' where es: "es = e # es'" using W ne by (cases es) auto
    then obtain w where "walk ?rows w es' v" using W by auto
    then have "0 \<le> walk_cost ?rows es'" by (intro walk_cost_nonneg) simp_all
    moreover have "{u, v} = {1, 2}" using ends [OF W] ne by blast
    ultimately show ?thesis using W unfolding es by (auto simp: walk_cost_def edge_cost_def)
  qed
  show ?thesis unfolding dijkstra_law_def
  proof (intro allI)
    fix u v
    have one: "walk ?rows u [10] v \<longleftrightarrow> 0 \<le> c \<and> (u = 1 \<and> v = 2 \<or> u = 2 \<and> v = 1)" "walk ?rows u [20] v \<longleftrightarrow> 0 \<le> d \<and> (u = 1 \<and> v = 2 \<or> u = 2 \<and> v = 1)"
      by auto
    have cost: "walk_cost ?rows [10] = rat_of c" "walk_cost ?rows [20] = rat_of d" by (simp_all add: walk_cost_def edge_cost_def)
    show "if u = v \<or> (\<forall>es. \<not> walk ?rows u es v) then pgr_dijkstra toy_routing ?rows u v = []
      else cheapest ?rows u (pgr_dijkstra toy_routing ?rows u v) v"
    proof (cases "u = v \<or> (\<forall>es. \<not> walk ?rows u es v)")
      case True
      then have "u = v \<or> \<not> walk ?rows u [10] v \<and> \<not> walk ?rows u [20] v" by blast
      then show ?thesis using True by (auto simp: toy_routing_def one)
    next
      case False
      then obtain es where "walk ?rows u es v" "u \<noteq> v" by blast
      from first [OF this] have uv: "u = 1 \<and> v = 2 \<or> u = 2 \<and> v = 1" and some: "0 \<le> c \<or> 0 \<le> d" by (auto simp: doubleton_eq_iff)
      define best where "best = (if \<not> 0 \<le> c then 20 else if \<not> 0 \<le> d then 10 else if rat_of d < rat_of c then 20 else 10 :: i64)"
      have "pgr_dijkstra toy_routing ?rows u v = [best]" using uv some by (auto simp: toy_routing_def cheaper_def best_def)
      moreover have "walk ?rows u [best] v" using uv some by (auto simp: best_def one)
      moreover have "walk_cost ?rows [best] \<le> walk_cost ?rows es'" if "walk ?rows u es' v" for es'
        using first [OF that \<open>u \<noteq> v\<close>] by (auto simp: best_def cost)
      ultimately show ?thesis using False by (simp add: cheapest_def)
    qed
  qed
qed

lemma finite_numbers: "is_fin (Fin 100)" "is_fin (Fin 80)" "is_fin (Fin 300)" "is_fin (Fin 240)" "is_fin (Fin (3 / 4))" "is_fin 0" "is_fin (Fin 2)" "is_fin (Fin 6)"
  by code_simp+

lemma two_streets_finite: "finite_tables two_nodes two_streets"
  by (simp add: finite_tables_def two_streets_def two_nodes_def short_street_def long_street_def finite_numbers)

lemma two_streets_rows:
  assumes "cost_rows two_streets inner = Some rows"
  shows "\<exists>c d. rows = [(10, 1, 2, c), (20, 1, 2, d)]"
  using assms by (cases inner)
    (auto simp: two_streets_def routable_road_edges_def short_street_def long_street_def split: if_splits option.splits)

lemma two_streets_law: "answers_shortest toy_routing two_streets"
  unfolding answers_shortest_def using two_streets_rows two_edges_law by metis

definition toy_context :: risk_context where
  "toy_context = (7, hourToTimeBucket (Hour example_time), dateToWeekdayType example_time)"

definition toy_server :: "'s routing_db" where
  "toy_server = road_server two_nodes toy_routing go_float_text two_streets"

lemma toy_costs:
  "cost_rows two_streets DistanceCostInner = Some [(10, 1, 2, Fin 100), (20, 1, 2, Fin 300)]"
  "cost_rows two_streets (RiskCostInner (Fin 2) 7 (fst (snd toy_context)) (snd (snd toy_context))) = Some [(10, 1, 2, Fin 250), (20, 1, 2, Fin 300)]"
  "cost_rows two_streets (RiskCostInner (Fin 6) 7 (fst (snd toy_context)) (snd (snd toy_context))) = Some [(10, 1, 2, Fin 550), (20, 1, 2, Fin 300)]"
proof -
  have "risk_cost (Fin 2) (Fin 100) (Fin (3 / 4)) = Some (Fin 250)" "risk_cost (Fin 6) (Fin 100) (Fin (3 / 4)) = Some (Fin 550)"
    "risk_cost (Fin 2) (Fin 300) 0 = Some (Fin 300)" "risk_cost (Fin 6) (Fin 300) 0 = Some (Fin 300)"
    by code_simp+
  then show "cost_rows two_streets DistanceCostInner = Some [(10, 1, 2, Fin 100), (20, 1, 2, Fin 300)]"
    "cost_rows two_streets (RiskCostInner (Fin 2) 7 (fst (snd toy_context)) (snd (snd toy_context))) = Some [(10, 1, 2, Fin 250), (20, 1, 2, Fin 300)]"
    "cost_rows two_streets (RiskCostInner (Fin 6) 7 (fst (snd toy_context)) (snd (snd toy_context))) = Some [(10, 1, 2, Fin 550), (20, 1, 2, Fin 300)]"
    by (simp_all add: two_streets_def routable_road_edges_def short_street_def long_street_def score_of_def toy_context_def finite_numbers)
qed

definition street_path :: "bool road_edge \<Rightarrow> RoutePath" where
  "street_path e = \<lparr>path_Edges = [enriched_edge two_nodes two_streets toy_context e], path_Geometry = \<lparr>ls_Type = ''LineString'', ls_Coordinates = []\<rparr>\<rparr>"

lemma toy_geometry: "unmarshal_geom path_json (merged_geojson two_nodes gs) = Inr \<lparr>ls_Type = ''LineString'', ls_Coordinates = []\<rparr>"
  unfolding two_nodes_def geometry.select_convs by code_simp

lemma toy_find_route:
  assumes "cost_rows two_streets (route_cost rq) = Some rows" "path_edges two_streets (single_edge rows (rq_FromNodeID rq) (rq_ToNodeID rq)) = [e]"
    "(rq_ModelVersionID rq, rq_TimeBucket rq, rq_WeekdayType rq) = toy_context"
  shows "pg_FindRoute toy_server path_json rq s = (Inr (street_path e), s)"
proof -
  have "e \<in> set (road_edges two_streets)" using path_edges_in [of e two_streets] assms(2) by (metis list.set_intros(1))
  then have "\<forall>x\<in>set [enriched_edge two_nodes two_streets toy_context e]. finite_edge x"
    using finite_enriched [OF two_streets_finite] by simp
  note edges = unmarshal_edges_json [OF go_float_text_law this]
  have "validateContext (rq_TimeBucket rq) (rq_WeekdayType rq) = (None :: saferoutes_error goerr option)"
    using assms(3) resolved_context_valid by (simp add: toy_context_def)
  then show ?thesis
    using assms edges
    by (simp add: pg_FindRoute_def toy_server_def road_server_def routeQuery_def toy_routing_def path_row_def Let_def decodeRoutePath_def
        toy_geometry street_path_def ret_def prog_run)
qed

definition toy_model :: ModelVersion where
  "toy_model = \<lparr>mv_ID = 7, mv_Name = ''kde'', mv_Type = ''network'', mv_TrainUntil = [], mv_LowMax = f64_of_rat (33 / 100), mv_ModerateMax = f64_of_rat (66 / 100)\<rparr>"

definition toy_profiles :: "string \<rightharpoonup> RouteProfile" where
  "toy_profiles = [''fastest'' \<mapsto> \<lparr>rp_Name = ''fastest'', rp_SafetyMultiplier = 0, rp_MaxDetourRatio = 1\<rparr>,
     ''balanced'' \<mapsto> \<lparr>rp_Name = ''balanced'', rp_SafetyMultiplier = Fin 2, rp_MaxDetourRatio = 1\<rparr>,
     ''safest'' \<mapsto> \<lparr>rp_Name = ''safest'', rp_SafetyMultiplier = Fin 6, rp_MaxDetourRatio = 1\<rparr>]"

definition toy_base :: RouteRequest where
  "toy_base = \<lparr>rq_FromNodeID = 1, rq_ToNodeID = 2, rq_ModelVersionID = 7, rq_TimeBucket = fst (snd toy_context),
     rq_WeekdayType = snd (snd toy_context), rq_SafetyMultiplier = 0\<rparr>"

abbreviation toy_repository :: "unit Repository" where
  "toy_repository \<equiv> PostgresRepository toy_server path_json"

lemma toy_positive: "\<not> 0 < (0 :: f64)" "(0 :: f64) < Fin 2" "(0 :: f64) < Fin 6"
  by code_simp+

lemma toy_paths:
  "repo_FindRoute toy_repository (profile_request toy_profiles toy_base ''fastest'') s = (Inr (street_path short_street), s)"
  "repo_FindRoute toy_repository (profile_request toy_profiles toy_base ''balanced'') s = (Inr (street_path short_street), s)"
  "repo_FindRoute toy_repository (profile_request toy_profiles toy_base ''safest'') s = (Inr (street_path long_street), s)"
proof -
  have at: "rat_of (Fin q) = q" for q by (simp add: rat_of_def)
  have one: "edge_of two_streets 10 = Some short_street" "edge_of two_streets 20 = Some long_street"
    by (simp_all add: edge_of_def two_streets_def short_street_def long_street_def)
  note rules = toy_positive profile_request_def toy_profiles_def toy_base_def route_cost_def
  have ctx: "(7, snd toy_context) = toy_context" by (simp add: toy_context_def)
  have "pg_FindRoute toy_server path_json (profile_request toy_profiles toy_base ''fastest'') s = (Inr (street_path short_street), s)"
    by (rule toy_find_route [where rows = "[(10, 1, 2, Fin 100), (20, 1, 2, Fin 300)]"])
      (simp_all add: rules toy_costs(1) ctx cheaper_def at path_edges_def List.map_filter_def one del: cost_rows.simps)
  moreover have "pg_FindRoute toy_server path_json (profile_request toy_profiles toy_base ''balanced'') s = (Inr (street_path short_street), s)"
    by (rule toy_find_route [where rows = "[(10, 1, 2, Fin 250), (20, 1, 2, Fin 300)]"])
      (simp_all add: rules toy_costs(2) ctx cheaper_def at path_edges_def List.map_filter_def one del: cost_rows.simps)
  moreover have "pg_FindRoute toy_server path_json (profile_request toy_profiles toy_base ''safest'') s = (Inr (street_path long_street), s)"
    by (rule toy_find_route [where rows = "[(10, 1, 2, Fin 550), (20, 1, 2, Fin 300)]"])
      (simp_all add: rules toy_costs(3) ctx cheaper_def at path_edges_def List.map_filter_def one del: cost_rows.simps)
  ultimately show "repo_FindRoute toy_repository (profile_request toy_profiles toy_base ''fastest'') s = (Inr (street_path short_street), s)"
    "repo_FindRoute toy_repository (profile_request toy_profiles toy_base ''balanced'') s = (Inr (street_path short_street), s)"
    "repo_FindRoute toy_repository (profile_request toy_profiles toy_base ''safest'') s = (Inr (street_path long_street), s)"
    by (simp_all add: PostgresRepository_def)
qed

lemma toy_compute:
  "\<exists>routes. compute_routes toy_repository example_query example_time toy_model () = (Inr routes, ())"
proof -
  have profiles: "repo_RouteProfiles toy_repository () = (Inr toy_profiles, ())"
  proof -
    have step: "(\<lambda>(name, mult, detour) ps. Inr (ps(name \<mapsto> \<lparr>rp_Name = name, rp_SafetyMultiplier = mult, rp_MaxDetourRatio = detour\<rparr>))) =
        (\<lambda>r ps. Inr ((\<lambda>(name, mult, detour) ps. ps(name \<mapsto> \<lparr>rp_Name = name, rp_SafetyMultiplier = mult, rp_MaxDetourRatio = detour\<rparr>)) r ps))"
      by (auto simp: fun_eq_iff)
    show ?thesis unfolding PostgresRepository_def Repository.select_convs pg_RouteProfiles_def step
      by (simp add: toy_server_def road_server_def read_rows_all two_streets_def toy_profiles_def)
  qed
  have snap: "repo_SnapEndpoints toy_repository example_query () =
      (Inr \<lparr>sn_OriginNodeID = 1, sn_OriginDistance = 0, sn_DestNodeID = 2, sn_DestDistance = 0\<rparr>, ())"
  proof -
    have "snapQuery two_nodes two_streets (Fin (- 117 / 2)) (Fin (- 69 / 2)) (Fin (- 117 / 2)) (Fin (- 277 / 8)) = (Some 1, Some 0, Some 2, Some 0)"
      by code_simp
    then show ?thesis
      by (simp add: PostgresRepository_def pg_SnapEndpoints_def toy_server_def road_server_def example_query_def prog_run)
  qed
  have base: "base_request \<lparr>sn_OriginNodeID = 1, sn_OriginDistance = 0, sn_DestNodeID = 2, sn_DestDistance = 0\<rparr> toy_model
      (hourToTimeBucket (Hour example_time)) (dateToWeekdayType example_time) = toy_base"
    by (simp add: base_request_def toy_model_def toy_base_def toy_context_def)
  have risk: "\<exists>rows. repo_RouteRiskByBucket toy_repository ids model weekday () = (Inr rows, ())" for ids model weekday
  proof -
    have step: "(\<lambda>(edge, bucket, risk) out. Inr (out @ [\<lparr>eb_EdgeID = edge, eb_TimeBucket = bucket, eb_RiskScore = risk\<rparr>])) =
        (\<lambda>r out. Inr (out @ [case r of (edge, bucket, risk) \<Rightarrow> \<lparr>eb_EdgeID = edge, eb_TimeBucket = bucket, eb_RiskScore = risk\<rparr>]))"
      by (auto simp: fun_eq_iff)
    show ?thesis unfolding PostgresRepository_def Repository.select_convs pg_RouteRiskByBucket_def step
      by (simp add: toy_server_def road_server_def read_rows_all)
  qed
  have tod: "\<exists>t. timeOfDayRisk toy_repository p toy_model weekday () = (Inr t, ())" for p weekday
  proof -
    obtain rows where "repo_RouteRiskByBucket toy_repository (map pe_EdgeID (path_Edges p)) (mv_ID toy_model) weekday () = (Inr rows, ())"
      using risk by blast
    then show ?thesis by (simp add: timeOfDayRisk_def prog_run)
  qed
  have ksp: "repo_FindCandidateRoutes toy_repository (candidate_request toy_base) () = (Inr [], ())"
  proof -
    have "validateContext (fst (snd toy_context)) (snd (snd toy_context)) = (None :: saferoutes_error goerr option)"
      using resolved_context_valid by (simp add: toy_context_def)
    then show ?thesis
      by (simp add: PostgresRepository_def pg_FindCandidateRoutes_def candidate_request_def toy_base_def toy_server_def road_server_def
          kspQuery_def toy_costs(1) toy_routing_def all_rows_def read_rows_def del: cost_rows.simps)
  qed
  obtain tf ts where T: "timeOfDayRisk toy_repository (street_path short_street) toy_model (rq_WeekdayType toy_base) () = (Inr tf, ())"
      "timeOfDayRisk toy_repository (street_path long_street) toy_model (rq_WeekdayType toy_base) () = (Inr ts, ())"
    using tod by metis
  have routes: "\<exists>f rs. profile_routes toy_repository toy_model toy_profiles toy_base profile_names zero_route [] () = (Inr (f, rs), ())"
    by (simp add: profile_names_def andThen_def ret_def toy_paths T Let_def)
  then obtain f rs where R: "profile_routes toy_repository toy_model toy_profiles toy_base profile_names zero_route [] () = (Inr (f, rs), ())" by blast
  have least: "leastSafeCandidate toy_repository toy_base f toy_model () = (Inr None, ())"
    by (simp add: leastSafeCandidate_def andThen_def ret_def ksp worst_candidate_def)
  have complete: "missing_profile toy_profiles = None"
    by (simp add: missing_profile_def profile_names_def toy_profiles_def)
  show ?thesis
    by (simp add: compute_routes_def andThen_def ret_def profiles complete snap snap_limits base R least)
qed

lemma toy_served:
  "\<exists>resp. SafeRoutes toy_repository NoopRouteCache (\<lambda>_. zero_time) (\<lambda>_. 0) example_query () = (Inr resp, ()) \<and> \<not> rr_FromCache resp \<and>
     (mi_ID (rr_ModelVersion resp), rr_TimeBucket resp, rr_WeekdayType resp) = toy_context"
proof -
  obtain routes where R: "compute_routes toy_repository example_query example_time toy_model () = (Inr routes, ())" using toy_compute by blast
  have model: "repo_ActiveModel toy_repository () = (Inr toy_model, ())"
    by (simp add: PostgresRepository_def pg_ActiveModel_def toy_server_def road_server_def activeModelQuery_def two_streets_def toy_model_def prog_run)
  have "SafeRoutes toy_repository NoopRouteCache (\<lambda>_. zero_time) (\<lambda>_. 0) example_query () =
      (Inr (build_response example_query example_time toy_model routes), ())"
    unfolding SafeRoutes_def Let_def example_at
    by (simp add: example_valid prog_run NoopRouteCache_def model R)
  then show ?thesis by (simp add: build_response_def toy_model_def toy_context_def)
qed

theorem routes_cheapest_witness:
  "\<exists>resp rows es. SafeRoutes toy_repository NoopRouteCache (\<lambda>_. zero_time) (\<lambda>_. 0) example_query () = (Inr resp, ()) \<and>
     cheapest rows 1 es 2 \<and> map (\<lambda>(i, s, t, c). (i, c)) rows = [(10, Fin 550), (20, Fin 300)] \<and>
     length (Segments (rr_Routes resp ! 2)) = length es"
proof -
  obtain resp where run: "SafeRoutes toy_repository NoopRouteCache (\<lambda>_. zero_time) (\<lambda>_. 0) example_query () = (Inr resp, ())"
    and fresh: "\<not> rr_FromCache resp"
    and ctx: "(mi_ID (rr_ModelVersion resp), rr_TimeBucket resp, rr_WeekdayType resp) = toy_context"
    using toy_served by blast
  have snap: "snap_end two_nodes two_streets (OriginLng example_query) (OriginLat example_query) = Some (1, 0)"
    "snap_end two_nodes two_streets (DestLng example_query) (DestLat example_query) = Some (2, 0)"
    by code_simp+
  have third: "(2, ''safest'') \<in> set (enumerate 0 profile_names)" by (simp add: profile_names_def)
  obtain r rows es where r: "r \<in> set (route_profiles two_streets)" "pr_Name r = ''safest''"
    and rows: "profile_costs two_streets toy_context (pr_Multiplier r) = Some rows"
    and es: "cheapest rows 1 es 2" "map ed_ID (path_edges two_streets es) = es"
    and segs: "Segments (rr_Routes resp ! 2) = map (route_segment \<circ> enriched_edge two_nodes two_streets toy_context) (path_edges two_streets es)"
    using routes_cheapest [OF run [unfolded toy_server_def] fresh two_streets_finite go_float_text_law two_streets_law]
    unfolding ctx snap option.inject prod.inject
    by (elim exE conjE) (drule bspec [OF _ third], simp, metis)
  have "pr_Multiplier r = Fin 6" using r by (auto simp: two_streets_def)
  then have "rows = [(10, 1, 2, Fin 550), (20, 1, 2, Fin 300)]"
    using rows toy_costs(3) by (simp add: profile_costs_def toy_positive toy_context_def del: cost_rows.simps)
  moreover have "length (Segments (rr_Routes resp ! 2)) = length es"
    using segs arg_cong [OF es(2), of length] by simp
  ultimately show ?thesis using run es(1) by (intro exI [of _ resp] exI [of _ rows] exI [of _ es]) simp
qed

end
