(* ===== verification/WalkProperties.thy ===== *)
theory WalkProperties
  imports RoadGraphSql RouteExample EndpointProperties
begin

section \<open>Walking routes are shortest walks\<close>

lemma sql_sum_finite: "walkRouteQuery g pgr tb lng1 lat1 lng2 lat2 = Inr (src, dst, len, duration, n, geom) \<Longrightarrow>
    src = walk_snap g tb lng1 lat1 \<and> dst = walk_snap g tb lng2 lat2 \<and>
    (let rows = path_edges tb (walk_path g pgr tb src dst) in
       sql_sum (map ed_Length rows) = Some len \<and> sql_sum (map ed_Duration rows) = Some duration \<and> n = sql_count rows \<and>
       geom = (if rows = [] then None else Some (merged_geojson g (map ed_Geom rows))))"
  by (auto simp: walkRouteQuery_def Let_def split: option.splits)

definition connected :: "'g geometry \<Rightarrow> 'g road_tables \<Rightarrow> WalkRouteQuery \<Rightarrow> bool" where
  "connected g tb q \<longleftrightarrow> (\<exists>src dst rows es. walk_snap g tb (wq_FromLng q) (wq_FromLat q) = Some src \<and>
     walk_snap g tb (wq_ToLng q) (wq_ToLat q) = Some dst \<and> src \<noteq> dst \<and> cost_rows tb DistanceCostInner = Some rows \<and> walk rows src es dst)"

lemma walk_path_cheapest:
  assumes "answers_shortest pgr tb" "es = walk_path g pgr tb src dst"
  shows "(es \<noteq> [] \<longleftrightarrow> (\<exists>u v rows es'. src = Some u \<and> dst = Some v \<and> u \<noteq> v \<and> cost_rows tb DistanceCostInner = Some rows \<and> walk rows u es' v)) \<and>
    (es \<noteq> [] \<longrightarrow> (\<exists>u v rows. src = Some u \<and> dst = Some v \<and> cost_rows tb DistanceCostInner = Some rows \<and> cheapest rows u es v \<and>
       map ed_ID (path_edges tb es) = es))"
proof (cases "\<exists>u v rows. src = Some u \<and> dst = Some v \<and> cost_rows tb DistanceCostInner = Some rows")
  case True
  then obtain u v rows where uv: "src = Some u" "dst = Some v" "cost_rows tb DistanceCostInner = Some rows" by blast
  have es: "es = pgr_dijkstra pgr rows u v" using assms(2) uv by (simp add: walk_path_def del: cost_rows.simps)
  have law: "if u = v \<or> (\<forall>es. \<not> walk rows u es v) then es = [] else cheapest rows u es v"
    using assms(1) uv(3) unfolding answers_shortest_def dijkstra_law_def es by blast
  have ids: "map ed_ID (path_edges tb es) = es" if "cheapest rows u es v"
    using that by (intro path_edges_ids walk_edges [OF uv(3)]) (auto simp: cheapest_def)
  have "cheapest rows u [] v \<Longrightarrow> u = v" by (simp add: cheapest_def)
  then have "es \<noteq> [] \<longleftrightarrow> u \<noteq> v \<and> (\<exists>es'. walk rows u es' v)" using law by (auto split: if_splits)
  then show ?thesis using uv law ids by (auto simp del: cost_rows.simps split: if_splits)
next
  case False
  then have "es = []" using assms(2) by (auto simp: walk_path_def simp del: cost_rows.simps split: option.splits)
  then show ?thesis using False by blast
qed

text \<open>C12. The walking route the repository finds is a shortest walk of the routable graph between the nodes at which it is entered, and the
  distance and the number of edges are this walk's; it reports that there is no route exactly when the ends coincide or
  are not connected.\<close>

theorem walk_shortest:
  assumes "answers_shortest pgr tb" "\<forall>rows u v. length (pgr_dijkstra pgr rows u v) < 2 ^ 64"
  shows "case pg_FindWalkRoute (walk_server g pgr tb) q s of
      (Inl e, s') \<Rightarrow> if connected g tb q then \<not> errors_Is e RoadGraph.ErrNoRoute else errors_Is e RoadGraph.ErrNoRoute
    | (Inr w, s') \<Rightarrow> connected g tb q \<and>
        (\<exists>rows es. cost_rows tb DistanceCostInner = Some rows \<and>
           walk_snap g tb (wq_FromLng q) (wq_FromLat q) = Some (pt_SnappedNodeID (wr_From w)) \<and>
           walk_snap g tb (wq_ToLng q) (wq_ToLat q) = Some (pt_SnappedNodeID (wr_To w)) \<and>
           cheapest rows (pt_SnappedNodeID (wr_From w)) es (pt_SnappedNodeID (wr_To w)) \<and>
           map ed_ID (path_edges tb es) = es \<and> unat (wr_EdgeCount w) = length es \<and>
           sql_sum (map ed_Length (path_edges tb es)) = Some (wr_DistanceMeters w))"
proof -
  define src dst where "src = walk_snap g tb (wq_FromLng q) (wq_FromLat q)" and "dst = walk_snap g tb (wq_ToLng q) (wq_ToLat q)"
  define es where "es = walk_path g pgr tb src dst"
  note path = walk_path_cheapest [OF assms(1) es_def]
  have conn: "connected g tb q \<longleftrightarrow> es \<noteq> []"
    using path unfolding connected_def src_def [symmetric] dst_def [symmetric] by blast
  show ?thesis
  proof (cases "es = []")
    case True
    then have "path_edges tb (walk_path g pgr tb src dst) = []" by (simp add: es_def [symmetric] path_edges_def)
    then have "pg_FindWalkRoute (walk_server g pgr tb) q s = (Inl (Sentinel RoadGraph.ErrNoRoute), s)"
      by (simp add: pg_FindWalkRoute_def walk_server_def walkRouteQuery_def Let_def src_def dst_def sql_sum_def split: option.splits)
    then show ?thesis using conn True by simp
  next
    case False
    then obtain u v rows where uv: "src = Some u" "dst = Some v" "cost_rows tb DistanceCostInner = Some rows" "cheapest rows u es v"
      and ids: "map ed_ID (path_edges tb es) = es" using path by blast
    have esuv: "walk_path g pgr tb (Some u) (Some v) = es" using uv(1,2) by (simp add: es_def)
    have len: "length (path_edges tb es) = length es" using arg_cong [OF ids, of length] by simp
    have short: "length es < 2 ^ 64" using assms(2) uv(1,2,3) by (simp add: es_def walk_path_def del: cost_rows.simps)
    then have count: "unat (sql_count (path_edges tb es)) = length es" by (simp add: sql_count_def len unat_of_nat)
    then have nz: "sql_count (path_edges tb es) \<noteq> 0" "path_edges tb es \<noteq> []" using False len by auto
    obtain x s' where run: "pg_FindWalkRoute (walk_server g pgr tb) q s = (x, s')" by fastforce
    show ?thesis
    proof (cases x)
      case (Inl e)
      then have "\<not> errors_Is e RoadGraph.ErrNoRoute"
        using run nz uv(1,2)
        by (auto simp: pg_FindWalkRoute_def walk_server_def walkRouteQuery_def Let_def src_def [symmetric] dst_def [symmetric] esuv
            split: option.splits if_splits)
      then show ?thesis using conn False run Inl by simp
    next
      case (Inr w)
      then have "wr_EdgeCount w = sql_count (path_edges tb es) \<and> sql_sum (map ed_Length (path_edges tb es)) = Some (wr_DistanceMeters w) \<and>
          pt_SnappedNodeID (wr_From w) = u \<and> pt_SnappedNodeID (wr_To w) = v"
        using run nz uv(1,2)
        by (auto simp: pg_FindWalkRoute_def walk_server_def walkRouteQuery_def Let_def src_def [symmetric] dst_def [symmetric] esuv
            split: option.splits if_splits)
      then show ?thesis
        using conn False run Inr uv ids count unfolding src_def [symmetric] dst_def [symmetric]
        by (auto simp del: cost_rows.simps)
    qed
  qed
qed

definition toy_walk :: WalkRouteQuery where
  "toy_walk = \<lparr>wq_FromLat = Fin (- 69 / 2), wq_FromLng = Fin (- 117 / 2), wq_ToLat = Fin (- 277 / 8), wq_ToLng = Fin (- 117 / 2)\<rparr>"

text \<open>By planar distance the graph enters at the node the latitude names.\<close>

definition plane :: "bool geometry" where
  "plane = two_nodes\<lparr>planar_distance := geography_distance two_nodes\<rparr>"

lemma toy_dijkstra_short: "length (pgr_dijkstra toy_routing rows u v) < 2 ^ 64"
  by (simp add: toy_routing_def split: list.split)

theorem walk_shortest_witness:
  "\<exists>w. pg_FindWalkRoute (walk_server plane toy_routing two_streets) toy_walk () = (Inr w, ()) \<and> connected plane two_streets toy_walk \<and>
     (\<exists>rows es. cost_rows two_streets DistanceCostInner = Some rows \<and> cheapest rows 1 es 2 \<and> unat (wr_EdgeCount w) = length es)"
proof -
  have found: "case pg_FindWalkRoute (walk_server plane toy_routing two_streets) toy_walk () of
      (Inr w, s) \<Rightarrow> pt_SnappedNodeID (wr_From w) = 1 \<and> pt_SnappedNodeID (wr_To w) = 2 | _ \<Rightarrow> False"
    by code_simp
  then obtain w where w: "pg_FindWalkRoute (walk_server plane toy_routing two_streets) toy_walk () = (Inr w, ())"
    "pt_SnappedNodeID (wr_From w) = 1" "pt_SnappedNodeID (wr_To w) = 2" by (auto split: prod.splits sum.splits)
  show ?thesis
    using walk_shortest [OF two_streets_law, of plane toy_walk "()"] toy_dijkstra_short w
    by (auto simp del: cost_rows.simps)
qed

end
