(* ===== verification/EncodableProperties.thy ===== *)
theory EncodableProperties
  imports SafeRoutesProperties HandlerProperties
begin

section \<open>Every answer can be written\<close>

text \<open>
  No answer of the service holds an infinity or not-a-number, which JSON cannot carry: a fresh one because its numbers stay in range,
  a cached one because it was written before.
\<close>

definition modest_repository :: "'s Repository \<Rightarrow> bool" where
  "modest_repository repo \<longleftrightarrow>
     (\<forall>rq s p s'. repo_FindRoute repo rq s = (Inr p, s') \<longrightarrow> modest_path p) \<and>
     (\<forall>cr s ps s'. repo_FindCandidateRoutes repo cr s = (Inr ps, s') \<longrightarrow> (\<forall>p\<in>set ps. modest_path p)) \<and>
     (\<forall>es i w s bs s'. repo_RouteRiskByBucket repo es i w s = (Inr bs, s') \<longrightarrow> modest_risks bs)"

definition finite_profile :: "TimeOfDayRisk option \<Rightarrow> bool" where
  "finite_profile tod \<longleftrightarrow> (case tod of None \<Rightarrow> True | Some t \<Rightarrow> finite_time_of_day t)"

lemma finite_timeOfDayRisk:
  assumes "modest_repository repo" "modest_path p" "timeOfDayRisk repo p m w s = (Inr tod, s')"
  shows "finite_profile tod"
proof -
  have "modest_risks bs" if "repo_RouteRiskByBucket repo es i w s = (Inr bs, s')" for es i w s bs s'
    using assms(1) that unfolding modest_repository_def by blast
  then have "finite_time_of_day t" if "repo_RouteRiskByBucket repo es i w s = (Inr bs, s')"
      "aggregateBucketRisk (path_Edges p) bs m = Some t" for es i w s bs s' t
    using modest_time_of_day [OF assms(2) _ that(2)] that(1) by blast
  then show ?thesis
    using assms(3) unfolding timeOfDayRisk_def finite_profile_def
    by (auto simp: andThen_Inr ret_def split: if_splits option.split)
qed

definition modest_route :: "ModelVersion \<Rightarrow> SafeRoute \<Rightarrow> bool" where
  "modest_route m f \<longleftrightarrow> (\<exists>k p. modest_path p \<and> f = aggregateRoute k p m)"

lemma finite_shown_route: "modest_path p \<Longrightarrow> modest_route m f \<Longrightarrow> finite_profile tod \<Longrightarrow> finite_route (shown k p m f tod)"
  by (auto simp: modest_route_def shown_def finite_profile_def intro: finite_shown)

lemma finite_profile_routes:
  assumes "modest_repository repo" "profile_routes repo m ps base names f rs s = (Inr (f', rs'), s')"
    and "list_all finite_route rs" "modest_route m f \<or> hd names = ''fastest'' \<and> names \<noteq> []"
  shows "list_all finite_route rs' \<and> modest_route m f'"
  using assms(2-4)
proof (induction names arbitrary: f rs s)
  case (Cons k names)
  obtain p s1 tod s2 where p: "repo_FindRoute repo (profile_request ps base k) s = (Inr p, s1)"
    and tod: "timeOfDayRisk repo p m (rq_WeekdayType base) s1 = (Inr tod, s2)"
    and rest: "profile_routes repo m ps base names (if k = ''fastest'' then aggregateRoute k p m else f)
      (rs @ [shown k p m (if k = ''fastest'' then aggregateRoute k p m else f) tod]) s2 = (Inr (f', rs'), s')"
    using Cons.prems(1) by (auto simp: andThen_Inr Let_def shown_def)
  have mp: "modest_path p" using assms(1) p unfolding modest_repository_def by blast
  have f: "modest_route m (if k = ''fastest'' then aggregateRoute k p m else f)"
    using Cons.prems(3) mp by (auto simp: modest_route_def)
  have "finite_profile tod" by (rule finite_timeOfDayRisk [OF assms(1) mp tod])
  then show ?case using Cons.IH [OF rest] Cons.prems(2) f finite_shown_route [OF mp f] by simp
qed (simp add: ret_def)

lemma finite_candidate:
  assumes "modest_repository repo" "leastSafeCandidate repo base f m s = (Inr c, s')" "modest_route m f"
  shows "case c of None \<Rightarrow> True | Some r \<Rightarrow> finite_route r"
proof -
  obtain paths s1 where ps: "repo_FindCandidateRoutes repo (candidate_request base) s = (Inr paths, s1)"
    and rest: "(case worst_candidate f m paths of None \<Rightarrow> ret None
      | Some (w, p) \<Rightarrow> andThen (timeOfDayRisk repo p m (rq_WeekdayType base)) (\<lambda>tod. ret (Some (setComparisons (w\<lparr>RouteTimeOfDayRisk := tod\<rparr>) f)))) s1 = (Inr c, s')"
    using assms(2) by (auto simp: leastSafeCandidate_def andThen_Inr)
  show ?thesis
  proof (cases "worst_candidate f m paths")
    case None
    then show ?thesis using rest by (auto simp: ret_def)
  next
    case (Some wp)
    then obtain w p where wp: "worst_candidate f m paths = Some (w, p)" by (cases wp) auto
    obtain tod s2 where tod: "timeOfDayRisk repo p m (rq_WeekdayType base) s1 = (Inr tod, s2)"
      and c: "c = Some (setComparisons (w\<lparr>RouteTimeOfDayRisk := tod\<rparr>) f)"
      using rest by (auto simp: wp andThen_Inr ret_def)
    have "p \<in> set paths" "w = aggregateRoute ''least_safe_candidate'' p m" using worst_candidate_source [OF wp] by auto
    moreover from this(1) have mp: "modest_path p" using assms(1) ps unfolding modest_repository_def by blast
    ultimately show ?thesis
      using finite_shown_route [OF mp assms(3) finite_timeOfDayRisk [OF assms(1) mp tod]]
      by (simp add: c setComparisons_tod shown_def)
  qed
qed

lemma finite_compute_routes:
  assumes "modest_repository repo" "compute_routes repo q t m s = (Inr routes, s')"
  shows "list_all finite_route routes"
proof -
  obtain ps base f rs c s1 s2 s3 where rs: "profile_routes repo m ps base profile_names zero_route [] s1 = (Inr (f, rs), s2)"
    and c: "leastSafeCandidate repo base f m s2 = (Inr c, s3)"
    and routes: "routes = (case c of None \<Rightarrow> rs | Some r \<Rightarrow> rs @ [r])"
    using assms(2) unfolding compute_routes_def Let_def by (auto simp: andThen_Inr split: option.splits if_splits)
  have R: "list_all finite_route rs" "modest_route m f"
    using finite_profile_routes [OF assms(1) rs] by (simp_all add: profile_names_def)
  show ?thesis using finite_candidate [OF assms(1) c R(2)] R(1) by (simp add: routes split: option.splits)
qed

lemma parsed_finite:
  assumes "parseSafeRoutesQuery get = Some q" "valid_query q"
  shows "is_fin (OriginLat q)" "is_fin (OriginLng q)" "is_fin (DestLat q)" "is_fin (DestLng q)"
proof -
  have "f64_ok (OriginLat q) \<and> f64_ok (OriginLng q) \<and> f64_ok (DestLat q) \<and> f64_ok (DestLng q)"
    using assms(1) ParseFloat_ok by (auto simp: parseSafeRoutesQuery_def Let_def split: option.splits if_splits)
  then show "is_fin (OriginLat q)" "is_fin (OriginLng q)" "is_fin (DestLat q)" "is_fin (DestLng q)"
    using valid_query_fin [OF assms(2)] by (auto simp: is_fin_iff)
qed

lemma finite_repair: "finite_response (repair_response x) = finite_response x"
proof -
  have "finite_riskiest (repair_riskiest y) = finite_riskiest y" "finite_time_of_day (repair_time_of_day t) = finite_time_of_day t" for y t
    by (simp_all add: finite_riskiest_def repair_riskiest_def finite_time_of_day_def repair_time_of_day_def repair_bucket_risk_def)
  then have "finite_route (repair_route r) = finite_route r" for r
    by (simp add: finite_route_def repair_route_def repair_linestring_def split: option.split)
  then show ?thesis by (simp add: finite_response_def repair_response_def list.pred_map comp_def)
qed

lemma produced_finite: "produced repo (\<lambda>k r. finite_response r)"
  by (simp add: produced_def finite_repair)

text \<open>C7. While the database gives paths of at most \<open>2 ^ 40\<close> meters and seconds, points that are numbers, and risks
  between 0 and 1, every request the service can answer is answered with status 200 and the JSON text of the response: no quotient or
  sum of the aggregation overflows or is undefined, and what the cache holds was written before.\<close>

theorem served_encodable:
  assumes "redis_server client stored" "serving repo client stored now zone s" "modest_repository repo"
    and "parseSafeRoutesQuery get = Some q" "redis_service repo client now zone q s = (Inr resp, s')"
  shows "(\<exists>raw. MarshalResponse resp = Inr raw) \<and>
    hr_Status (fst (GetSafeRoutes safe_routes_encodable (redis_service repo client now zone) get s)) = 200 \<and>
    hr_Body (fst (GetSafeRoutes safe_routes_encodable (redis_service repo client now zone) get s)) = Json resp"
proof -
  define t where "t = resolve_at (now (fst s)) zone q"
  have "finite_response resp"
    using service_world.response_cases [OF redis_server.world [OF assms(1)] serving_entries [OF assms(1,2) produced_finite]
        assms(5) [unfolded redis_service_def] t_def]
  proof cases
    case (1 m s1 r)
    then show ?thesis by (simp add: finite_response_def)
  next
    case (2 m s1 routes s2 s3)
    then have "compute_routes repo q t m (fst s2) = (Inr routes, fst s3)" by (simp add: compute_routes_fst on_fst_eq)
    then have "list_all finite_route routes" by (rule finite_compute_routes [OF assms(3)])
    then show ?thesis using parsed_finite [OF assms(4) 2(1)] by (simp add: 2(4) finite_response_def build_response_def finite_point_def)
  qed
  then have "safe_routes_encodable resp" using finite_written by (simp add: safe_routes_encodable_def)
  then show ?thesis
    using assms(4,5) by (auto simp: GetSafeRoutes_def MarshalResponse_def safe_routes_encodable_def)
qed

lemma example_modest_repository: "modest_repository (reader example_data)"
  using example_modest by (auto simp: modest_repository_def reader_def example_data_def modest_risks_def)

theorem served_encodable_witness:
  "\<exists>raw. MarshalResponse cached_response = Inr raw"
proof -
  obtain s' where R: "redis_service (reader example_data) mem_redis (\<lambda>w. zero_time) (\<lambda>_. - 10800)
      example_query (snd (example_service example_query ((), NewRedisRouteCache Map.empty))) = (Inr cached_response, s')"
    using example_hit by blast
  show ?thesis
    using served_encodable [OF mem.redis_server_axioms example_hit [THEN conjunct1] example_modest_repository example_parse R] by simp
qed

subsection \<open>Reading an entry back\<close>

text \<open>C10. The cache can write a response exactly when all its numbers are finite, and what it writes it reads back: the text decodes,
  field by field and through every nested list and optional part, to that response with the bytes of its strings that are not UTF-8
  replaced.\<close>

theorem cache_entry_roundtrip:
  "case MarshalResponse x of
     Inl err \<Rightarrow> \<not> finite_response x
   | Inr raw \<Rightarrow> finite_response x \<and> UnmarshalResponse raw = Inr (repair_response x)"
proof (cases "enc_response x")
  case None
  then show ?thesis using finite_written [of x] by (simp add: MarshalResponse_def)
next
  case (Some v)
  then have "MarshalResponse x = Inr (json_text v)" by (simp add: MarshalResponse_def)
  moreover have "finite_response x" using Some finite_written by (metis option.distinct(1))
  ultimately show ?thesis using response_decode_encode by auto
qed

end
