(* ===== verification/Logging.thy ===== *)
theory Logging
  imports GoText Requests
begin

section \<open>The logger\<close>

text \<open>
  \<open>internal/platform/logger/logger.go\<close> and \<open>LogWith\<close> of \<open>internal/httpx/logging.go\<close>. A logger is its handler, on standard
  output and with its level, and the attributes each of its lines carries. \<open>strings.EqualFold\<close> against \<open>text\<close>: none of its letters
  has a fold outside ASCII. \<open>middleware.GetReqID\<close> belongs to chi and is a parameter.
\<close>

datatype log_level = LevelDebug | LevelInfo | LevelWarn | LevelError

datatype log_handler = TintHandler log_level | JSONHandler log_level

record logger =
  lg_Handler :: log_handler
  lg_Attrs :: "(string \<times> string) list"

definition parseLevel :: "(string \<Rightarrow> string) \<Rightarrow> string \<Rightarrow> log_level" where
  "parseLevel unicodeLower level =
     (let l = ToLower unicodeLower (TrimSpace level) in
      if l = ''debug'' then LevelDebug
      else if l = ''warn'' \<or> l = ''warning'' then LevelWarn
      else if l = ''error'' then LevelError
      else LevelInfo)"

definition NewLogger :: "(string \<Rightarrow> string) \<Rightarrow> string \<Rightarrow> string \<Rightarrow> logger" where
  "NewLogger unicodeLower format level =
     (let lvl = parseLevel unicodeLower level in
      \<lparr>lg_Handler = (if map lower_byte format = ''text'' then TintHandler lvl else JSONHandler lvl), lg_Attrs = []\<rparr>)"

definition LogWith :: "('u http_request \<Rightarrow> string) \<Rightarrow> logger \<Rightarrow> 'u http_request \<Rightarrow> logger" where
  "LogWith GetReqID log r =
     (let id = GetReqID r in
      if id \<noteq> [] then log\<lparr>lg_Attrs := lg_Attrs log @ [(''request_id'', id)]\<rparr> else log)"

end
