(* ===== verification/ApiMain.thy ===== *)
theory ApiMain
  imports Logging AppProperties
begin

section \<open>The server process\<close>

text \<open>
  \<open>cmd/api/main.go\<close>. The process runs two goroutines, \<open>main\<close> and the one that serves, and steps of its environment: signals,
  requests that begin, use a pooled connection and end, and the clock. \<open>main_step\<close> interleaves them. What the
  standard library does is taken as documented: a signal \<open>signal.Notify\<close> does not yet relay ends the process, its channel of
  capacity one keeps the first signal; \<open>Shutdown\<close> closes the listener, upon which \<open>ListenAndServe\<close> returns
  \<open>ErrServerClosed\<close>, and returns when no request is in progress or when its context ends; \<open>Close\<close> of the pool waits
  for the connections in use, and no connection is taken from a pool that closes. The ten seconds within which \<open>New\<close> must connect are
  part of what the drivers answer. Times are nanoseconds.
\<close>

definition time_Second :: int where "time_Second = 1000000000"

record ('x, 'r) http_Server =
  srv_Addr :: string
  srv_Handler :: "('x, 'r) served router"
  srv_ReadTimeout :: int
  srv_WriteTimeout :: int
  srv_IdleTimeout :: int

definition http_server :: "Config \<Rightarrow> ('x, 'r) app \<Rightarrow> ('x, 'r) http_Server" where
  "http_server cfg application =
     \<lparr>srv_Addr = '':'' @ HTTPPort cfg, srv_Handler = app_Router application, srv_ReadTimeout = 15 * time_Second,
      srv_WriteTimeout = 15 * time_Second, srv_IdleTimeout = 60 * time_Second\<rparr>"

datatype os_signal = SIGINT | SIGTERM

datatype ending = Exit int | Killed os_signal

text \<open>Where \<open>main\<close> is, by the call it is about to make; at \<open>AtShutdown\<close> it is inside the call, with the time its context ends.\<close>

datatype main_point = AtNew | AtNotify | AtQuit | AtShutdown int | AtClose int | AtReturn int

text \<open>The goroutine: not started, inside \<open>ListenAndServe\<close>, past it with \<open>ErrServerClosed\<close> or with another error.\<close>

datatype listener = NotStarted | Listening | ServerClosed | ServerError

record ('x, 'r) process =
  pr_point :: main_point
  pr_logger :: logger
  pr_app :: "('x, 'r) app option"
  pr_server :: "('x, 'r) http_Server option"
  pr_listener :: listener
  pr_quit :: bool
  pr_conns :: connections
  pr_requests :: nat
  pr_borrowed :: nat
  pr_now :: int
  pr_ending :: "ending option"

definition process_start :: "(string \<Rightarrow> string) \<Rightarrow> Config \<Rightarrow> connections \<Rightarrow> int \<Rightarrow> ('x, 'r) process" where
  "process_start unicodeLower cfg c now =
     \<lparr>pr_point = AtNew, pr_logger = NewLogger unicodeLower (LogFormat cfg) (LogLevel cfg), pr_app = None, pr_server = None,
      pr_listener = NotStarted, pr_quit = False, pr_conns = c, pr_requests = 0, pr_borrowed = 0, pr_now = now, pr_ending = None\<rparr>"

fun pool_open :: "main_point \<Rightarrow> bool" where
  "pool_open (AtClose d) = False"
| "pool_open (AtReturn d) = False"
| "pool_open p = True"

text \<open>A step of \<open>main\<close>, of the serving goroutine, and of the environment.\<close>

inductive main_goes :: "('x, 'r, 'rate, 'store) libraries \<Rightarrow> Config \<Rightarrow> go_time \<Rightarrow> ('x, 'r) process \<Rightarrow> ('x, 'r) process \<Rightarrow> bool"
  for lb cfg t where
  start_fails: "pr_point s = AtNew \<Longrightarrow> New lb cfg t (pr_conns s) = (Inl err, c) \<Longrightarrow>
    main_goes lb cfg t s (s\<lparr>pr_conns := c, pr_ending := Some (Exit 1)\<rparr>)"
| start: "pr_point s = AtNew \<Longrightarrow> New lb cfg t (pr_conns s) = (Inr application, c) \<Longrightarrow>
    main_goes lb cfg t s (s\<lparr>pr_conns := c, pr_app := Some application, pr_server := Some (http_server cfg application),
      pr_listener := Listening, pr_point := AtNotify\<rparr>)"
| notify: "pr_point s = AtNotify \<Longrightarrow> main_goes lb cfg t s (s\<lparr>pr_point := AtQuit\<rparr>)"
| quit: "pr_point s = AtQuit \<Longrightarrow> pr_quit s \<Longrightarrow>
    main_goes lb cfg t s (s\<lparr>pr_quit := False, pr_point := AtShutdown (pr_now s + 30 * time_Second),
      pr_listener := (if pr_listener s = Listening then ServerClosed else pr_listener s)\<rparr>)"
| shutdown: "pr_point s = AtShutdown deadline \<Longrightarrow> pr_requests s = 0 \<or> deadline \<le> pr_now s \<Longrightarrow>
    main_goes lb cfg t s (s\<lparr>pr_point := AtClose deadline\<rparr>)"
| close: "pr_point s = AtClose deadline \<Longrightarrow> pr_app s = Some application \<Longrightarrow> pr_borrowed s = 0 \<Longrightarrow>
    main_goes lb cfg t s (s\<lparr>pr_conns := Close application (pr_conns s), pr_point := AtReturn deadline\<rparr>)"
| return: "pr_point s = AtReturn deadline \<Longrightarrow> main_goes lb cfg t s (s\<lparr>pr_ending := Some (Exit 0)\<rparr>)"

inductive server_goes :: "('x, 'r) process \<Rightarrow> ('x, 'r) process \<Rightarrow> bool" where
  server_error: "pr_listener s = Listening \<Longrightarrow> server_goes s (s\<lparr>pr_listener := ServerError\<rparr>)"
| server_exit: "pr_listener s = ServerError \<Longrightarrow> server_goes s (s\<lparr>pr_ending := Some (Exit 1)\<rparr>)"

inductive world_goes :: "('x, 'r) process \<Rightarrow> ('x, 'r) process \<Rightarrow> bool" where
  kill: "pr_point s \<in> {AtNew, AtNotify} \<Longrightarrow> world_goes s (s\<lparr>pr_ending := Some (Killed sig)\<rparr>)"
| signal: "pr_point s \<notin> {AtNew, AtNotify} \<Longrightarrow> world_goes s (s\<lparr>pr_quit := True\<rparr>)"
| accept: "pr_listener s = Listening \<Longrightarrow> world_goes s (s\<lparr>pr_requests := pr_requests s + 1\<rparr>)"
| borrow: "pr_borrowed s < pr_requests s \<Longrightarrow> pool_open (pr_point s) \<Longrightarrow> world_goes s (s\<lparr>pr_borrowed := pr_borrowed s + 1\<rparr>)"
| give_back: "0 < pr_borrowed s \<Longrightarrow> world_goes s (s\<lparr>pr_borrowed := pr_borrowed s - 1\<rparr>)"
| finish: "pr_borrowed s < pr_requests s \<Longrightarrow> world_goes s (s\<lparr>pr_requests := pr_requests s - 1\<rparr>)"
| tick: "0 < d \<Longrightarrow> world_goes s (s\<lparr>pr_now := pr_now s + d\<rparr>)"

inductive main_step :: "('x, 'r, 'rate, 'store) libraries \<Rightarrow> Config \<Rightarrow> go_time \<Rightarrow> ('x, 'r) process \<Rightarrow> ('x, 'r) process \<Rightarrow> bool"
  for lb cfg t where
  "pr_ending s = None \<Longrightarrow> main_goes lb cfg t s s' \<or> server_goes s s' \<or> world_goes s s' \<Longrightarrow> main_step lb cfg t s s'"

text \<open>A run of the program: its configuration is what \<open>Load\<close> reads from the environment.\<close>

inductive main_run :: "('x, 'r, 'rate, 'store) libraries \<Rightarrow> (string \<Rightarrow> string) \<Rightarrow> go_time \<Rightarrow> connections \<Rightarrow> int \<Rightarrow> ('x, 'r) process \<Rightarrow> bool"
  for lb env t c now where
  begins: "main_run lb env t c now (process_start (lb_unicodeLower lb) (Load env) c now)"
| goes: "main_run lb env t c now s \<Longrightarrow> main_step lb (Load env) t s s' \<Longrightarrow> main_run lb env t c now s'"


subsection \<open>What holds in every state of a run\<close>

definition started :: "('x, 'r, 'rate, 'store) libraries \<Rightarrow> Config \<Rightarrow> go_time \<Rightarrow> connections \<Rightarrow> ('x, 'r) process \<Rightarrow> bool" where
  "started lb cfg t c s \<longleftrightarrow>
     (\<exists>a c'. New lb cfg t c = (Inr a, c') \<and> pr_app s = Some a \<and> pr_server s = Some (http_server cfg a) \<and> pr_conns s = c')"

definition drained :: "int \<Rightarrow> ('x, 'r) process \<Rightarrow> bool" where
  "drained deadline s \<longleftrightarrow> (pr_requests s = 0 \<or> deadline \<le> pr_now s) \<and> pr_listener s \<noteq> Listening"

fun point_inv :: "('x, 'r, 'rate, 'store) libraries \<Rightarrow> Config \<Rightarrow> go_time \<Rightarrow> connections \<Rightarrow> main_point \<Rightarrow> ('x, 'r) process \<Rightarrow> bool" where
  "point_inv lb cfg t c AtNew s \<longleftrightarrow> pr_app s = None \<and> pr_conns s = c \<and> pr_listener s = NotStarted \<and> pr_requests s = 0"
| "point_inv lb cfg t c AtNotify s \<longleftrightarrow> started lb cfg t c s"
| "point_inv lb cfg t c AtQuit s \<longleftrightarrow> started lb cfg t c s"
| "point_inv lb cfg t c (AtShutdown d) s \<longleftrightarrow> started lb cfg t c s \<and> d \<le> pr_now s + 30 * time_Second \<and> pr_listener s \<noteq> Listening"
| "point_inv lb cfg t c (AtClose d) s \<longleftrightarrow> started lb cfg t c s \<and> drained d s"
| "point_inv lb cfg t c (AtReturn d) s \<longleftrightarrow> pr_conns s = c \<and> drained d s \<and> pr_borrowed s = 0"

fun ending_inv :: "('x, 'r, 'rate, 'store) libraries \<Rightarrow> Config \<Rightarrow> go_time \<Rightarrow> connections \<Rightarrow> ending option \<Rightarrow> ('x, 'r) process \<Rightarrow> bool" where
  "ending_inv lb cfg t c None s \<longleftrightarrow> True"
| "ending_inv lb cfg t c (Some (Exit n)) s \<longleftrightarrow>
     n = 0 \<and> pr_point s \<in> range AtReturn \<or> n = 1 \<and> pr_point s = AtNew \<and> (\<exists>e. New lb cfg t c = (Inl e, c)) \<or>
     n = 1 \<and> pr_listener s = ServerError"
| "ending_inv lb cfg t c (Some (Killed sig)) s \<longleftrightarrow> pr_point s \<in> {AtNew, AtNotify}"

definition main_inv :: "('x, 'r, 'rate, 'store) libraries \<Rightarrow> Config \<Rightarrow> go_time \<Rightarrow> connections \<Rightarrow> ('x, 'r) process \<Rightarrow> bool" where
  "main_inv lb cfg t c s \<longleftrightarrow> pr_borrowed s \<le> pr_requests s \<and> \<not> (pr_quit s \<and> pr_point s \<in> {AtNew, AtNotify}) \<and>
     point_inv lb cfg t c (pr_point s) s \<and> ending_inv lb cfg t c (pr_ending s) s"

lemmas main_inv_defs = main_inv_def started_def drained_def

lemma main_goes_inv: "main_goes lb cfg t s s' \<Longrightarrow> pr_ending s = None \<Longrightarrow> main_inv lb cfg t c s \<Longrightarrow> main_inv lb cfg t c s'"
  by (induction rule: main_goes.induct) (auto simp: main_inv_defs dest: New_Inl New_Close)

lemma server_goes_inv: "server_goes s s' \<Longrightarrow> pr_ending s = None \<Longrightarrow> main_inv lb cfg t c s \<Longrightarrow> main_inv lb cfg t c s'"
  by (induction rule: server_goes.induct) (auto simp: main_inv_defs elim!: point_inv.elims)

lemma world_goes_inv: "world_goes s s' \<Longrightarrow> pr_ending s = None \<Longrightarrow> main_inv lb cfg t c s \<Longrightarrow> main_inv lb cfg t c s'"
  by (induction rule: world_goes.induct) (auto simp: main_inv_defs elim!: point_inv.elims)

lemma main_run_inv: "main_run lb env t c now s \<Longrightarrow> main_inv lb (Load env) t c s"
proof (induction rule: main_run.induct)
  case begins
  show ?case by (simp add: main_inv_def process_start_def)
next
  case (goes s s')
  from goes.hyps(2) goes.IH show ?case
    by (cases rule: main_step.cases) (blast intro: main_goes_inv server_goes_inv world_goes_inv)
qed

subsection \<open>What happened before\<close>








subsection \<open>A signal stops the server\<close>

definition stops_by :: "('x, 'r, 'rate, 'store) libraries \<Rightarrow> Config \<Rightarrow> go_time \<Rightarrow> int \<Rightarrow> ('x, 'r) process \<Rightarrow> bool" where
  "stops_by lb cfg t limit s \<longleftrightarrow>
     (\<exists>s'. (main_step lb cfg t)\<^sup>*\<^sup>* s s' \<and> pr_ending s' = Some (Exit 0) \<and> pr_requests s' = pr_requests s \<and> pr_now s' \<le> limit)"

lemma stops_by_step:
  assumes "pr_ending s = None" "main_goes lb cfg t s s' \<or> server_goes s s' \<or> world_goes s s'" "pr_requests s' = pr_requests s"
    and "stops_by lb cfg t limit s'"
  shows "stops_by lb cfg t limit s"
  using assms(3,4) main_step.intros [OF assms(1,2)] unfolding stops_by_def by (metis converse_rtranclp_into_rtranclp)

lemma return_stops:
  assumes "pr_ending s = None" "pr_point s = AtReturn d" "pr_now s \<le> limit"
  shows "stops_by lb cfg t limit s"
proof -
  have "main_step lb cfg t s (s\<lparr>pr_ending := Some (Exit 0)\<rparr>)"
    using assms by (intro main_step.intros) (auto intro: main_goes.return)
  then show ?thesis using assms(3) unfolding stops_by_def by (intro exI [of _ "s\<lparr>pr_ending := Some (Exit 0)\<rparr>"]) auto
qed

lemma close_stops:
  "pr_ending s = None \<Longrightarrow> pr_point s = AtClose d \<Longrightarrow> pr_app s = Some a \<Longrightarrow> pr_now s \<le> limit \<Longrightarrow> stops_by lb cfg t limit s"
proof (induction "pr_borrowed s" arbitrary: s)
  case 0
  have "stops_by lb cfg t limit (s\<lparr>pr_conns := Close a (pr_conns s), pr_point := AtReturn d\<rparr>)"
    using 0 by (intro return_stops) auto
  then show ?case
    using stops_by_step [OF 0(2) disjI1 [OF main_goes.close [OF 0(3,4)]]] 0(1) by simp
next
  case (Suc n)
  have "stops_by lb cfg t limit (s\<lparr>pr_borrowed := pr_borrowed s - 1\<rparr>)"
    using Suc by (intro Suc.hyps(1)) auto
  then show ?case
    using stops_by_step [OF Suc.prems(1) disjI2 [OF disjI2 [OF world_goes.give_back]]] Suc.hyps(2) by simp
qed

lemma shutdown_stops:
  assumes "pr_ending s = None" "pr_point s = AtShutdown d" "pr_app s = Some a" "pr_now s \<le> limit" "d \<le> limit"
  shows "stops_by lb cfg t limit s"
proof -
  have now: "stops_by lb cfg t limit s" if "d \<le> pr_now s" "pr_ending s = None" "pr_point s = AtShutdown d" "pr_app s = Some a" "pr_now s \<le> limit"
    for s :: "('a, 'b) process"
  proof -
    have "stops_by lb cfg t limit (s\<lparr>pr_point := AtClose d\<rparr>)" using that by (intro close_stops) auto
    then show ?thesis using stops_by_step [OF that(2) disjI1 [OF main_goes.shutdown [OF that(3)]]] that(1) by simp
  qed
  show ?thesis
  proof (cases "d \<le> pr_now s")
    case False
    then have "stops_by lb cfg t limit (s\<lparr>pr_now := pr_now s + (d - pr_now s)\<rparr>)" using assms by (intro now) auto
    then show ?thesis
      using stops_by_step [OF assms(1) disjI2 [OF disjI2 [OF world_goes.tick [of "d - pr_now s"]]]] False by simp
  qed (use now assms in blast)
qed

lemma quit_stops:
  assumes "pr_ending s = None" "pr_point s = AtQuit" "pr_quit s" "pr_app s = Some a"
  shows "stops_by lb cfg t (pr_now s + 30 * time_Second) s"
proof -
  have "stops_by lb cfg t (pr_now s + 30 * time_Second) (s\<lparr>pr_quit := False, pr_point := AtShutdown (pr_now s + 30 * time_Second),
      pr_listener := (if pr_listener s = Listening then ServerClosed else pr_listener s)\<rparr>)"
    using assms by (intro shutdown_stops) (auto simp: time_Second_def)
  then show ?thesis using stops_by_step [OF assms(1) disjI1 [OF main_goes.quit [OF assms(2,3)]]] by simp
qed

lemma main_run_steps: "(main_step lb (Load env) t)\<^sup>*\<^sup>* s s' \<Longrightarrow> main_run lb env t c now s \<Longrightarrow> main_run lb env t c now s'"
  by (induction rule: rtranclp.induct) (auto intro: main_run.goes)

lemma signalled_stops:
  assumes "main_run lb env t c now s" "pr_ending s = None" "pr_quit s \<or> pr_point s \<notin> {AtNew, AtNotify, AtQuit}"
  shows "stops_by lb (Load env) t (pr_now s + 30 * time_Second) s"
proof -
  have inv: "main_inv lb (Load env) t c s" by (rule main_run_inv [OF assms(1)])
  then show ?thesis
    using assms(2,3) by (cases "pr_point s")
      (auto simp: main_inv_defs time_Second_def intro: quit_stops [unfolded time_Second_def, simplified] shutdown_stops close_stops return_stops)
qed

text \<open>C23. Once the signal has come, whatever state the process is in, it can still end with code 0 within thirty seconds, with every connection
  it opened given back, even if no request in progress ends: it only needs the connections in use to come back.\<close>

theorem main_stops:
  assumes "main_run lb env t c now s" "pr_ending s = None" "pr_quit s \<or> pr_point s \<notin> {AtNew, AtNotify, AtQuit}"
  shows "\<exists>s'. (main_step lb (Load env) t)\<^sup>*\<^sup>* s s' \<and> pr_ending s' = Some (Exit 0) \<and> pr_conns s' = c \<and>
    pr_requests s' = pr_requests s \<and> pr_now s' \<le> pr_now s + 30 * time_Second"
proof -
  obtain s' where s': "(main_step lb (Load env) t)\<^sup>*\<^sup>* s s'" "pr_ending s' = Some (Exit 0)" "pr_requests s' = pr_requests s"
      "pr_now s' \<le> pr_now s + 30 * time_Second"
    using signalled_stops [OF assms] unfolding stops_by_def by blast
  have "main_inv lb (Load env) t c s'" by (rule main_run_inv [OF main_run_steps [OF s'(1) assms(1)]])
  then have "pr_conns s' = c" using s'(2) by (auto simp: main_inv_defs)
  then show ?thesis using s' by blast
qed


text \<open>A server whose database answers, with one request in progress that holds a connection when the signal comes.\<close>

definition all_up :: drivers where
  "all_up = \<lparr>pgxpool_New = (\<lambda>dsn. None), pool_Ping = (\<lambda>dsn. None), redis_Ping = (\<lambda>opts. None)\<rparr>"

definition example_env :: "string \<Rightarrow> string" where "example_env k = []"

lemma example_config: "weak_secret (Load example_env)" "IsDevelopment (Load example_env)" "\<not> RedisEnabled (Load example_env)"
    "\<not> RateLimitEnabled (Load example_env)" "\<not> RouteCacheEnabled (Load example_env)"
  by (simp_all add: weak_secret_def IsDevelopment_def Load_def getEnv_def getEnvBool_def Let_def example_env_def)

lemma example_start: "\<exists>a c'. New (lb\<lparr>lb_drivers := all_up\<rparr>) (Load example_env) t c = (Inr a, c')"
  by (simp add: New_def validateAuthConfig_def validateRedisConfig_def example_config open_redis_def NewPool_def all_up_def Let_def ret_def)

lemma example_signalled:
  "\<exists>s. main_run (lb\<lparr>lb_drivers := all_up\<rparr>) example_env t c 0 s \<and> pr_ending s = None \<and> pr_quit s \<and> pr_requests s = 1 \<and>
     pr_borrowed s = 1 \<and> pr_now s = 0"
proof -
  let ?lb = "lb\<lparr>lb_drivers := all_up\<rparr>"
  obtain a c' where a: "New ?lb (Load example_env) t c = (Inr a, c')" using example_start by blast
  define s0 :: "('a, 'b) process" where "s0 = process_start (lb_unicodeLower ?lb) (Load example_env) c 0"
  define s1 where "s1 = s0\<lparr>pr_conns := c', pr_app := Some a, pr_server := Some (http_server (Load example_env) a),
    pr_listener := Listening, pr_point := AtNotify\<rparr>"
  have s0: "pr_point s0 = AtNew" "pr_conns s0 = c" "pr_ending s0 = None" "pr_requests s0 = 0" "pr_borrowed s0 = 0" "pr_now s0 = 0"
    by (simp_all add: s0_def process_start_def)
  have "main_run ?lb example_env t c 0 s0" unfolding s0_def by (rule main_run.begins)
  moreover have "main_step ?lb (Load example_env) t s0 s1"
    using main_goes.start [OF s0(1), of ?lb "Load example_env" t a c'] s0 a unfolding s1_def by (auto intro: main_step.intros)
  ultimately have r: "main_run ?lb example_env t c 0 s1" by (rule main_run.goes)
  have world: "main_run ?lb example_env t c 0 y" if "main_run ?lb example_env t c 0 x" "pr_ending x = None" "world_goes x y" for x y
    using main_run.goes [OF that(1) main_step.intros] that by blast
  define s2 where "s2 = s1\<lparr>pr_point := AtQuit\<rparr>"
  define s3 where "s3 = s2\<lparr>pr_requests := pr_requests s2 + 1\<rparr>"
  define s4 where "s4 = s3\<lparr>pr_borrowed := pr_borrowed s3 + 1\<rparr>"
  note states = s1_def s2_def s3_def s4_def s0
  have "main_step ?lb (Load example_env) t s1 s2"
    unfolding s2_def by (intro main_step.intros disjI1 main_goes.notify) (simp_all add: states)
  then have "main_run ?lb example_env t c 0 s2" by (rule main_run.goes [OF r])
  moreover have "pr_listener s2 = Listening" "pr_ending s2 = None" by (simp_all add: states)
  ultimately have "main_run ?lb example_env t c 0 s3" unfolding s3_def by (intro world [OF _ _ world_goes.accept])
  moreover have "pr_borrowed s3 < pr_requests s3" "pool_open (pr_point s3)" "pr_ending s3 = None" by (simp_all add: states)
  ultimately have "main_run ?lb example_env t c 0 s4" unfolding s4_def by (intro world [OF _ _ world_goes.borrow])
  moreover have "pr_point s4 \<notin> {AtNew, AtNotify}" "pr_ending s4 = None" by (simp_all add: states)
  ultimately have "main_run ?lb example_env t c 0 (s4\<lparr>pr_quit := True\<rparr>)" by (intro world [OF _ _ world_goes.signal])
  then show ?thesis by (intro exI [of _ "s4\<lparr>pr_quit := True\<rparr>"]) (simp add: states)
qed

theorem main_stops_witness:
  "\<forall>(lb :: ('x, 'r, 'rate, 'store) libraries) t c. \<exists>s s' :: ('x, 'r) process.
     (main_step (lb\<lparr>lb_drivers := all_up\<rparr>) (Load example_env) t)\<^sup>*\<^sup>* s s' \<and> pr_borrowed s = 1 \<and>
     pr_ending s' = Some (Exit 0) \<and> pr_conns s' = c \<and> pr_requests s' = 1 \<and> pr_now s' \<le> 30 * time_Second"
proof (intro allI)
  fix lb :: "('x, 'r, 'rate, 'store) libraries" and t c
  obtain s :: "('x, 'r) process" where s: "main_run (lb\<lparr>lb_drivers := all_up\<rparr>) example_env t c 0 s" "pr_ending s = None" "pr_quit s"
      "pr_requests s = 1" "pr_borrowed s = 1" "pr_now s = 0"
    using example_signalled by blast
  show "\<exists>s s' :: ('x, 'r) process. (main_step (lb\<lparr>lb_drivers := all_up\<rparr>) (Load example_env) t)\<^sup>*\<^sup>* s s' \<and> pr_borrowed s = 1 \<and>
     pr_ending s' = Some (Exit 0) \<and> pr_conns s' = c \<and> pr_requests s' = 1 \<and> pr_now s' \<le> 30 * time_Second"
    using main_stops [OF s(1,2) disjI1 [OF s(3)]] s(4-6) by auto
qed


end
