(* ===== verification/Spec2Isabelle.thy ===== *)
theory Spec2Isabelle
  imports CacheCounters HandlerProperties AuthExamples EndpointProperties TimeProperties AppProperties WalkProperties
    EncodableProperties ApiMain
begin

text \<open>
  A verification library of the Go service in \<open>cmd/\<close> and \<open>internal/\<close>: an HTTP API that answers with walking
  routes through Buenos Aires weighed by the risk of crime (\<open>internal/saferoutes\<close>), crimes near a point
  (\<open>internal/crimes\<close>), the road graph (\<open>internal/roadgraph\<close>), routes of an external service
  (\<open>internal/routes\<close>), and accounts with token sessions (\<open>internal/auth\<close>), assembled by
  \<open>internal/app\<close> from the configuration.

  \<^bold>\<open>Foundations.\<close>
  \<open>Rounding\<close>, \<open>Float64\<close> and \<open>RoundNear\<close>: binary64 numbers with rounding to nearest even, infinities and NaN.
  \<open>Prelude\<close>: errors with wrapping (\<open>errors.Is\<close>), calls that fail and change a world (\<open>prog\<close>), automation.
  \<open>GoStrings\<close>, \<open>GoText\<close>, \<open>GoNumbers\<close>, \<open>GoTime\<close>, \<open>TimeParse\<close>, \<open>NetAddr\<close>, \<open>Base64\<close>, \<open>FloatText\<close>,
  \<open>FloatRoundtrip\<close>, \<open>Json\<close> (the reader), \<open>JsonText\<close> (the writer): what the service uses of the standard library, with the round trips
  of numbers, times, tokens and JSON values. \<open>Logging\<close>: the logger (\<open>platform/logger\<close>, \<open>httpx/logging.go\<close>).
  \<open>Httpx\<close>, \<open>Requests\<close>: responses, requests, handlers, middlewares (\<open>internal/httpx\<close>). \<open>ErrorSets\<close>: which sentinel errors a call can return, and when
  it does.

  \<^bold>\<open>Safe routes.\<close>
  \<open>SafeRoutesModel\<close> (\<open>model.go\<close>, \<open>errors.go\<close>), \<open>SafeRoutesApi\<close> (\<open>dto.go\<close>, the interfaces of \<open>repository.go\<close> and
  \<open>cache.go\<close>, as records of operations with the contract of a cache as a locale), \<open>RiskAggregation\<close> (\<open>risk_aggregation.go\<close>),
  \<open>TimeContext\<close> (time bucket and weekday, with their twins in the Python and the SQL of the pipeline), \<open>RouteCaches\<close> (\<open>cache.go\<close>, \<open>cache_redis.go\<close>;
  both caches interpret the locale), \<open>SafeRoutesService\<close> (\<open>service.go\<close>), \<open>PgRows\<close> and \<open>SafeRoutesRepository\<close> (\<open>repository.go\<close>, the Go side),
  \<open>RoadTables\<close> (its SQL statements over tables), \<open>Codecs\<close> and \<open>PathText\<close> (the JSON text of paths, written by the database and read by the service),
  \<open>ResponseJson\<close> (what \<open>encoding/json\<close> writes and reads for a response, struct by struct), \<open>SafeRoutesHandler\<close> (\<open>handler.go\<close>).
  \<open>RiskLemmas\<close>, \<open>RiskProperties\<close>: scores, shares and counts of a route. \<open>SafeRoutesProperties\<close>, \<open>CacheCounters\<close>: what is
  served from the cache and fresh, over all reachable states, and the chain of calls behind a fresh answer. \<open>HandlerProperties\<close>: which outcome
  gives which status, and SQL texts. \<open>TimeProperties\<close>: the datetime of an answer, fresh or cached, read again. \<open>Ranges\<close>, \<open>FiniteRoutes\<close>, \<open>EncodableProperties\<close>: the numbers of an answer stay in range, so it can be written,
  and a cache entry is read back. \<open>RouteOptimality\<close>, \<open>RouteExample\<close>: the routes served are cheapest walks.

  \<^bold>\<open>Crimes, road graph, external routes.\<close>
  \<open>Crimes\<close>, \<open>CrimesSql\<close>, \<open>CursorRoundtrip\<close>, \<open>CrimesProperties\<close>: the search, its statement, the cursor, and pagination as
  a client sees it. \<open>RoadGraph\<close>, \<open>RoadGraphSql\<close>, \<open>WalkProperties\<close>: statistics and walking routes, which are shortest walks.
  \<open>OrsRoutes\<close>: the client of OpenRouteService. \<open>EndpointProperties\<close>: the answers of these
  endpoints, status and body, by what the database or the external service answers.

  \<^bold>\<open>Accounts.\<close>
  \<open>AuthModel\<close>, \<open>AuthTokens\<close>, \<open>AuthService\<close>, \<open>AuthHttp\<close> (the files of \<open>internal/auth\<close>) over \<open>AuthDb\<close>, the four tables and the
  statements of \<open>auth/db\<close>. A world has a script of faults, one entry per statement, so every failure at every statement is a run of the model.
  \<open>AuthEffects\<close> and \<open>AuthContract\<close> state the interfaces as locales; \<open>AuthStore\<close> and \<open>AuthSchema\<close> interpret them on the tables.
  \<open>SessionProperties\<close>, \<open>IssueProperties\<close>, \<open>LoginProperties\<close>, \<open>AuthHttpProperties\<close>, \<open>AuthExamples\<close>: refresh, logout, login, registration, access tokens,
  cookies, and the status and error code of every answer.

  \<^bold>\<open>The server.\<close>
  \<open>Config\<close> (\<open>config.go\<close>), \<open>Platform\<close> (connections, rate limits), \<open>Observability\<close> (statistics, health), \<open>Router\<close> (\<open>routes.go\<close> and the
  \<open>Register\<close> methods), \<open>App\<close> (\<open>app.go\<close>: checks, start with clean-up, wiring, shutdown). \<open>AppProperties\<close>: a start opens all or
  nothing, which endpoints are guarded, who sees the statistics, how long sessions last. \<open>ApiMain\<close> (\<open>cmd/api/main.go\<close>): the process as a step
  relation of its goroutines and its environment, how it can end, what must have happened before, and that a signal stops it.

  \<^bold>\<open>Parameters.\<close>
  Code that is not in the repository is an argument, with what its documentation promises as a hypothesis where a
  theorem needs it: the geometry functions of PostGIS, \<open>pgr_dijkstra\<close> and \<open>pgr_ksp\<close>, the text of a \<open>float8\<close>; the Redis server (\<open>redis_server\<close>); JWT, bcrypt, SHA-256 and the text of a UUID (\<open>crypto\<close>, \<open>jwt_laws\<close>); the transport to
  OpenRouteService; the rate limiter, chi's and other middlewares; letters outside ASCII in \<open>strings.ToLower\<close>.
  Each such hypothesis holds in a witness with a concrete parameter.

  \<^bold>\<open>Bounds.\<close>
  Integers are words of their width and wrap; counts of a route are exact while they fit. Floats have no negative zero, and products and
  sums are rounded one by one, as on amd64. A time is written so that it is read again in the years 0 to 9999, at offsets of whole minutes under 25 hours.
  A response is of finite numbers while paths are of at most \<open>2 ^ 40\<close> meters and seconds. An exponent in a decimal text saturates at 10000, beyond which the value is an infinity or zero.
  JSON nests at most 10000 deep, as in the library. The client that follows cursors (\<open>crawl\<close>) is a partial function: that it
  returns is part of the theorem. No other loop needs fuel.

  \<^bold>\<open>Not modelled.\<close>
  The lines the loggers write, contexts and cancellation (but for the deadline of the shutdown), the generated glue
  \<open>auth/db/db.go\<close> and \<open>querier.go\<close>, and the offline pipeline under \<open>etl/\<close> but for its time context. Requests of one process are runs one
  after another, except for the refresh, whose two halves are separate steps. A panic is an error that is answered 500, as the
  recovering middleware does.
\<close>

end
